(* ===== verification/Prelude.thy ===== *)
theory Prelude
  imports Main "HOL-Library.Word"
begin

text \<open>
  Shared vocabulary of the development: the widths of Rust's integers, the
  \<open>Result\<close> type with the \<open>?\<close> operator, results that carry the mutated
  receiver of a \<open>&mut self\<close> method, checked and saturating arithmetic on
  \<open>usize\<close>, \<open>Iterator::try_fold\<close>, and the collections of facts that the
  component proofs hand to the simplifier.
\<close>

section \<open>Integers\<close>

type_synonym u8 = "8 word"
type_synonym u16 = "16 word"
type_synonym u32 = "32 word"
type_synonym u64 = "64 word"

text \<open>Sizes and counts (\<open>usize\<close> on a 64-bit target) are naturals; the
  operations that can overflow carry the bound.\<close>

abbreviation usize_max :: nat where
  "usize_max \<equiv> 2 ^ 64 - 1"

definition checked_add_usize :: "nat \<Rightarrow> nat \<Rightarrow> nat option" where
  "checked_add_usize a b = (if a + b \<le> usize_max then Some (a + b) else None)"

definition saturating_add_usize :: "nat \<Rightarrow> nat \<Rightarrow> nat" where
  "saturating_add_usize a b = min (a + b) usize_max"

definition checked_sub_usize :: "nat \<Rightarrow> nat \<Rightarrow> nat option" where
  "checked_sub_usize a b = (if b \<le> a then Some (a - b) else None)"

lemma checked_add_usize_Some [simp]:
  "checked_add_usize a b = Some c \<longleftrightarrow> c = a + b \<and> a + b \<le> usize_max"
  by (auto simp: checked_add_usize_def)

lemma saturating_add_usize_le_iff:
  "n < usize_max \<Longrightarrow> saturating_add_usize a b \<le> n \<longleftrightarrow> a + b \<le> n"
  by (auto simp: saturating_add_usize_def)

lemma checked_sub_usize_Some [simp]:
  "checked_sub_usize a b = Some c \<longleftrightarrow> b \<le> a \<and> c = a - b"
  by (auto simp: checked_sub_usize_def)

lemma unat_word_add_one:
  fixes w :: "'a::len word"
  assumes "w \<noteq> -1"
  shows "unat (w + 1) = Suc (unat w)"
proof -
  have "1 + w \<noteq> 0"
    using assms by (metis add.commute eq_neg_iff_add_eq_0)
  then have "unat (1 + w) = 1 + unat w"
    by (metis Suc_eq_plus1_left unatSuc)
  then show ?thesis by (simp add: add.commute)
qed

lemma unat_take_bit_less: "unat (take_bit n (w :: 'a::len word)) < 2 ^ n"
  by (simp add: unsigned_take_bit_eq)

section \<open>Results\<close>

text \<open>\<open>Result<T, E>\<close> is \<open>'e + 'a\<close> with \<open>Inl\<close> the error. \<open>bindE r f\<close> is
  \<open>f(r?)\<close>; \<open>fail_if b e\<close> is \<open>if b { return Err(e) }\<close>; \<open>map_err\<close> is the
  conversion that \<open>?\<close> applies when the error types differ.\<close>

fun bindE :: "'e + 'a \<Rightarrow> ('a \<Rightarrow> 'e + 'b) \<Rightarrow> 'e + 'b" where
  "bindE (Inl e) f = Inl e"
| "bindE (Inr x) f = f x"

definition fail_if :: "bool \<Rightarrow> 'e \<Rightarrow> 'e + unit" where
  "fail_if b e = (if b then Inl e else Inr ())"

fun map_err :: "('e \<Rightarrow> 'f) \<Rightarrow> 'e + 'a \<Rightarrow> 'f + 'a" where
  "map_err f (Inl e) = Inl (f e)"
| "map_err f (Inr x) = Inr x"

definition ok_or :: "'e \<Rightarrow> 'a option \<Rightarrow> 'e + 'a" where
  "ok_or e x = (case x of None \<Rightarrow> Inl e | Some y \<Rightarrow> Inr y)"

fun res_ok :: "'e + 'a \<Rightarrow> 'a option" where
  "res_ok (Inl e) = None"
| "res_ok (Inr x) = Some x"

fun is_ok :: "'e + 'a \<Rightarrow> bool" where
  "is_ok (Inl e) = False"
| "is_ok (Inr x) = True"

named_theorems res_simps

lemma bindE_Inr_iff [res_simps]:
  "bindE r f = Inr y \<longleftrightarrow> (\<exists>x. r = Inr x \<and> f x = Inr y)"
  by (cases r) auto

lemma bindE_Inl_iff [res_simps]:
  "bindE r f = Inl e \<longleftrightarrow> r = Inl e \<or> (\<exists>x. r = Inr x \<and> f x = Inl e)"
  by (cases r) auto

lemma fail_if_Inr_iff [res_simps]: "fail_if b e = Inr u \<longleftrightarrow> \<not> b"
  by (simp add: fail_if_def)

lemma fail_if_Inl_iff [res_simps]: "fail_if b e = Inl e' \<longleftrightarrow> b \<and> e' = e"
  by (auto simp: fail_if_def)

lemma map_err_Inr_iff [res_simps]: "map_err f r = Inr x \<longleftrightarrow> r = Inr x"
  by (cases r) auto

lemma map_err_Inl_iff [res_simps]: "map_err f r = Inl e \<longleftrightarrow> (\<exists>e'. r = Inl e' \<and> e = f e')"
  by (cases r) auto

lemma ok_or_Inr_iff [res_simps]: "ok_or e x = Inr y \<longleftrightarrow> x = Some y"
  by (cases x) (auto simp: ok_or_def)

lemma ok_or_Inl_iff [res_simps]: "ok_or e x = Inl e' \<longleftrightarrow> x = None \<and> e' = e"
  by (cases x) (auto simp: ok_or_def)

lemma res_ok_Some_iff [res_simps]: "res_ok r = Some x \<longleftrightarrow> r = Inr x"
  by (cases r) auto

lemma fail_if_simps [simp]: "fail_if True e = Inl e" "fail_if False e = Inr ()"
  by (simp_all add: fail_if_def)

lemma ok_or_simps [simp]: "ok_or e None = Inl e" "ok_or e (Some y) = Inr y"
  by (simp_all add: ok_or_def)

lemma is_ok_iff: "is_ok r \<longleftrightarrow> (\<exists>x. r = Inr x)"
  by (cases r) auto

text \<open>A \<open>&mut self\<close> method returns its \<open>Result\<close> beside the receiver it
  leaves behind, also on an error path: \<open>tryS r s k\<close> continues with \<open>k\<close>
  when the pure step \<open>r\<close> succeeds and otherwise returns early with the
  receiver \<open>s\<close> as it is then; \<open>thenS\<close> does the same after a step that
  itself mutates the receiver.\<close>

definition tryS :: "'e + 'a \<Rightarrow> 's \<Rightarrow> ('a \<Rightarrow> ('e + 'b) \<times> 's) \<Rightarrow> ('e + 'b) \<times> 's" where
  "tryS r s k = (case r of Inl e \<Rightarrow> (Inl e, s) | Inr x \<Rightarrow> k x)"

definition thenS :: "('e + 'a) \<times> 's \<Rightarrow> ('a \<Rightarrow> 's \<Rightarrow> ('e + 'b) \<times> 's) \<Rightarrow> ('e + 'b) \<times> 's" where
  "thenS m k = (case m of (Inl e, s) \<Rightarrow> (Inl e, s) | (Inr x, s) \<Rightarrow> k x s)"

lemma tryS_simps [simp]:
  "tryS (Inl e) s k = (Inl e, s)"
  "tryS (Inr x) s k = k x"
  by (simp_all add: tryS_def)

lemma thenS_simps [simp]:
  "thenS (Inl e, s) k = (Inl e, s)"
  "thenS (Inr x, s) k = k x s"
  by (simp_all add: thenS_def)

lemma tryS_eq_Inr [res_simps]:
  "tryS r s k = (Inr y, s') \<longleftrightarrow> (\<exists>x. r = Inr x \<and> k x = (Inr y, s'))"
  by (cases r) auto

lemma tryS_eq_Inl [res_simps]:
  "tryS r s k = (Inl e, s') \<longleftrightarrow> r = Inl e \<and> s' = s \<or> (\<exists>x. r = Inr x \<and> k x = (Inl e, s'))"
  by (cases r) auto

lemma thenS_eq_Inr [res_simps]:
  "thenS m k = (Inr y, s') \<longleftrightarrow> (\<exists>x t. m = (Inr x, t) \<and> k x t = (Inr y, s'))"
  by (cases m; cases "fst m") auto

lemma thenS_eq_Inl [res_simps]:
  "thenS m k = (Inl e, s') \<longleftrightarrow> m = (Inl e, s') \<or> (\<exists>x t. m = (Inr x, t) \<and> k x t = (Inl e, s'))"
  by (cases m; cases "fst m") auto

text \<open>\<open>for x in xs { f(x)?; }\<close>: the first error of a loop of checks.\<close>

fun for_each_ok :: "('a \<Rightarrow> 'e + unit) \<Rightarrow> 'a list \<Rightarrow> 'e + unit" where
  "for_each_ok f [] = Inr ()"
| "for_each_ok f (x # xs) = bindE (f x) (\<lambda>_. for_each_ok f xs)"

lemma for_each_ok_Inr_iff [res_simps]:
  "for_each_ok f xs = Inr u \<longleftrightarrow> (\<forall>x\<in>set xs. f x = Inr ())"
  by (induction xs) (auto simp: res_simps)

fun try_fold :: "('s \<Rightarrow> 'a \<Rightarrow> 's option) \<Rightarrow> 's \<Rightarrow> 'a list \<Rightarrow> 's option" where
  "try_fold f s [] = Some s"
| "try_fold f s (x # xs) = (case f s x of None \<Rightarrow> None | Some t \<Rightarrow> try_fold f t xs)"

section \<open>Options and maps\<close>

definition is_none_or :: "'a option \<Rightarrow> ('a \<Rightarrow> bool) \<Rightarrow> bool" where
  "is_none_or x p = (case x of None \<Rightarrow> True | Some y \<Rightarrow> p y)"

definition is_some_and :: "'a option \<Rightarrow> ('a \<Rightarrow> bool) \<Rightarrow> bool" where
  "is_some_and x p = (case x of None \<Rightarrow> False | Some y \<Rightarrow> p y)"

lemma is_none_or_simps [simp]:
  "is_none_or None p" "is_none_or (Some y) p = p y"
  by (simp_all add: is_none_or_def)

lemma is_some_and_simps [simp]:
  "\<not> is_some_and None p" "is_some_and (Some y) p = p y"
  by (simp_all add: is_some_and_def)

lemma is_none_or_iff: "is_none_or x p \<longleftrightarrow> (\<forall>y. x = Some y \<longrightarrow> p y)"
  by (cases x) auto

lemma is_some_and_iff: "is_some_and x p \<longleftrightarrow> (\<exists>y. x = Some y \<and> p y)"
  by (cases x) auto

end
