(* ===== verification/Rust_Text.thy ===== *)
theory Rust_Text
  imports Prelude
begin

text \<open>
  Rust's \<open>char\<close>, \<open>str\<close> and the string methods the sources call. A string is the
  list of its Unicode scalar values; its length is the length of its UTF-8
  encoding, as \<open>str::len\<close> counts bytes.
\<close>

section \<open>Scalar values and UTF-8\<close>

type_synonym uchar = nat
type_synonym ustring = "uchar list"

definition ascii :: "string \<Rightarrow> ustring" where
  "ascii s = map of_char s"

definition utf8_encode :: "uchar \<Rightarrow> nat list" where
  "utf8_encode c =
     (if c < 0x80 then [c]
      else if c < 0x800 then [0xC0 + c div 64, 0x80 + c mod 64]
      else if c < 0x10000 then
        [0xE0 + c div 4096, 0x80 + (c div 64) mod 64, 0x80 + c mod 64]
      else
        [0xF0 + c div 262144, 0x80 + (c div 4096) mod 64,
         0x80 + (c div 64) mod 64, 0x80 + c mod 64])"

definition str_bytes :: "ustring \<Rightarrow> nat list" where
  "str_bytes s = concat (map utf8_encode s)"

definition str_len :: "ustring \<Rightarrow> nat" where
  "str_len s = length (str_bytes s)"

lemma str_bytes_simps [simp]:
  "str_bytes [] = []"
  "str_bytes (c # s) = utf8_encode c @ str_bytes s"
  "str_bytes (s @ t) = str_bytes s @ str_bytes t"
  by (simp_all add: str_bytes_def)

lemma str_len_simps [simp]:
  "str_len [] = 0"
  "str_len (c # s) = length (utf8_encode c) + str_len s"
  "str_len (s @ t) = str_len s + str_len t"
  by (simp_all add: str_len_def)

lemma utf8_encode_nonempty [simp]: "utf8_encode c \<noteq> []"
  by (simp add: utf8_encode_def)

lemma length_utf8_encode: "1 \<le> length (utf8_encode c)" "length (utf8_encode c) \<le> 4"
  by (simp_all add: utf8_encode_def)

lemma length_le_str_len: "length s \<le> str_len s"
proof (induction s)
  case (Cons c s)
  then show ?case using length_utf8_encode(1) [of c] by simp
qed simp

lemma utf8_encode_ascii: "c < 0x80 \<Longrightarrow> utf8_encode c = [c]"
  by (simp add: utf8_encode_def)

lemma utf8_encode_high:
  assumes "\<not> c < 0x80" "b \<in> set (utf8_encode c)"
  shows "0x80 \<le> b"
  using assms by (auto simp: utf8_encode_def split: if_splits)

lemma str_bytes_ascii: "\<forall>c\<in>set s. c < 0x80 \<Longrightarrow> str_bytes s = s"
  by (induction s) (auto simp: utf8_encode_ascii)

lemma str_len_ascii: "\<forall>c\<in>set s. c < 0x80 \<Longrightarrow> str_len s = length s"
  by (simp add: str_len_def str_bytes_ascii)

lemma all_bytes_ascii:
  assumes "\<forall>b\<in>set (str_bytes s). P b" "\<And>b. P b \<Longrightarrow> b < 0x80"
  shows "\<forall>c\<in>set s. P c"
  using assms(1)
proof (induction s)
  case (Cons c s)
  have "c < 0x80"
  proof (rule ccontr)
    assume high: "\<not> c < 0x80"
    obtain b where b: "b \<in> set (utf8_encode c)"
      using utf8_encode_nonempty [of c] by (meson last_in_set)
    then have "P b" using Cons.prems by simp
    then show False using assms(2) utf8_encode_high [OF high b] by fastforce
  qed
  with Cons show ?case by (simp add: utf8_encode_ascii)
qed simp

section \<open>Character classes of the standard library\<close>

definition char_is_control :: "uchar \<Rightarrow> bool" where
  "char_is_control c \<longleftrightarrow> c \<le> 0x1F \<or> 0x7F \<le> c \<and> c \<le> 0x9F"

definition char_is_whitespace :: "uchar \<Rightarrow> bool" where
  "char_is_whitespace c \<longleftrightarrow>
     0x09 \<le> c \<and> c \<le> 0x0D \<or> c = 0x20 \<or> c = 0x85 \<or> c = 0xA0 \<or> c = 0x1680
     \<or> 0x2000 \<le> c \<and> c \<le> 0x200A \<or> c = 0x2028 \<or> c = 0x2029 \<or> c = 0x202F
     \<or> c = 0x205F \<or> c = 0x3000"

definition byte_is_ascii_alphanumeric :: "nat \<Rightarrow> bool" where
  "byte_is_ascii_alphanumeric b \<longleftrightarrow>
     0x30 \<le> b \<and> b \<le> 0x39 \<or> 0x41 \<le> b \<and> b \<le> 0x5A \<or> 0x61 \<le> b \<and> b \<le> 0x7A"

text \<open>The Unicode formatting characters that both \<open>is_unsafe_rule_name_character\<close>
  and \<open>is_unsafe_text_character\<close> enumerate in their \<open>matches!\<close>.\<close>

definition is_format_character :: "uchar \<Rightarrow> bool" where
  "is_format_character c \<longleftrightarrow>
     c = 0x061C \<or> 0x200B \<le> c \<and> c \<le> 0x200F \<or> 0x202A \<le> c \<and> c \<le> 0x202E
     \<or> 0x2060 \<le> c \<and> c \<le> 0x206F \<or> c = 0xFEFF"

section \<open>String methods\<close>

definition str_trim :: "ustring \<Rightarrow> ustring" where
  "str_trim s = rev (dropWhile char_is_whitespace (rev (dropWhile char_is_whitespace s)))"

definition str_starts_with_char :: "ustring \<Rightarrow> uchar \<Rightarrow> bool" where
  "str_starts_with_char s c = (case s of [] \<Rightarrow> False | x # _ \<Rightarrow> x = c)"

definition str_ends_with :: "ustring \<Rightarrow> ustring \<Rightarrow> bool" where
  "str_ends_with s t \<longleftrightarrow> length t \<le> length s \<and> drop (length s - length t) s = t"

fun str_split :: "uchar \<Rightarrow> ustring \<Rightarrow> ustring list" where
  "str_split c [] = [[]]"
| "str_split c (x # xs) =
     (if x = c then [] # str_split c xs
      else (case str_split c xs of [] \<Rightarrow> [[x]] | y # ys \<Rightarrow> (x # y) # ys))"

fun slice_starts_with :: "'a list \<Rightarrow> 'a list \<Rightarrow> bool" where
  "slice_starts_with xs [] = True"
| "slice_starts_with [] (y # ys) = False"
| "slice_starts_with (x # xs) (y # ys) = (x = y \<and> slice_starts_with xs ys)"

lemma slice_starts_with_iff: "slice_starts_with xs ys \<longleftrightarrow> (\<exists>zs. xs = ys @ zs)"
  by (induction xs ys rule: slice_starts_with.induct) auto

lemma str_trim_id:
  assumes "s = [] \<or> \<not> char_is_whitespace (hd s) \<and> \<not> char_is_whitespace (last s)"
  shows "str_trim s = s"
proof (cases "s = []")
  case False
  then have "\<not> char_is_whitespace (hd s)" "\<not> char_is_whitespace (hd (rev s))" "rev s \<noteq> []"
    using assms by (auto simp: hd_rev)
  then have "dropWhile char_is_whitespace s = s"
    "dropWhile char_is_whitespace (rev s) = rev s"
    by (metis dropWhile_eq_self_iff)+
  then show ?thesis by (simp add: str_trim_def)
qed (simp add: str_trim_def)

section \<open>Integer formatting\<close>

text \<open>\<open>{}\<close> of an unsigned integer, \<open>{:x}\<close> and \<open>{:04x}\<close>.\<close>

definition hex_digit :: "nat \<Rightarrow> uchar" where
  "hex_digit n = (if n < 10 then 0x30 + n else 0x57 + n)"

fun dec_string :: "nat \<Rightarrow> ustring" where
  "dec_string n = (if n < 10 then [0x30 + n] else dec_string (n div 10) @ [0x30 + n mod 10])"

fun hex_string :: "nat \<Rightarrow> ustring" where
  "hex_string n =
     (if n < 16 then [hex_digit n] else hex_string (n div 16) @ [hex_digit (n mod 16)])"

definition hex_string_04 :: "nat \<Rightarrow> ustring" where
  "hex_string_04 n = replicate (4 - length (hex_string n)) 0x30 @ hex_string n"

declare dec_string.simps [simp del] hex_string.simps [simp del]

lemma hex_string_04_digits:
  assumes "n < 0x10000"
  shows "hex_string_04 n =
    [hex_digit (n div 4096), hex_digit (n div 256 mod 16), hex_digit (n div 16 mod 16),
     hex_digit (n mod 16)]"
proof -
  have zero: "hex_digit 0 = 0x30" by (simp add: hex_digit_def)
  consider "n < 16" | "16 \<le> n" "n < 256" | "256 \<le> n" "n < 4096" | "4096 \<le> n"
    by linarith
  then show ?thesis
  proof cases
    case 1
    then show ?thesis
      by (simp add: hex_string_04_def hex_string.simps [of n] zero numeral_3_eq_3)
  next
    case 2
    then have "n div 16 < 16" by simp
    with 2 show ?thesis
      by (simp add: hex_string_04_def hex_string.simps [of n] hex_string.simps [of "n div 16"]
          zero numeral_2_eq_2)
  next
    case 3
    then have "n div 16 div 16 < 16" "\<not> n div 16 < 16"
      by (simp_all add: div_mult2_eq [symmetric])
    with 3 show ?thesis
      by (simp add: hex_string_04_def hex_string.simps [of n] hex_string.simps [of "n div 16"]
          hex_string.simps [of "n div 256"] zero div_mult2_eq [symmetric])
  next
    case 4
    then have "n div 16 div 16 div 16 < 16" "\<not> n div 16 < 16" "\<not> n div 16 div 16 < 16"
      using assms by (simp_all add: div_mult2_eq [symmetric])
    with 4 show ?thesis
      by (simp add: hex_string_04_def hex_string.simps [of n] hex_string.simps [of "n div 16"]
          hex_string.simps [of "n div 256"] hex_string.simps [of "n div 4096"]
          div_mult2_eq [symmetric])
  qed
qed

lemma dec_string_ascii_digits: "\<forall>c\<in>set (dec_string n). 0x30 \<le> c \<and> c \<le> 0x39"
proof (induction n rule: dec_string.induct)
  case (1 n)
  show ?case
  proof (cases "n < 10")
    case False
    with 1 have "\<forall>c\<in>set (dec_string (n div 10)). 0x30 \<le> c \<and> c \<le> 0x39" by simp
    with False show ?thesis
      by (auto simp: dec_string.simps [of n])
  qed (simp add: dec_string.simps [of n])
qed

lemma hex_string_digits:
  "\<forall>c\<in>set (hex_string n). 0x30 \<le> c \<and> c \<le> 0x39 \<or> 0x61 \<le> c \<and> c \<le> 0x66"
proof (induction n rule: hex_string.induct)
  case (1 n)
  have digit: "0x30 \<le> hex_digit k \<and> hex_digit k \<le> 0x39 \<or> 0x61 \<le> hex_digit k \<and> hex_digit k \<le> 0x66"
    if "k < 16" for k
    using that by (auto simp: hex_digit_def)
  show ?case
  proof (cases "n < 16")
    case True
    then show ?thesis using digit by (simp add: hex_string.simps [of n])
  next
    case False
    with 1 have "\<forall>c\<in>set (hex_string (n div 16)). 0x30 \<le> c \<and> c \<le> 0x39 \<or> 0x61 \<le> c \<and> c \<le> 0x66"
      by simp
    with False digit [of "n mod 16"] show ?thesis
      by (auto simp: hex_string.simps [of n])
  qed
qed

lemma dec_string_nonempty [simp]: "dec_string n \<noteq> []"
  by (subst dec_string.simps) simp

lemma hex_string_nonempty [simp]: "hex_string n \<noteq> []"
  by (subst hex_string.simps) simp

lemma length_dec_string: "n < 10 ^ k \<Longrightarrow> 0 < k \<Longrightarrow> length (dec_string n) \<le> k"
proof (induction n arbitrary: k rule: dec_string.induct)
  case (1 n)
  show ?case
  proof (cases "n < 10")
    case False
    then obtain j where k: "k = Suc j" and j: "0 < j"
      using 1 by (cases k; cases "k = 1") auto
    have "n div 10 < 10 ^ j" using 1 k by (simp add: less_mult_imp_div_less)
    then have "length (dec_string (n div 10)) \<le> j" using 1 False j by blast
    then show ?thesis using False k by (simp add: dec_string.simps [of n])
  qed (use 1 in \<open>simp add: dec_string.simps [of n]\<close>)
qed

lemma length_hex_string: "n < 16 ^ k \<Longrightarrow> 0 < k \<Longrightarrow> length (hex_string n) \<le> k"
proof (induction n arbitrary: k rule: hex_string.induct)
  case (1 n)
  show ?case
  proof (cases "n < 16")
    case False
    then obtain j where k: "k = Suc j" and j: "0 < j"
      using 1 by (cases k; cases "k = 1") auto
    have "n div 16 < 16 ^ j" using 1 k by (simp add: less_mult_imp_div_less)
    then have "length (hex_string (n div 16)) \<le> j" using 1 False j by blast
    then show ?thesis using False k by (simp add: hex_string.simps [of n])
  qed (use 1 in \<open>simp add: hex_string.simps [of n]\<close>)
qed

end
