(* ===== verification/Application.thy ===== *)
theory Application
  imports Rust_Text
begin

text \<open>
  Application identities and selectors, from
  \<open>src/crates/openshield-core/src/application.rs\<close>: the validated newtypes
  (paths, cgroups, arguments), the argv selector, the executable version
  identity, the conjunctive application selector with its matcher and its
  redacted form, and the process identity captured by the daemon with the
  exact selector that learning derives from it.
\<close>

section \<open>Data\<close>

definition MAX_APPLICATION_PATH_BYTES :: nat where "MAX_APPLICATION_PATH_BYTES = 4096"
definition MAX_CGROUP_PATH_BYTES :: nat where "MAX_CGROUP_PATH_BYTES = 1024"
definition MAX_COMMAND_ARGUMENTS :: nat where "MAX_COMMAND_ARGUMENTS = 64"
definition MAX_COMMAND_LINE_BYTES :: nat where "MAX_COMMAND_LINE_BYTES = 8 * 1024"
definition MAX_COMMAND_ARGUMENT_BYTES :: nat where
  "MAX_COMMAND_ARGUMENT_BYTES = MAX_COMMAND_LINE_BYTES - 1"

lemmas application_limits =
  MAX_APPLICATION_PATH_BYTES_def MAX_CGROUP_PATH_BYTES_def MAX_COMMAND_ARGUMENTS_def
  MAX_COMMAND_LINE_BYTES_def MAX_COMMAND_ARGUMENT_BYTES_def

datatype application_validation_error =
    InvalidExecutablePath
  | InvalidCgroupPath
  | InvalidCommandArgument
  | InvalidCommandLine
  | ApplicationSelectorNeedsExecutable
  | FileIdWithoutExecutablePath
  | InvalidExecutableFileId
  | InvalidProcessIdentity
  | InvalidLearnedEndpoint
  | IncompleteLearnedApplicationIdentity
  | InvalidRedactedSelector

datatype application_path = ApplicationPath (path_str: ustring)
datatype cgroup_path = CgroupPath (cgroup_str: ustring)
datatype command_argument = CommandArgument (argument_str: ustring)

datatype command_line_match = Exact | Prefix

record command_line_selector =
  cls_kind :: command_line_match
  cls_arguments :: "command_argument list"

text \<open>The two change-time fields are \<open>i64\<close>; no arithmetic is done on them.\<close>

record executable_file_id =
  efi_device :: u64
  efi_inode :: u64
  efi_size :: u64
  efi_ctime_seconds :: int
  efi_ctime_nanoseconds :: int

record application_selector =
  sel_executable :: "application_path option"
  sel_executable_file :: "executable_file_id option"
  sel_command_line :: "command_line_selector option"
  sel_uid :: "u32 option"
  sel_cgroup :: "cgroup_path option"
  sel_metadata_redacted :: bool

record application_identity =
  ident_pid :: u32
  ident_process_start_time_ticks :: u64
  ident_executable :: application_path
  ident_executable_file :: executable_file_id
  ident_command_line :: "command_argument list"
  ident_uid :: u32
  ident_cgroups :: "cgroup_path list"

section \<open>Validated newtypes\<close>

definition is_unsafe_text_character :: "uchar \<Rightarrow> bool" where
  "is_unsafe_text_character c \<longleftrightarrow> c = 0 \<or> char_is_control c \<or> is_format_character c"

definition has_traversal_component :: "ustring \<Rightarrow> bool" where
  "has_traversal_component s \<longleftrightarrow>
     list_ex (\<lambda>comp. comp = ascii ''.'' \<or> comp = ascii ''..'') (str_split 0x2F s)"

definition application_path_new ::
    "ustring \<Rightarrow> application_validation_error + application_path" where
  "application_path_new s =
     bindE (fail_if (s = [] \<or> MAX_APPLICATION_PATH_BYTES < str_len s) InvalidExecutablePath)
      (\<lambda>_. bindE (fail_if (\<not> str_starts_with_char s 0x2F
                 \<or> str_ends_with s (ascii '' (deleted)'')
                 \<or> list_ex is_unsafe_text_character s
                 \<or> has_traversal_component s) InvalidExecutablePath)
      (\<lambda>_. Inr (ApplicationPath s)))"

definition cgroup_path_new :: "ustring \<Rightarrow> application_validation_error + cgroup_path" where
  "cgroup_path_new s =
     bindE (fail_if (s = [] \<or> MAX_CGROUP_PATH_BYTES < str_len s
                 \<or> \<not> str_starts_with_char s 0x2F
                 \<or> list_ex is_unsafe_text_character s
                 \<or> has_traversal_component s) InvalidCgroupPath)
      (\<lambda>_. Inr (CgroupPath s))"

definition command_argument_new ::
    "ustring \<Rightarrow> application_validation_error + command_argument" where
  "command_argument_new s =
     bindE (fail_if (MAX_COMMAND_ARGUMENT_BYTES < str_len s \<or> 0 \<in> set s) InvalidCommandArgument)
      (\<lambda>_. Inr (CommandArgument s))"

text \<open>\<open>impl Display for CommandArgument\<close>: the argument as an escaped JSON string.\<close>

definition escape_character :: "uchar \<Rightarrow> ustring" where
  "escape_character c =
     (if c = 0x5C then [0x5C, 0x5C]
      else if c = 0x22 then [0x5C, 0x22]
      else if c = 0x0A then [0x5C, 0x6E]
      else if c = 0x0D then [0x5C, 0x72]
      else if c = 0x09 then [0x5C, 0x74]
      else if c = 0x08 then [0x5C, 0x62]
      else if c = 0x0C then [0x5C, 0x66]
      else if is_unsafe_text_character c \<or> c = 0x2028 \<or> c = 0x2029
        then [0x5C, 0x75] @ hex_string_04 c
      else [c])"

definition display_argument :: "command_argument \<Rightarrow> ustring" where
  "display_argument a = [0x22] @ concat (map escape_character (argument_str a)) @ [0x22]"

section \<open>Selectors\<close>

definition command_bytes :: "command_argument list \<Rightarrow> nat option" where
  "command_bytes args =
     try_fold (\<lambda>total a. Option.bind (checked_add_usize total (str_len (argument_str a)))
                          (\<lambda>v. checked_add_usize v 1)) 0 args"

definition command_line_selector_validate ::
    "command_line_selector \<Rightarrow> application_validation_error + unit" where
  "command_line_selector_validate s =
     bindE (fail_if (cls_arguments s = [] \<or> MAX_COMMAND_ARGUMENTS < length (cls_arguments s))
              InvalidCommandLine)
      (\<lambda>_. fail_if (is_none_or (command_bytes (cls_arguments s))
                      (\<lambda>total. MAX_COMMAND_LINE_BYTES < total))
              InvalidCommandLine)"

definition command_line_selector_new ::
    "command_line_match \<Rightarrow> command_argument list
     \<Rightarrow> application_validation_error + command_line_selector" where
  "command_line_selector_new kind arguments =
     (let selector = \<lparr>cls_kind = kind, cls_arguments = arguments\<rparr>
      in bindE (command_line_selector_validate selector) (\<lambda>_. Inr selector))"

definition command_line_selector_matches ::
    "command_line_selector \<Rightarrow> command_argument list \<Rightarrow> bool" where
  "command_line_selector_matches s actual =
     (case cls_kind s of
        Exact \<Rightarrow> cls_arguments s = actual
      | Prefix \<Rightarrow> slice_starts_with actual (cls_arguments s))"

definition executable_file_id_validate ::
    "executable_file_id \<Rightarrow> application_validation_error + unit" where
  "executable_file_id_validate f =
     fail_if (efi_inode f = 0
              \<or> \<not> (0 \<le> efi_ctime_nanoseconds f \<and> efi_ctime_nanoseconds f < 1000000000))
       InvalidExecutableFileId"

definition redacted_path :: application_path where
  "redacted_path = ApplicationPath (ascii ''/redacted'')"

definition application_selector_validate ::
    "application_selector \<Rightarrow> application_validation_error + unit" where
  "application_selector_validate s =
     (if sel_metadata_redacted s then
        (if map_option path_str (sel_executable s) = Some (ascii ''/redacted'')
            \<and> sel_executable_file s = None
            \<and> sel_command_line s = None
            \<and> sel_uid s = None
            \<and> sel_cgroup s = None
         then Inr () else Inl InvalidRedactedSelector)
      else
        bindE (fail_if (sel_executable s = None) ApplicationSelectorNeedsExecutable)
       (\<lambda>_. bindE (fail_if (sel_executable_file s \<noteq> None \<and> sel_executable s = None)
                     FileIdWithoutExecutablePath)
       (\<lambda>_. bindE (case sel_executable_file s of
                      None \<Rightarrow> Inr () | Some f \<Rightarrow> executable_file_id_validate f)
       (\<lambda>_. case sel_command_line s of
               None \<Rightarrow> Inr () | Some c \<Rightarrow> command_line_selector_validate c))))"

definition application_selector_new ::
    "application_path option \<Rightarrow> executable_file_id option \<Rightarrow> command_line_selector option
     \<Rightarrow> u32 option \<Rightarrow> cgroup_path option
     \<Rightarrow> application_validation_error + application_selector" where
  "application_selector_new executable executable_file command_line uid cgroup =
     (let selector = \<lparr>sel_executable = executable, sel_executable_file = executable_file,
            sel_command_line = command_line, sel_uid = uid, sel_cgroup = cgroup,
            sel_metadata_redacted = False\<rparr>
      in bindE (application_selector_validate selector) (\<lambda>_. Inr selector))"

definition application_selector_matches ::
    "application_selector \<Rightarrow> application_identity \<Rightarrow> bool" where
  "application_selector_matches s i \<longleftrightarrow>
     \<not> sel_metadata_redacted s
     \<and> is_none_or (sel_executable s) (\<lambda>expected. expected = ident_executable i)
     \<and> is_none_or (sel_executable_file s) (\<lambda>expected. expected = ident_executable_file i)
     \<and> is_none_or (sel_command_line s)
         (\<lambda>expected. command_line_selector_matches expected (ident_command_line i))
     \<and> is_none_or (sel_uid s) (\<lambda>expected. expected = ident_uid i)
     \<and> is_none_or (sel_cgroup s)
         (\<lambda>expected. list_ex (\<lambda>actual. actual = expected) (ident_cgroups i))"

definition application_selector_redacted :: application_selector where
  "application_selector_redacted =
     \<lparr>sel_executable = Some redacted_path, sel_executable_file = None,
      sel_command_line = None, sel_uid = None, sel_cgroup = None,
      sel_metadata_redacted = True\<rparr>"

section \<open>Process identities\<close>

definition application_identity_validate ::
    "application_identity \<Rightarrow> application_validation_error + unit" where
  "application_identity_validate i =
     bindE (fail_if (ident_pid i = 0 \<or> ident_process_start_time_ticks i = 0)
              InvalidProcessIdentity)
    (\<lambda>_. bindE (executable_file_id_validate (ident_executable_file i))
    (\<lambda>_. bindE (fail_if (MAX_COMMAND_ARGUMENTS < length (ident_command_line i)
                        \<or> MAX_COMMAND_ARGUMENTS < length (ident_cgroups i))
                 InvalidProcessIdentity)
    (\<lambda>_. fail_if (is_none_or (command_bytes (ident_command_line i))
                    (\<lambda>total. MAX_COMMAND_LINE_BYTES < total))
            InvalidProcessIdentity)))"

definition learned_selector ::
    "application_identity \<Rightarrow> application_validation_error + application_selector" where
  "learned_selector i =
     bindE (application_identity_validate i)
    (\<lambda>_. bindE (command_line_selector_new Exact (ident_command_line i))
    (\<lambda>command_line. bindE (case ident_cgroups i of
                              [] \<Rightarrow> Inr None
                            | [cgroup] \<Rightarrow> Inr (Some cgroup)
                            | _ \<Rightarrow> Inl InvalidProcessIdentity)
    (\<lambda>cgroup. application_selector_new
        (Some (ident_executable i)) (Some (ident_executable_file i))
        (Some command_line) (Some (ident_uid i)) cgroup)))"

section \<open>Display of arguments is reversible\<close>

text \<open>A reference decoder of JSON string literals (RFC 8259), against which the
  escaping of \<open>display_argument\<close> is judged.\<close>

definition hex_value :: "uchar \<Rightarrow> nat option" where
  "hex_value c =
     (if 0x30 \<le> c \<and> c \<le> 0x39 then Some (c - 0x30)
      else if 0x61 \<le> c \<and> c \<le> 0x66 then Some (c - 0x57)
      else if 0x41 \<le> c \<and> c \<le> 0x46 then Some (c - 0x37)
      else None)"

definition simple_escape_value :: "uchar \<Rightarrow> uchar option" where
  "simple_escape_value c =
     (if c = 0x22 \<or> c = 0x5C \<or> c = 0x2F then Some c
      else if c = 0x62 then Some 0x08 else if c = 0x66 then Some 0x0C
      else if c = 0x6E then Some 0x0A else if c = 0x72 then Some 0x0D
      else if c = 0x74 then Some 0x09 else None)"

definition unicode_escape_value :: "uchar \<Rightarrow> uchar \<Rightarrow> uchar \<Rightarrow> uchar \<Rightarrow> uchar option" where
  "unicode_escape_value a b c d =
     (case (hex_value a, hex_value b, hex_value c, hex_value d) of
        (Some i, Some j, Some k, Some l) \<Rightarrow> Some (i * 4096 + j * 256 + k * 16 + l)
      | _ \<Rightarrow> None)"

fun json_unescape :: "ustring \<Rightarrow> ustring option" where
  "json_unescape [] = Some []"
| "json_unescape (x # xs) =
     (if x = 0x22 then None
      else if x = 0x5C then
        (case xs of
           [] \<Rightarrow> None
         | e # ys \<Rightarrow>
             (if e = 0x75 then
                (case ys of
                   a # b # c # d # zs \<Rightarrow>
                     (case unicode_escape_value a b c d of
                        None \<Rightarrow> None
                      | Some v \<Rightarrow> map_option ((#) v) (json_unescape zs))
                 | _ \<Rightarrow> None)
              else
                (case simple_escape_value e of
                   None \<Rightarrow> None
                 | Some v \<Rightarrow> map_option ((#) v) (json_unescape ys))))
      else map_option ((#) x) (json_unescape xs))"

definition parse_json_string :: "ustring \<Rightarrow> ustring option" where
  "parse_json_string s =
     (case s of
        [] \<Rightarrow> None
      | q # r \<Rightarrow> if q = 0x22 \<and> r \<noteq> [] \<and> last r = 0x22 then json_unescape (butlast r) else None)"

lemma hex_value_hex_digit [simp]: "n < 16 \<Longrightarrow> hex_value (hex_digit n) = Some n"
  by (simp add: hex_value_def hex_digit_def)

lemma nibbles_recompose:
  fixes n :: nat
  shows "n div 4096 * 4096 + n div 256 mod 16 * 256 + n div 16 mod 16 * 16 + n mod 16 = n"
proof -
  have "n div 16 div 16 = n div 256" "n div 256 div 16 = n div 4096"
    by (simp_all add: div_mult2_eq [symmetric])
  then show ?thesis
    using div_mult_mod_eq [of n 16] div_mult_mod_eq [of "n div 16" 16]
      div_mult_mod_eq [of "n div 256" 16]
    by linarith
qed

lemma unicode_escape_value_hex:
  assumes "n < 0x10000"
  shows "unicode_escape_value (hex_digit (n div 4096)) (hex_digit (n div 256 mod 16))
           (hex_digit (n div 16 mod 16)) (hex_digit (n mod 16)) = Some n"
proof -
  have "n div 4096 < 16" using assms by simp
  moreover have "n div 4096 * 4096 + n div 256 mod 16 * 256 + n div 16 mod 16 * 16 + n mod 16 = n"
    by (rule nibbles_recompose)
  ultimately show ?thesis by (simp add: unicode_escape_value_def)
qed

lemma is_unsafe_text_character_bmp: "is_unsafe_text_character c \<Longrightarrow> c < 0x10000"
  by (auto simp: is_unsafe_text_character_def char_is_control_def is_format_character_def)

lemma json_unescape_escape:
  "json_unescape (escape_character c @ rest) = map_option ((#) c) (json_unescape rest)"
proof -
  consider (short) "c \<in> {0x5C, 0x22, 0x0A, 0x0D, 0x09, 0x08, 0x0C}"
    | (hex) "c \<notin> {0x5C, 0x22, 0x0A, 0x0D, 0x09, 0x08, 0x0C}"
        "is_unsafe_text_character c \<or> c = 0x2028 \<or> c = 0x2029"
    | (plain) "c \<notin> {0x5C, 0x22, 0x0A, 0x0D, 0x09, 0x08, 0x0C}"
        "\<not> (is_unsafe_text_character c \<or> c = 0x2028 \<or> c = 0x2029)"
    by blast
  then show ?thesis
  proof cases
    case short
    then show ?thesis by (auto simp: escape_character_def simple_escape_value_def)
  next
    case hex
    then have "c < 0x10000" using is_unsafe_text_character_bmp by auto
    moreover have "escape_character c = [0x5C, 0x75] @ hex_string_04 c"
      using hex by (simp add: escape_character_def)
    ultimately show ?thesis
      by (simp add: hex_string_04_digits unicode_escape_value_hex)
  next
    case plain
    then show ?thesis by (simp add: escape_character_def)
  qed
qed

lemma json_unescape_escape_all: "json_unescape (concat (map escape_character s)) = Some s"
  by (induction s) (simp_all add: json_unescape_escape)

lemma hex_digit_printable: "n < 16 \<Longrightarrow> \<not> is_unsafe_text_character (hex_digit n)"
  by (simp add: hex_digit_def is_unsafe_text_character_def char_is_control_def
      is_format_character_def)

lemma printable_ascii_safe: "0x20 \<le> c \<Longrightarrow> c \<le> 0x7E \<Longrightarrow> \<not> is_unsafe_text_character c"
  by (simp add: is_unsafe_text_character_def char_is_control_def is_format_character_def)

lemma escape_character_safe: "list_all (\<lambda>d. \<not> is_unsafe_text_character d) (escape_character c)"
proof (cases "is_unsafe_text_character c \<or> c = 0x2028 \<or> c = 0x2029")
  case True
  then have "c < 0x10000" using is_unsafe_text_character_bmp by auto
  then show ?thesis
    by (auto simp: escape_character_def hex_string_04_digits hex_digit_printable printable_ascii_safe)
next
  case False
  then show ?thesis by (auto simp: escape_character_def printable_ascii_safe)
qed

text \<open>the displayed form of a command argument is a JSON string literal
  that decodes to exactly the argument, so two different arguments are never shown
  alike, and it contains no control or bidirectional formatting character.\<close>

theorem display_argument_reversible:
  "parse_json_string (display_argument a) = Some (argument_str a)
   \<and> list_all (\<lambda>c. \<not> is_unsafe_text_character c) (display_argument a)"
proof
  show "parse_json_string (display_argument a) = Some (argument_str a)"
    by (simp add: parse_json_string_def display_argument_def json_unescape_escape_all)
  have "list_all (\<lambda>d. \<not> is_unsafe_text_character d) (concat (map escape_character s))" for s
    by (induction s) (simp_all add: escape_character_safe)
  then show "list_all (\<lambda>c. \<not> is_unsafe_text_character c) (display_argument a)"
    by (simp add: display_argument_def printable_ascii_safe)
qed

section \<open>Validation\<close>

lemma command_bytes_from:
  "try_fold (\<lambda>total a. Option.bind (checked_add_usize total (str_len (argument_str a)))
                        (\<lambda>v. checked_add_usize v 1)) n args =
   (let total = n + (\<Sum>a\<leftarrow>args. str_len (argument_str a) + 1)
    in if args = [] \<or> total \<le> usize_max then Some total else None)"
proof (induction args arbitrary: n)
  case (Cons a args)
  let ?n = "n + str_len (argument_str a) + 1"
  show ?case
  proof (cases "?n \<le> usize_max")
    case True
    then have "Option.bind (checked_add_usize n (str_len (argument_str a)))
                 (\<lambda>v. checked_add_usize v 1) = Some ?n"
      by (simp add: checked_add_usize_def)
    with True show ?thesis using Cons [of ?n] by (auto simp: Let_def)
  next
    case False
    then have "Option.bind (checked_add_usize n (str_len (argument_str a)))
                 (\<lambda>v. checked_add_usize v 1) = None"
      by (auto simp: checked_add_usize_def)
    with False show ?thesis by (simp add: Let_def)
  qed
qed simp

lemma command_bytes_eq:
  "command_bytes args =
   (let total = (\<Sum>a\<leftarrow>args. str_len (argument_str a) + 1)
    in if total \<le> usize_max then Some total else None)"
  by (simp only: command_bytes_def command_bytes_from Let_def) auto

lemma command_bytes_within:
  "\<not> is_none_or (command_bytes args) (\<lambda>total. MAX_COMMAND_LINE_BYTES < total)
   \<longleftrightarrow> (\<Sum>a\<leftarrow>args. str_len (argument_str a) + 1) \<le> MAX_COMMAND_LINE_BYTES"
  by (auto simp: command_bytes_eq Let_def application_limits)

lemma command_line_selector_validate_iff:
  "command_line_selector_validate s = Inr u \<longleftrightarrow>
     cls_arguments s \<noteq> [] \<and> length (cls_arguments s) \<le> MAX_COMMAND_ARGUMENTS
     \<and> (\<Sum>a\<leftarrow>cls_arguments s. str_len (argument_str a) + 1) \<le> MAX_COMMAND_LINE_BYTES"
  by (auto simp: command_line_selector_validate_def res_simps command_bytes_within)

lemma application_selector_redacted_valid:
  "application_selector_validate application_selector_redacted = Inr ()"
  by (simp add: application_selector_validate_def application_selector_redacted_def
      redacted_path_def)

lemma redacted_selector_never_matches:
  "sel_metadata_redacted s \<Longrightarrow> \<not> application_selector_matches s i"
  by (simp add: application_selector_matches_def)

lemma application_selector_validate_executable:
  "application_selector_validate s = Inr u \<Longrightarrow> sel_executable s \<noteq> None"
  by (auto simp: application_selector_validate_def res_simps split: if_splits)

lemma application_selector_new_fields:
  "application_selector_new e f c u g = Inr s \<Longrightarrow>
     s = \<lparr>sel_executable = e, sel_executable_file = f, sel_command_line = c, sel_uid = u,
          sel_cgroup = g, sel_metadata_redacted = False\<rparr>
     \<and> application_selector_validate s = Inr ()"
  by (auto simp: application_selector_new_def Let_def res_simps)

lemma command_line_selector_new_fields:
  "command_line_selector_new k as = Inr s \<longleftrightarrow>
     s = \<lparr>cls_kind = k, cls_arguments = as\<rparr> \<and> command_line_selector_validate s = Inr ()"
  by (auto simp: command_line_selector_new_def Let_def res_simps)

section \<open>The learned selector is exact\<close>

definition learned_cgroup :: "application_identity \<Rightarrow> cgroup_path option" where
  "learned_cgroup i = (case ident_cgroups i of [c] \<Rightarrow> Some c | _ \<Rightarrow> None)"

lemma learned_selector_Inr:
  assumes "learned_selector i = Inr s"
  shows "s = \<lparr>sel_executable = Some (ident_executable i),
              sel_executable_file = Some (ident_executable_file i),
              sel_command_line = Some \<lparr>cls_kind = Exact, cls_arguments = ident_command_line i\<rparr>,
              sel_uid = Some (ident_uid i), sel_cgroup = learned_cgroup i,
              sel_metadata_redacted = False\<rparr>"
    and "application_selector_validate s = Inr ()"
    and "length (ident_cgroups i) \<le> 1"
  using assms
  by (auto simp: learned_selector_def res_simps command_line_selector_new_fields learned_cgroup_def
      dest!: application_selector_new_fields split: list.splits)

text \<open>When learning derives a selector from a captured identity, that
  selector is valid, is never a redacted one, and matches exactly the identities with the
  same executable path and file version, the same argument vector, the same user and, if
  the captured process had a cgroup, membership in that cgroup; in particular it matches
  the process it was captured from.\<close>

theorem learned_selector_exact:
  assumes "learned_selector i = Inr s"
  shows "application_selector_validate s = Inr ()
    \<and> application_selector_matches s i
    \<and> (\<forall>j. application_selector_matches s j \<longleftrightarrow>
          ident_executable j = ident_executable i
          \<and> ident_executable_file j = ident_executable_file i
          \<and> ident_command_line j = ident_command_line i
          \<and> ident_uid j = ident_uid i
          \<and> set (ident_cgroups i) \<subseteq> set (ident_cgroups j))"
proof -
  note sel = learned_selector_Inr [OF assms]
  have cg: "is_none_or (learned_cgroup i) (\<lambda>e. list_ex (\<lambda>a. a = e) (ident_cgroups j))
      \<longleftrightarrow> set (ident_cgroups i) \<subseteq> set (ident_cgroups j)" for j
    using sel(3) by (cases "ident_cgroups i") (auto simp: learned_cgroup_def list_ex_iff)
  have "application_selector_matches s j \<longleftrightarrow>
          ident_executable j = ident_executable i
          \<and> ident_executable_file j = ident_executable_file i
          \<and> ident_command_line j = ident_command_line i
          \<and> ident_uid j = ident_uid i
          \<and> set (ident_cgroups i) \<subseteq> set (ident_cgroups j)" for j
    unfolding sel(1) application_selector_matches_def
    by (auto simp: command_line_selector_matches_def cg)
  with sel(2) show ?thesis by simp
qed

definition sample_file :: executable_file_id where
  "sample_file = \<lparr>efi_device = 8, efi_inode = 9, efi_size = 10,
     efi_ctime_seconds = 1700000000, efi_ctime_nanoseconds = 123456789\<rparr>"

definition sample_identity :: application_identity where
  "sample_identity = \<lparr>ident_pid = 42, ident_process_start_time_ticks = 7,
     ident_executable = ApplicationPath (ascii ''/usr/bin/curl''),
     ident_executable_file = sample_file,
     ident_command_line = [CommandArgument (ascii ''curl''), CommandArgument (ascii ''-s'')],
     ident_uid = 1000, ident_cgroups = [CgroupPath (ascii ''/user.slice'')]\<rparr>"

lemma sample_identity_learned: "is_ok (learned_selector sample_identity)"
  by (simp add: learned_selector_def application_identity_validate_def sample_identity_def
      sample_file_def executable_file_id_validate_def application_limits
      command_line_selector_new_def command_line_selector_validate_def command_bytes_def
      application_selector_new_def application_selector_validate_def ascii_def
      checked_add_usize_def utf8_encode_def)

theorem learned_selector_exact_witness:
  "\<exists>s. learned_selector sample_identity = Inr s
     \<and> application_selector_matches s sample_identity
     \<and> \<not> application_selector_matches s (sample_identity\<lparr>ident_uid := 0\<rparr>)"
proof -
  obtain s where s: "learned_selector sample_identity = Inr s"
    using sample_identity_learned by (auto simp: is_ok_iff)
  show ?thesis
    using s learned_selector_exact [OF s] by (auto simp: sample_identity_def)
qed

end
