(* ===== verification/Model.thy ===== *)
theory Model
  imports Application
begin

text \<open>
  The typed policy model of \<open>src/crates/openshield-core/src/model.rs\<close>: modes,
  rules and their validation, learned endpoints, redaction for observers, and the
  learned application endpoint of \<open>application.rs\<close>. Network addresses, their
  textual form (\<open>impl Display for IpAddr\<close> of the standard library) and
  identifiers are here too. \<open>Uuid\<close> is its 128-bit big-endian number and
  \<open>DateTime<Utc>\<close> a point on a linear time scale; an \<open>IpNet\<close> is its family, address
  and prefix length. The conversion \<open>IpNet::from(IpAddr)\<close> belongs to the \<open>ipnet\<close>
  crate and is a parameter of every definition that calls it.
\<close>

section \<open>Data\<close>

definition MAX_RULE_NAME_BYTES :: nat where "MAX_RULE_NAME_BYTES = 128"
definition MAX_INTERFACE_NAME_BYTES :: nat where "MAX_INTERFACE_NAME_BYTES = 15"
definition REDACTED_APPLICATION_RULE_NAME :: ustring where
  "REDACTED_APPLICATION_RULE_NAME = ascii ''application rule (redacted)''"

datatype mode = BlockAll | Learning | Enforcing
datatype enforcement_strategy = Strict | Fast
datatype direction = Inbound | Outbound
datatype transport_protocol = Any | Tcp | Udp | Icmp | IcmpV6
datatype rule_origin = Manual | Learned | Template
datatype rule_action = Accept | Drop | Reject

datatype rule_name = RuleName (name_str: ustring)
datatype interface_name = InterfaceName (interface_str: ustring)

record port_range =
  pr_start :: u16
  pr_end :: u16

type_synonym uuid = "128 word"
type_synonym timestamp = int

datatype ip_addr = IpV4 "32 word" | IpV6 "128 word"
datatype ip_net = NetV4 "32 word" nat | NetV6 "128 word" nat

record rule_spec =
  spec_name :: rule_name
  spec_direction :: direction
  spec_action :: rule_action
  spec_protocol :: transport_protocol
  spec_peer_network :: "ip_net option"
  spec_port :: "port_range option"
  spec_interface :: "interface_name option"
  spec_application :: "application_selector option"
  spec_origin :: rule_origin
  spec_enabled :: bool

record rule =
  rule_id :: uuid
  rule_spec :: rule_spec
  rule_created_at :: timestamp
  rule_updated_at :: timestamp

record learned_endpoint =
  le_address :: ip_addr
  le_protocol :: transport_protocol
  le_port :: "port_range option"
  le_interface :: "interface_name option"

record learned_application_endpoint =
  lae_endpoint :: learned_endpoint
  lae_application :: application_selector

record counter_value =
  cv_packets :: u64
  cv_bytes :: u64

record firewall_counters =
  fc_accepted_in :: counter_value
  fc_accepted_out :: counter_value
  fc_dropped_in :: counter_value
  fc_dropped_out :: counter_value
  fc_learned_out :: counter_value

datatype validation_error =
    EmptyRuleName
  | RuleNameTooLong nat nat
  | InvalidRuleName
  | InvalidInterfaceName
  | InvalidPortRange u16 u16
  | PortWithIncompatibleProtocol
  | ProtocolNetworkFamilyMismatch
  | UnrestrictedRule
  | ApplicationSelectorOnInboundRule
  | DenyActionOnInboundRule
  | InvalidApplicationSelector application_validation_error
  | NilRuleId
  | InvalidRuleTimestamps
  | LearnedTransportNeedsPort
  | LearnedEndpointNeedsInterface
  | UnsupportedLearnedProtocol

section \<open>Text of protocols and addresses\<close>

fun display_protocol :: "transport_protocol \<Rightarrow> ustring" where
  "display_protocol Any = ascii ''any''"
| "display_protocol Tcp = ascii ''tcp''"
| "display_protocol Udp = ascii ''udp''"
| "display_protocol Icmp = ascii ''icmp''"
| "display_protocol IcmpV6 = ascii ''icmpv6''"

fun str_join :: "ustring \<Rightarrow> ustring list \<Rightarrow> ustring" where
  "str_join sep [] = []"
| "str_join sep [x] = x"
| "str_join sep (x # y # ys) = x @ sep @ str_join sep (y # ys)"

definition ipv4_octets :: "32 word \<Rightarrow> nat list" where
  "ipv4_octets a = map (\<lambda>i. unat (take_bit 8 (drop_bit (8 * i) a))) [3, 2, 1, 0]"

definition ipv6_segments :: "128 word \<Rightarrow> nat list" where
  "ipv6_segments a = map (\<lambda>i. unat (take_bit 16 (drop_bit (16 * i) a))) [7, 6, 5, 4, 3, 2, 1, 0]"

definition display_ipv4 :: "32 word \<Rightarrow> ustring" where
  "display_ipv4 a = str_join (ascii ''.'') (map dec_string (ipv4_octets a))"

text \<open>The first longest run of zero segments: \<open>zero_span i cur best segs\<close> scans with the
  current and the longest run as (start, length) pairs.\<close>

fun zero_span :: "nat \<Rightarrow> nat \<times> nat \<Rightarrow> nat \<times> nat \<Rightarrow> nat list \<Rightarrow> nat \<times> nat" where
  "zero_span i cur best [] = best"
| "zero_span i cur best (x # xs) =
     (if x = 0 then
        let cur' = ((if snd cur = 0 then i else fst cur), snd cur + 1)
        in zero_span (i + 1) cur' (if snd best < snd cur' then cur' else best) xs
      else zero_span (i + 1) (0, 0) best xs)"

definition display_ipv6 :: "128 word \<Rightarrow> ustring" where
  "display_ipv6 a =
     (if drop_bit 32 a = 0xFFFF
      then ascii ''::ffff:'' @ display_ipv4 (ucast a)
      else
        let segs = ipv6_segments a; z = zero_span 0 (0, 0) (0, 0) segs;
            fmt_subslice = (\<lambda>xs. str_join (ascii '':'') (map hex_string xs))
        in if 1 < snd z
           then fmt_subslice (take (fst z) segs) @ ascii ''::''
                @ fmt_subslice (drop (fst z + snd z) segs)
           else fmt_subslice segs)"

fun display_ip :: "ip_addr \<Rightarrow> ustring" where
  "display_ip (IpV4 a) = display_ipv4 a"
| "display_ip (IpV6 a) = display_ipv6 a"

section \<open>Validated newtypes\<close>

definition is_unsafe_rule_name_character :: "uchar \<Rightarrow> bool" where
  "is_unsafe_rule_name_character c \<longleftrightarrow>
     char_is_control c \<or> char_is_whitespace c \<and> c \<noteq> 0x20 \<or> is_format_character c"

definition rule_name_new :: "ustring \<Rightarrow> validation_error + rule_name" where
  "rule_name_new s =
     bindE (fail_if (s = []) EmptyRuleName)
    (\<lambda>_. bindE (fail_if (MAX_RULE_NAME_BYTES < str_len s)
                 (RuleNameTooLong (str_len s) MAX_RULE_NAME_BYTES))
    (\<lambda>_. bindE (fail_if (str_trim s \<noteq> s \<or> list_ex is_unsafe_rule_name_character s)
                 InvalidRuleName)
    (\<lambda>_. Inr (RuleName s))))"

definition interface_byte :: "nat \<Rightarrow> bool" where
  "interface_byte b \<longleftrightarrow> byte_is_ascii_alphanumeric b \<or> b = 0x5F \<or> b = 0x2D \<or> b = 0x2E"

definition interface_name_new :: "ustring \<Rightarrow> validation_error + interface_name" where
  "interface_name_new s =
     bindE (fail_if (s = [] \<or> MAX_INTERFACE_NAME_BYTES < str_len s) InvalidInterfaceName)
    (\<lambda>_. bindE (fail_if (\<not> list_all interface_byte (str_bytes s)) InvalidInterfaceName)
    (\<lambda>_. Inr (InterfaceName s)))"

definition port_range_new :: "u16 \<Rightarrow> u16 \<Rightarrow> validation_error + port_range" where
  "port_range_new start end =
     bindE (fail_if (start = 0 \<or> end = 0 \<or> end < start) (InvalidPortRange start end))
    (\<lambda>_. Inr \<lparr>pr_start = start, pr_end = end\<rparr>)"

definition port_range_single :: "u16 \<Rightarrow> validation_error + port_range" where
  "port_range_single port = port_range_new port port"

section \<open>Rule specifications\<close>

definition rule_spec_validate :: "rule_spec \<Rightarrow> validation_error + unit" where
  "rule_spec_validate s =
     bindE (fail_if (spec_direction s = Inbound \<and> spec_action s \<noteq> Accept)
              DenyActionOnInboundRule)
    (\<lambda>_. bindE (fail_if (spec_protocol s = Any \<and> spec_peer_network s = None
                         \<and> spec_port s = None \<and> spec_interface s = None
                         \<and> spec_application s = None) UnrestrictedRule)
    (\<lambda>_. bindE (fail_if (spec_port s \<noteq> None
                         \<and> \<not> (spec_protocol s = Tcp \<or> spec_protocol s = Udp))
                 PortWithIncompatibleProtocol)
    (\<lambda>_. bindE (case (spec_protocol s, spec_peer_network s) of
                   (Icmp, Some (NetV6 _ _)) \<Rightarrow> Inl ProtocolNetworkFamilyMismatch
                 | (IcmpV6, Some (NetV4 _ _)) \<Rightarrow> Inl ProtocolNetworkFamilyMismatch
                 | _ \<Rightarrow> Inr ())
    (\<lambda>_. bindE (fail_if (spec_direction s = Inbound \<and> spec_application s \<noteq> None)
                 ApplicationSelectorOnInboundRule)
    (\<lambda>_. case spec_application s of
            None \<Rightarrow> Inr ()
          | Some application \<Rightarrow>
              map_err InvalidApplicationSelector (application_selector_validate application))))))"

definition rule_spec_new ::
    "rule_name \<Rightarrow> direction \<Rightarrow> transport_protocol \<Rightarrow> ip_net option \<Rightarrow> port_range option
     \<Rightarrow> interface_name option \<Rightarrow> rule_origin \<Rightarrow> bool \<Rightarrow> validation_error + rule_spec" where
  "rule_spec_new nm dir proto net port ifc origin en =
     (let spec = \<lparr>spec_name = nm, spec_direction = dir, spec_action = Accept,
            spec_protocol = proto, spec_peer_network = net, spec_port = port,
            spec_interface = ifc, spec_application = None, spec_origin = origin,
            spec_enabled = en\<rparr>
      in bindE (rule_spec_validate spec) (\<lambda>_. Inr spec))"

section \<open>Rules\<close>

definition rule_with_id_and_time ::
    "uuid \<Rightarrow> rule_spec \<Rightarrow> timestamp \<Rightarrow> validation_error + rule" where
  "rule_with_id_and_time rid spec now =
     bindE (rule_spec_validate spec)
    (\<lambda>_. bindE (fail_if (rid = 0) NilRuleId)
    (\<lambda>_. Inr \<lparr>rule_id = rid, rule_spec = spec, rule_created_at = now, rule_updated_at = now\<rparr>))"

definition rule_validate :: "rule \<Rightarrow> validation_error + unit" where
  "rule_validate r =
     bindE (fail_if (rule_id r = 0) NilRuleId)
    (\<lambda>_. bindE (fail_if (rule_updated_at r < rule_created_at r) InvalidRuleTimestamps)
    (\<lambda>_. rule_spec_validate (rule_spec r)))"

definition rule_redacted_for_observer :: "rule \<Rightarrow> rule" where
  "rule_redacted_for_observer r =
     (if spec_application (rule_spec r) \<noteq> None
      then r\<lparr>rule_spec := (rule_spec r)
               \<lparr>spec_name := RuleName REDACTED_APPLICATION_RULE_NAME,
                spec_application := Some application_selector_redacted\<rparr>\<rparr>
      else r)"

section \<open>Learned endpoints\<close>

definition learned_endpoint_validate :: "learned_endpoint \<Rightarrow> validation_error + unit" where
  "learned_endpoint_validate e =
     bindE (fail_if (le_interface e = None) LearnedEndpointNeedsInterface)
    (\<lambda>_. case (le_protocol e, le_address e) of
            (Tcp, _) \<Rightarrow> fail_if (le_port e = None) LearnedTransportNeedsPort
          | (Udp, _) \<Rightarrow> fail_if (le_port e = None) LearnedTransportNeedsPort
          | (Icmp, IpV6 _) \<Rightarrow> Inl ProtocolNetworkFamilyMismatch
          | (IcmpV6, IpV4 _) \<Rightarrow> Inl ProtocolNetworkFamilyMismatch
          | (Any, _) \<Rightarrow> Inl UnsupportedLearnedProtocol
          | _ \<Rightarrow> Inr ())"

definition learned_application_endpoint_validate ::
    "learned_application_endpoint \<Rightarrow> application_validation_error + unit" where
  "learned_application_endpoint_validate e =
     bindE (map_err (\<lambda>_. InvalidLearnedEndpoint) (learned_endpoint_validate (lae_endpoint e)))
    (\<lambda>_. bindE (application_selector_validate (lae_application e))
    (\<lambda>_. fail_if (sel_uid (lae_application e) = None
                  \<or> sel_executable_file (lae_application e) = None)
            IncompleteLearnedApplicationIdentity))"

section \<open>Facts about names and text\<close>

lemma interface_byte_ascii: "interface_byte b \<Longrightarrow> b < 0x80"
  by (auto simp: interface_byte_def byte_is_ascii_alphanumeric_def)

lemma interface_name_new_iff:
  "interface_name_new s = Inr i \<longleftrightarrow>
     i = InterfaceName s \<and> s \<noteq> [] \<and> length s \<le> MAX_INTERFACE_NAME_BYTES
     \<and> list_all interface_byte s"
proof -
  have "list_all interface_byte (str_bytes s) \<longleftrightarrow> list_all interface_byte s"
  proof
    assume "list_all interface_byte (str_bytes s)"
    then show "list_all interface_byte s"
      using all_bytes_ascii [of s interface_byte] interface_byte_ascii by (simp add: list_all_iff)
  next
    assume "list_all interface_byte s"
    moreover then have "str_bytes s = s"
      using interface_byte_ascii by (intro str_bytes_ascii) (auto simp: list_all_iff)
    ultimately show "list_all interface_byte (str_bytes s)" by simp
  qed
  moreover have "str_len s = length s" if "list_all interface_byte s"
    using that interface_byte_ascii by (intro str_len_ascii) (auto simp: list_all_iff)
  ultimately show ?thesis
    by (auto simp: interface_name_new_def res_simps)
qed

lemma printable_rule_name:
  assumes "s \<noteq> []" "list_all (\<lambda>c. 0x20 \<le> c \<and> c \<le> 0x7E) s" "length s \<le> MAX_RULE_NAME_BYTES"
    and "hd s \<noteq> 0x20" "last s \<noteq> 0x20"
  shows "rule_name_new s = Inr (RuleName s)"
proof -
  have safe: "\<not> is_unsafe_rule_name_character c" if "c \<in> set s" for c
    using that assms(2)
    by (auto simp: list_all_iff is_unsafe_rule_name_character_def char_is_control_def
        char_is_whitespace_def is_format_character_def)
  have nows: "\<not> char_is_whitespace c" if "c \<in> set s" "c \<noteq> 0x20" for c
    using that assms(2) by (auto simp: list_all_iff char_is_whitespace_def)
  have "str_trim s = s"
    using assms nows by (intro str_trim_id) auto
  moreover have "str_len s = length s"
    using assms(2) by (intro str_len_ascii) (fastforce simp: list_all_iff)
  moreover have "\<not> list_ex is_unsafe_rule_name_character s"
    using safe by (auto simp: list_ex_iff)
  ultimately show ?thesis using assms(1,3) by (simp add: rule_name_new_def)
qed

section \<open>The text of an address is short and printable\<close>

lemma str_join_printable:
  assumes "\<forall>x\<in>set xs. list_all P x" "list_all P sep"
  shows "list_all P (str_join sep xs)"
  using assms by (induction sep xs rule: str_join.induct) auto

lemma str_join_length:
  assumes "\<forall>x\<in>set xs. length x \<le> k"
  shows "length (str_join sep xs) \<le> (k + length sep) * length xs"
  using assms by (induction sep xs rule: str_join.induct) auto

lemma str_join_nonempty: "xs \<noteq> [] \<Longrightarrow> \<forall>x\<in>set xs. x \<noteq> [] \<Longrightarrow> str_join sep xs \<noteq> []"
  by (induction sep xs rule: str_join.induct) auto

lemma ipv4_octets_bound: "\<forall>x\<in>set (ipv4_octets a). x < 256"
  using unat_take_bit_less [where n = 8 and 'a = 32] by (auto simp: ipv4_octets_def)

lemma ipv6_segments_bound: "\<forall>x\<in>set (ipv6_segments a). x < 65536"
  using unat_take_bit_less [where n = 16 and 'a = 128] by (auto simp: ipv6_segments_def)

abbreviation visible :: "uchar \<Rightarrow> bool" where
  "visible c \<equiv> 0x21 \<le> c \<and> c \<le> 0x7E"

lemma dec_string_visible: "list_all visible (dec_string n)"
  using dec_string_ascii_digits [of n] by (fastforce simp: list_all_iff)

lemma hex_string_visible: "list_all visible (hex_string n)"
  using hex_string_digits [of n] by (fastforce simp: list_all_iff)

lemma display_ipv4_text:
  "display_ipv4 a \<noteq> []" "list_all visible (display_ipv4 a)" "length (display_ipv4 a) \<le> 16"
proof -
  have len: "\<forall>x\<in>set (map dec_string (ipv4_octets a)). length x \<le> 3"
  proof
    fix x assume "x \<in> set (map dec_string (ipv4_octets a))"
    then obtain n where "n < 256" "x = dec_string n" using ipv4_octets_bound [of a] by auto
    then show "length x \<le> 3" using length_dec_string [of n 3] by simp
  qed
  have n4: "length (ipv4_octets a) = 4" by (simp add: ipv4_octets_def)
  show "display_ipv4 a \<noteq> []" unfolding display_ipv4_def
    using n4 by (intro str_join_nonempty) auto
  show "list_all visible (display_ipv4 a)" unfolding display_ipv4_def
    by (intro str_join_printable) (auto simp: dec_string_visible ascii_def)
  show "length (display_ipv4 a) \<le> 16" unfolding display_ipv4_def
    using str_join_length [OF len, of "ascii ''.''"] n4 by (simp add: ascii_def)
qed

lemma join_segments_text:
  assumes "\<forall>x\<in>set xs. x < 65536"
  shows "list_all visible (str_join (ascii '':'') (map hex_string xs))"
    and "length (str_join (ascii '':'') (map hex_string xs)) \<le> 5 * length xs"
proof -
  have len: "\<forall>x\<in>set (map hex_string xs). length x \<le> 4"
    using assms length_hex_string [of _ 4] by auto
  show "list_all visible (str_join (ascii '':'') (map hex_string xs))"
    by (intro str_join_printable) (auto simp: hex_string_visible ascii_def)
  show "length (str_join (ascii '':'') (map hex_string xs)) \<le> 5 * length xs"
    using str_join_length [OF len, of "ascii '':''"] by (simp add: ascii_def)
qed

lemma display_ipv6_text:
  "display_ipv6 a \<noteq> []" "list_all visible (display_ipv6 a)" "length (display_ipv6 a) \<le> 42"
proof -
  let ?segs = "ipv6_segments a" and ?z = "zero_span 0 (0, 0) (0, 0) (ipv6_segments a)"
  have n8: "length ?segs = 8" by (simp add: ipv6_segments_def)
  have bound: "\<forall>x\<in>set (take k ?segs). x < 65536" "\<forall>x\<in>set (drop k ?segs). x < 65536" for k
    using ipv6_segments_bound [of a] in_set_takeD in_set_dropD by fast+
  note takes = join_segments_text [OF bound(1) [of "fst ?z"]]
  note drops = join_segments_text [OF bound(2) [of "fst ?z + snd ?z"]]
  note whole = join_segments_text [OF ipv6_segments_bound [of a]]
  have "map hex_string ?segs \<noteq> []" using n8 by auto
  then have "str_join (ascii '':'') (map hex_string ?segs) \<noteq> []"
    by (rule str_join_nonempty) auto
  then show "display_ipv6 a \<noteq> []"
    by (auto simp: display_ipv6_def ascii_def Let_def)
  show "list_all visible (display_ipv6 a)"
    using takes(1) drops(1) whole(1) display_ipv4_text(2)
    by (auto simp: display_ipv6_def ascii_def Let_def)
  have lens: "length (take (fst ?z) ?segs) + length (drop (fst ?z + snd ?z) ?segs) \<le> 8"
    using n8 by simp
  show "length (display_ipv6 a) \<le> 42"
    using takes(2) drops(2) whole(2) lens n8 display_ipv4_text(3) [of "ucast a"]
    by (auto simp: display_ipv6_def ascii_def Let_def)
qed

lemma display_ip_text:
  "display_ip a \<noteq> []" "list_all visible (display_ip a)" "length (display_ip a) \<le> 42"
  using display_ipv4_text display_ipv6_text le_trans [OF display_ipv4_text(3), of 42]
  by (cases a; simp)+

section \<open>What validation guarantees\<close>

lemma rule_with_id_and_time_Inr:
  "rule_with_id_and_time i s now = Inr r \<longleftrightarrow>
     rule_spec_validate s = Inr () \<and> i \<noteq> 0
     \<and> r = \<lparr>rule_id = i, rule_spec = s, rule_created_at = now, rule_updated_at = now\<rparr>"
  by (auto simp: rule_with_id_and_time_def res_simps)

lemma rule_validate_Inr:
  "rule_validate r = Inr u \<longleftrightarrow>
     rule_id r \<noteq> 0 \<and> rule_created_at r \<le> rule_updated_at r
     \<and> rule_spec_validate (rule_spec r) = Inr ()"
  by (auto simp: rule_validate_def res_simps not_less)

lemma rule_with_id_and_time_valid:
  "rule_with_id_and_time i s now = Inr r \<Longrightarrow> rule_validate r = Inr ()"
  by (auto simp: rule_with_id_and_time_Inr rule_validate_Inr)

definition redactable :: "rule_spec \<Rightarrow> rule_spec" where
  "redactable s = s\<lparr>spec_name := RuleName REDACTED_APPLICATION_RULE_NAME,
                    spec_application := Some application_selector_redacted\<rparr>"

lemma rule_spec_validate_redacted:
  assumes "rule_spec_validate s = Inr ()" "spec_application s \<noteq> None"
  shows "rule_spec_validate (redactable s) = Inr ()"
  using assms
  by (auto simp: rule_spec_validate_def redactable_def res_simps application_selector_redacted_valid
      split: transport_protocol.splits option.splits ip_net.splits)

lemma rule_redacted_for_observer_eq:
  "rule_redacted_for_observer r =
     (if spec_application (rule_spec r) = None then r
      else r\<lparr>rule_spec := redactable (rule_spec r)\<rparr>)"
  by (simp add: rule_redacted_for_observer_def redactable_def)

lemma rule_redacted_valid:
  "rule_validate r = Inr () \<Longrightarrow> rule_validate (rule_redacted_for_observer r) = Inr ()"
  by (auto simp: rule_redacted_for_observer_eq rule_validate_Inr rule_spec_validate_redacted)

lemma rule_redacted_id [simp]: "rule_id (rule_redacted_for_observer r) = rule_id r"
  by (simp add: rule_redacted_for_observer_def)

lemma rule_redacted_idem:
  "rule_redacted_for_observer (rule_redacted_for_observer r) = rule_redacted_for_observer r"
  by (simp add: rule_redacted_for_observer_def)

end
