(* ===== verification/Ordered_Map.thy ===== *)
theory Ordered_Map
  imports Prelude "HOL-Library.Multiset"
begin

text \<open>
  The interface of \<open>BTreeMap\<close> that the policy state relies on, as a locale, and
  the model of it: an association list kept strictly sorted by key, so that iteration
  is in key order. What the clients use (lookups after an insertion or a removal, sizes,
  and how many stored values satisfy a predicate) is proved once from the laws of the
  interface.
\<close>

section \<open>The interface\<close>

locale keyed_store =
  fixes wf :: "'m \<Rightarrow> bool"
    and entries :: "'m \<Rightarrow> ('k \<times> 'v) list"
    and get :: "'m \<Rightarrow> 'k \<Rightarrow> 'v option"
    and put :: "'k \<Rightarrow> 'v \<Rightarrow> 'm \<Rightarrow> 'm"
    and del :: "'k \<Rightarrow> 'm \<Rightarrow> 'm"
  assumes wf_put: "wf m \<Longrightarrow> wf (put k v m)"
    and wf_del: "wf m \<Longrightarrow> wf (del k m)"
    and distinct_keys: "wf m \<Longrightarrow> distinct (map fst (entries m))"
    and get_entries: "wf m \<Longrightarrow> get m k = map_of (entries m) k"
    and mset_put: "wf m \<Longrightarrow>
      mset (entries (put k v m)) = add_mset (k, v) (filter_mset (\<lambda>p. fst p \<noteq> k) (mset (entries m)))"
    and mset_del: "wf m \<Longrightarrow>
      mset (entries (del k m)) = filter_mset (\<lambda>p. fst p \<noteq> k) (mset (entries m))"
begin

lemma get_iff: "wf m \<Longrightarrow> get m k = Some v \<longleftrightarrow> (k, v) \<in> set (entries m)"
  by (simp add: get_entries distinct_keys)

lemma set_put: "wf m \<Longrightarrow>
    set (entries (put k v m)) = insert (k, v) {p \<in> set (entries m). fst p \<noteq> k}"
  by (metis mset_put set_mset_add_mset_insert set_mset_filter set_mset_mset)

lemma set_del: "wf m \<Longrightarrow> set (entries (del k m)) = {p \<in> set (entries m). fst p \<noteq> k}"
  by (metis mset_del set_mset_filter set_mset_mset)

lemma get_put: "wf m \<Longrightarrow> get (put k v m) j = (if j = k then Some v else get m j)"
proof -
  assume wf: "wf m"
  have "get (put k v m) j = Some w \<longleftrightarrow> (if j = k then Some v else get m j) = Some w" for w
    using wf by (auto simp: get_iff wf_put set_put)
  then show ?thesis by (metis option.exhaust)
qed

lemma get_del: "wf m \<Longrightarrow> get (del k m) j = (if j = k then None else get m j)"
proof -
  assume wf: "wf m"
  have "get (del k m) j = Some w \<longleftrightarrow> (if j = k then None else get m j) = Some w" for w
    using wf by (auto simp: get_iff wf_del set_del)
  then show ?thesis by (metis option.exhaust)
qed

lemma filter_absent:
  "wf m \<Longrightarrow> get m k = None \<Longrightarrow> filter_mset (\<lambda>p. fst p \<noteq> k) (mset (entries m)) = mset (entries m)"
  by (auto simp: get_entries map_of_eq_None_iff filter_mset_eq_conv)

lemma put_fresh: "wf m \<Longrightarrow> get m k = None \<Longrightarrow>
    mset (entries (put k v m)) = add_mset (k, v) (mset (entries m))"
  by (simp add: mset_put filter_absent)

lemma del_present:
  assumes "wf m" "get m k = Some w"
  shows "mset (entries m) = add_mset (k, w) (mset (entries (del k m)))"
proof -
  have dist: "distinct (entries m)" using distinct_keys [OF assms(1)] by (simp add: distinct_map)
  have mem: "(k, w) \<in> set (entries m)" using assms by (simp add: get_iff)
  have only: "fst p = k \<longleftrightarrow> p = (k, w)" if "p \<in> set (entries m)" for p
    using that assms(2) get_iff [OF assms(1)] by (metis fst_conv option.inject prod.collapse)
  have "filter (\<lambda>p. fst p \<noteq> k) (entries m) = filter (\<lambda>p. p \<noteq> (k, w)) (entries m)"
    using only by (intro filter_cong) auto
  also have "\<dots> = remove1 (k, w) (entries m)"
    using dist by (simp add: distinct_remove1_removeAll removeAll_filter_not_eq eq_commute)
  finally have "mset (entries (del k m)) = mset (entries m) - {#(k, w)#}"
    using assms by (simp add: mset_del flip: mset_filter)
  then show ?thesis using mem by simp
qed

lemma put_existing:
  assumes "wf m" "get m k = Some w"
  shows "mset (entries (put k v m)) + {#(k, w)#} = add_mset (k, v) (mset (entries m))"
  using del_present [OF assms] assms by (simp add: mset_put mset_del)

lemma size_put_fresh:
  "wf m \<Longrightarrow> get m k = None \<Longrightarrow> length (entries (put k v m)) = Suc (length (entries m))"
  by (metis put_fresh size_add_mset size_mset)

lemma size_put_existing:
  assumes "wf m" "get m k = Some w"
  shows "length (entries (put k v m)) = length (entries m)"
proof -
  have "size (mset (entries (put k v m)) + {#(k, w)#}) = size (add_mset (k, v) (mset (entries m)))"
    using put_existing [OF assms] by simp
  then show ?thesis by simp
qed

lemma size_del: "wf m \<Longrightarrow> length (entries (del k m)) \<le> length (entries m)"
  by (metis mset_del size_filter_mset_lesseq size_mset)

lemma count_put_fresh:
  assumes "wf m" "get m k = None"
  shows "length (filter P (map snd (entries (put k v m)))) =
    length (filter P (map snd (entries m))) + (if P v then 1 else 0)"
proof -
  have count: "length (filter P (map snd xs)) = size (filter_mset P (image_mset snd (mset xs)))"
    for xs :: "('k \<times> 'v) list"
    by (metis mset_filter mset_map size_mset)
  show ?thesis unfolding count put_fresh [OF assms] by simp
qed

end

section \<open>The sorted association list\<close>

type_synonym ('k, 'v) omap = "('k \<times> 'v) list"

definition omap_wf :: "('k::linorder, 'v) omap \<Rightarrow> bool" where
  "omap_wf m \<longleftrightarrow> sorted_wrt (<) (map fst m)"

definition omap_get :: "('k, 'v) omap \<Rightarrow> 'k \<Rightarrow> 'v option" where
  "omap_get m k = map_of m k"

fun omap_insert :: "'k::linorder \<Rightarrow> 'v \<Rightarrow> ('k, 'v) omap \<Rightarrow> ('k, 'v) omap" where
  "omap_insert k v [] = [(k, v)]"
| "omap_insert k v (p # ps) =
     (if fst p < k then p # omap_insert k v ps
      else (k, v) # (if fst p = k then ps else p # ps))"

definition omap_remove :: "'k \<Rightarrow> ('k, 'v) omap \<Rightarrow> ('k, 'v) omap" where
  "omap_remove k m = filter (\<lambda>p. fst p \<noteq> k) m"

definition omap_values :: "('k, 'v) omap \<Rightarrow> 'v list" where
  "omap_values m = map snd m"

text \<open>\<open>BTreeMap::range((Excluded(k), Unbounded))\<close> for \<open>Some k\<close>, the whole map for \<open>None\<close>.\<close>

definition omap_after :: "'k::linorder option \<Rightarrow> ('k, 'v) omap \<Rightarrow> ('k, 'v) omap" where
  "omap_after cursor m = (case cursor of None \<Rightarrow> m | Some k \<Rightarrow> dropWhile (\<lambda>p. fst p \<le> k) m)"

lemma omap_wf_simps [simp]:
  "omap_wf []"
  "omap_wf (p # ps) \<longleftrightarrow> (\<forall>q\<in>set ps. fst p < fst q) \<and> omap_wf ps"
  by (simp_all add: omap_wf_def)

lemma set_omap_insert_subset: "set (omap_insert k v m) \<subseteq> insert (k, v) (set m)"
  by (induction m) auto

lemma omap_wf_insert: "omap_wf m \<Longrightarrow> omap_wf (omap_insert k v m)"
proof (induction m)
  case (Cons p ps)
  then show ?case
    using set_omap_insert_subset [of k v ps] by (fastforce dest: order.strict_trans)
qed simp

lemma omap_keys_distinct: "omap_wf m \<Longrightarrow> distinct (map fst m)"
  by (simp add: omap_wf_def strict_sorted_iff)

lemma mset_omap_insert:
  "omap_wf m \<Longrightarrow>
     mset (omap_insert k v m) = add_mset (k, v) (filter_mset (\<lambda>p. fst p \<noteq> k) (mset m))"
proof (induction m)
  case (Cons p ps)
  have keep: "filter_mset (\<lambda>q. fst q \<noteq> k) (mset ps) = mset ps" if "\<not> fst p < k"
    using Cons.prems that by (fastforce simp: filter_mset_eq_conv)
  show ?case using Cons keep by auto
qed simp

interpretation btree: keyed_store omap_wf "\<lambda>m. m" omap_get omap_insert omap_remove
proof unfold_locales
  fix m :: "('a::linorder, 'b) omap" and k v
  assume "omap_wf m"
  then show "omap_wf (omap_insert k v m)" "distinct (map fst m)"
    "mset (omap_insert k v m) = add_mset (k, v) (filter_mset (\<lambda>p. fst p \<noteq> k) (mset m))"
    by (simp_all add: omap_wf_insert omap_keys_distinct mset_omap_insert)
  show "omap_wf (omap_remove k m)" using \<open>omap_wf m\<close>
    by (simp add: omap_remove_def omap_wf_def sorted_wrt_map sorted_wrt_filter)
qed (simp_all add: omap_get_def omap_remove_def)

lemma omap_insert_same: "omap_wf m \<Longrightarrow> omap_get m k = Some v \<Longrightarrow> omap_insert k v m = m"
proof (induction m)
  case (Cons p ps)
  show ?case
  proof (cases "fst p = k")
    case True
    with Cons.prems(2) show ?thesis by (cases p) (simp add: omap_get_def)
  next
    case False
    with Cons.prems(2) have tail: "omap_get ps k = Some v" by (auto simp: omap_get_def)
    then have "(k, v) \<in> set ps" by (simp add: omap_get_def map_of_SomeD)
    with Cons.prems(1) have "fst p < k" by auto
    with Cons tail show ?thesis by simp
  qed
qed (simp add: omap_get_def)

lemma omap_remove_insert:
  "omap_wf m \<Longrightarrow> omap_get m k = None \<Longrightarrow> omap_remove k (omap_insert k v m) = m"
proof (induction m)
  case (Cons p ps)
  then have "fst p \<noteq> k" "omap_get ps k = None" by (auto simp: omap_get_def split: if_splits)
  moreover then have "filter (\<lambda>q. fst q \<noteq> k) ps = ps"
    by (auto simp: omap_get_def map_of_eq_None_iff filter_id_conv)
  ultimately show ?case using Cons by (simp add: omap_remove_def)
qed (simp add: omap_remove_def)

lemma omap_values_insert: "omap_wf m \<Longrightarrow>
    set (omap_values (omap_insert k v m)) \<subseteq> insert v (set (omap_values m))"
  by (auto simp: omap_values_def btree.set_put)

lemma omap_after_filter:
  "omap_wf m \<Longrightarrow>
     omap_after cursor m = filter (\<lambda>p. is_none_or cursor (\<lambda>k. k < fst p)) m"
proof (induction m)
  case (Cons p ps)
  show ?case
  proof (cases cursor)
    case (Some k)
    have "filter (\<lambda>q. k < fst q) ps = ps" if "\<not> fst p \<le> k"
      using Cons.prems that by (fastforce simp: filter_id_conv)
    then show ?thesis using Cons Some by (auto simp: omap_after_def not_le)
  qed (simp add: omap_after_def)
qed (simp add: omap_after_def split: option.splits)

end
