(* ===== verification/Policy_State.thy ===== *)
theory Policy_State
  imports Model Ordered_Map
begin

text \<open>
  The authoritative policy state of \<open>src/crates/openshield-core/src/state.rs\<close>:
  snapshots and their validation, events, the state record, every privileged mutation of
  it, and the classification of the packet path. A mutating method returns its result
  together with the state it leaves behind, on error paths too. Identifiers and
  times that the convenience wrappers draw from \<open>Uuid::new_v4\<close> and \<open>Utc::now\<close> are
  arguments. JSON serialisation belongs to \<open>serde_json\<close>: the writes it issues for a
  state are a parameter of the size check.
\<close>

section \<open>Data\<close>

definition MAX_RULES :: nat where "MAX_RULES = 10000"
definition MAX_AUTOMATIC_LEARNED_RULES :: nat where "MAX_AUTOMATIC_LEARNED_RULES = 7500"
definition MAX_STATE_BYTES :: nat where "MAX_STATE_BYTES = 8 * 1024 * 1024"
definition MAX_FLOW_GENERATION :: u32 where "MAX_FLOW_GENERATION = 0x3FFFFFFF"

datatype core_error =
    CoreValidation validation_error
  | RuleNotFound uuid
  | DuplicateRuleId uuid
  | MismatchedRuleId uuid uuid
  | RulesLimitReached nat
  | RevisionOverflow
  | InvalidFlowGeneration
  | FlowGenerationExhausted
  | RedactedApplicationMetadata
  | InvalidObserverRedaction
  | UnpinnedApplicationIdentity
  | StateSizeLimitReached nat
  | StateSerialization ustring

datatype application_interception = InterceptNone | TcpInitial | PerPacket

record snapshot =
  sn_revision :: u64
  sn_flow_generation :: u32
  sn_mode :: mode
  sn_rules :: "rule list"

datatype event_kind =
    ModeChanged mode mode
  | RuleCreated rule
  | RuleUpdated rule
  | RuleDeleted rule
  | RuleEnabledChanged rule
  | CountersUpdated firewall_counters

record event =
  ev_revision :: u64
  ev_occurred_at :: timestamp
  ev_kind :: event_kind

record state =
  st_revision :: u64
  st_flow_generation :: u32
  st_mode :: mode
  st_enforcement_strategy :: enforcement_strategy
  st_rules :: "(uuid, rule) omap"

section \<open>Checks on rule specifications\<close>

definition reject_redacted_spec :: "rule_spec \<Rightarrow> core_error + unit" where
  "reject_redacted_spec s =
     fail_if (is_some_and (spec_application s) sel_metadata_redacted) RedactedApplicationMetadata"

definition reject_redacted_rule :: "rule \<Rightarrow> core_error + unit" where
  "reject_redacted_rule r = reject_redacted_spec (rule_spec r)"

definition is_unpinned_application_template :: "rule_spec \<Rightarrow> bool" where
  "is_unpinned_application_template s =
     (case spec_application s of
        None \<Rightarrow> False
      | Some sel \<Rightarrow>
          spec_origin s = Template \<and> \<not> spec_enabled s \<and> spec_action s = Accept
          \<and> spec_direction s = Outbound \<and> spec_protocol s = Any
          \<and> spec_peer_network s = None \<and> spec_port s = None \<and> spec_interface s = None
          \<and> sel_executable sel \<noteq> None \<and> sel_executable_file sel = None
          \<and> sel_command_line sel = None \<and> sel_uid sel = None
          \<and> \<not> sel_metadata_redacted sel)"

definition reject_unpinned_application_spec :: "rule_spec \<Rightarrow> core_error + unit" where
  "reject_unpinned_application_spec s =
     fail_if (is_some_and (spec_application s) (\<lambda>sel. sel_executable_file sel = None)
              \<and> \<not> is_unpinned_application_template s) UnpinnedApplicationIdentity"

definition clear_disabled_template_pin_if_skeleton :: "rule_spec \<Rightarrow> rule_spec" where
  "clear_disabled_template_pin_if_skeleton s =
     (if spec_origin s \<noteq> Template \<or> spec_enabled s \<or> spec_action s \<noteq> Accept
         \<or> spec_direction s \<noteq> Outbound \<or> spec_protocol s \<noteq> Any
         \<or> spec_peer_network s \<noteq> None \<or> spec_port s \<noteq> None \<or> spec_interface s \<noteq> None
      then s
      else
        (case spec_application s of
           None \<Rightarrow> s
         | Some sel \<Rightarrow>
             if sel_executable sel \<noteq> None \<and> sel_command_line sel = None
                \<and> sel_uid sel = None \<and> \<not> sel_metadata_redacted sel
             then s\<lparr>spec_application := Some (sel\<lparr>sel_executable_file := None\<rparr>)\<rparr>
             else s))"

section \<open>Packet path classification\<close>

fun classify_enforcing ::
    "application_interception \<Rightarrow> rule list \<Rightarrow> application_interception" where
  "classify_enforcing interception [] = interception"
| "classify_enforcing interception (r # rs) =
     (if \<not> spec_enabled (rule_spec r) \<or> spec_direction (rule_spec r) \<noteq> Outbound
         \<or> spec_application (rule_spec r) = None
      then classify_enforcing interception rs
      else
        (case spec_protocol (rule_spec r) of
           Tcp \<Rightarrow> classify_enforcing TcpInitial rs
         | _ \<Rightarrow> PerPacket))"

definition classify_application_interception ::
    "mode \<Rightarrow> rule list \<Rightarrow> application_interception" where
  "classify_application_interception m rules =
     (case m of
        BlockAll \<Rightarrow> InterceptNone
      | Learning \<Rightarrow> PerPacket
      | Enforcing \<Rightarrow> classify_enforcing InterceptNone rules)"

section \<open>Snapshots\<close>

definition flow_generation_in_domain :: "u32 \<Rightarrow> bool" where
  "flow_generation_in_domain g \<longleftrightarrow> 1 \<le> g \<and> g \<le> MAX_FLOW_GENERATION"

fun snapshot_validate_rules :: "uuid set \<Rightarrow> rule list \<Rightarrow> core_error + unit" where
  "snapshot_validate_rules ids [] = Inr ()"
| "snapshot_validate_rules ids (r # rs) =
     bindE (map_err CoreValidation (rule_validate r))
    (\<lambda>_. bindE (reject_redacted_rule r)
    (\<lambda>_. bindE (reject_unpinned_application_spec (rule_spec r))
    (\<lambda>_. bindE (fail_if (rule_id r \<in> ids) (DuplicateRuleId (rule_id r)))
    (\<lambda>_. snapshot_validate_rules (insert (rule_id r) ids) rs))))"

definition snapshot_validate :: "snapshot \<Rightarrow> core_error + unit" where
  "snapshot_validate s =
     bindE (fail_if (MAX_RULES < length (sn_rules s)) (RulesLimitReached MAX_RULES))
    (\<lambda>_. bindE (fail_if (\<not> flow_generation_in_domain (sn_flow_generation s)) InvalidFlowGeneration)
    (\<lambda>_. snapshot_validate_rules {} (sn_rules s)))"

definition observer_check_selector ::
    "bool option \<Rightarrow> rule \<Rightarrow> core_error + bool option" where
  "observer_check_selector redaction_state r =
     (case spec_application (rule_spec r) of
        None \<Rightarrow> Inr redaction_state
      | Some selector \<Rightarrow>
          (let redacted = sel_metadata_redacted selector in
           bindE (fail_if (redacted
                     \<and> name_str (spec_name (rule_spec r)) \<noteq> REDACTED_APPLICATION_RULE_NAME)
                    InvalidObserverRedaction)
          (\<lambda>_. bindE (if \<not> redacted then reject_unpinned_application_spec (rule_spec r) else Inr ())
          (\<lambda>_. bindE (fail_if (is_some_and redaction_state (\<lambda>previous. previous \<noteq> redacted))
                       InvalidObserverRedaction)
          (\<lambda>_. Inr (Some redacted))))))"

fun observer_validate_rules ::
    "uuid set \<Rightarrow> bool option \<Rightarrow> rule list \<Rightarrow> core_error + unit" where
  "observer_validate_rules ids redaction_state [] = Inr ()"
| "observer_validate_rules ids redaction_state (r # rs) =
     bindE (map_err CoreValidation (rule_validate r))
    (\<lambda>_. bindE (observer_check_selector redaction_state r)
    (\<lambda>redaction_state'. bindE (fail_if (rule_id r \<in> ids) (DuplicateRuleId (rule_id r)))
    (\<lambda>_. observer_validate_rules (insert (rule_id r) ids) redaction_state' rs)))"

definition snapshot_validate_for_observer :: "snapshot \<Rightarrow> core_error + unit" where
  "snapshot_validate_for_observer s =
     bindE (fail_if (MAX_RULES < length (sn_rules s)) (RulesLimitReached MAX_RULES))
    (\<lambda>_. bindE (fail_if (\<not> flow_generation_in_domain (sn_flow_generation s)) InvalidFlowGeneration)
    (\<lambda>_. observer_validate_rules {} None (sn_rules s)))"

definition snapshot_redacted_for_observer :: "snapshot \<Rightarrow> snapshot" where
  "snapshot_redacted_for_observer s =
     \<lparr>sn_revision = sn_revision s, sn_flow_generation = sn_flow_generation s,
      sn_mode = sn_mode s, sn_rules = map rule_redacted_for_observer (sn_rules s)\<rparr>"

definition snapshot_application_interception :: "snapshot \<Rightarrow> application_interception" where
  "snapshot_application_interception s =
     classify_application_interception (sn_mode s) (sn_rules s)"

fun event_kind_redacted :: "event_kind \<Rightarrow> event_kind" where
  "event_kind_redacted (RuleCreated r) = RuleCreated (rule_redacted_for_observer r)"
| "event_kind_redacted (RuleUpdated r) = RuleUpdated (rule_redacted_for_observer r)"
| "event_kind_redacted (RuleDeleted r) = RuleDeleted (rule_redacted_for_observer r)"
| "event_kind_redacted (RuleEnabledChanged r) = RuleEnabledChanged (rule_redacted_for_observer r)"
| "event_kind_redacted other = other"

definition event_redacted_for_observer :: "event \<Rightarrow> event" where
  "event_redacted_for_observer e =
     \<lparr>ev_revision = ev_revision e, ev_occurred_at = ev_occurred_at e,
      ev_kind = event_kind_redacted (ev_kind e)\<rparr>"

section \<open>Serialised size\<close>

record size_counter =
  sc_bytes :: nat
  sc_exceeded :: bool

text \<open>\<open>impl Write for SizeCounter\<close>: the flag says whether the write succeeded.\<close>

definition size_counter_write :: "nat \<Rightarrow> size_counter \<Rightarrow> bool \<times> size_counter" where
  "size_counter_write n c =
     (case checked_add_usize (sc_bytes c) n of
        None \<Rightarrow> (False, c\<lparr>sc_exceeded := True\<rparr>)
      | Some new_total \<Rightarrow>
          if MAX_STATE_BYTES < new_total then (False, c\<lparr>sc_exceeded := True\<rparr>)
          else (True, c\<lparr>sc_bytes := new_total\<rparr>))"

text \<open>\<open>serde_json::to_writer\<close> stops at the first failing write; otherwise it returns the
  serialiser's own outcome.\<close>

fun write_chunks :: "nat list \<Rightarrow> size_counter \<Rightarrow> bool \<times> size_counter" where
  "write_chunks [] c = (True, c)"
| "write_chunks (n # ns) c =
     (case size_counter_write n c of
        (True, c') \<Rightarrow> write_chunks ns c'
      | (False, c') \<Rightarrow> (False, c'))"

record 's json =
  json_state_writes :: "'s \<Rightarrow> nat list \<times> ustring option"
  json_rule_len :: "rule \<Rightarrow> ustring + nat"

definition bounded_serialized_state_size :: "state json \<Rightarrow> state \<Rightarrow> core_error + nat" where
  "bounded_serialized_state_size json s =
     (let (writes, failure) = json_state_writes json s;
          (written, counter) = write_chunks writes \<lparr>sc_bytes = 0, sc_exceeded = False\<rparr>
      in if written \<and> failure = None then Inr (sc_bytes counter)
         else if sc_exceeded counter then Inl (StateSizeLimitReached MAX_STATE_BYTES)
         else Inl (StateSerialization (case failure of None \<Rightarrow> [] | Some e \<Rightarrow> e)))"

section \<open>The state and its accessors\<close>

definition initial_flow_generation :: u32 where "initial_flow_generation = 1"

definition state_new :: state where
  "state_new = \<lparr>st_revision = 0, st_flow_generation = initial_flow_generation,
     st_mode = BlockAll, st_enforcement_strategy = Strict, st_rules = []\<rparr>"

definition state_validate_entry :: "uuid \<times> rule \<Rightarrow> core_error + unit" where
  "state_validate_entry p =
     bindE (fail_if (fst p \<noteq> rule_id (snd p)) (MismatchedRuleId (fst p) (rule_id (snd p))))
    (\<lambda>_. bindE (map_err CoreValidation (rule_validate (snd p)))
    (\<lambda>_. bindE (reject_redacted_rule (snd p))
    (\<lambda>_. reject_unpinned_application_spec (rule_spec (snd p)))))"

definition state_validate :: "state json \<Rightarrow> state \<Rightarrow> core_error + unit" where
  "state_validate json s =
     bindE (fail_if (MAX_RULES < length (st_rules s)) (RulesLimitReached MAX_RULES))
    (\<lambda>_. bindE (fail_if (\<not> flow_generation_in_domain (st_flow_generation s)) InvalidFlowGeneration)
    (\<lambda>_. bindE (for_each_ok state_validate_entry (st_rules s))
    (\<lambda>_. bindE (bounded_serialized_state_size json s) (\<lambda>_. Inr ()))))"

definition state_snapshot :: "state \<Rightarrow> snapshot" where
  "state_snapshot s = \<lparr>sn_revision = st_revision s, sn_flow_generation = st_flow_generation s,
     sn_mode = st_mode s, sn_rules = omap_values (st_rules s)\<rparr>"

definition collect_rules :: "rule list \<Rightarrow> (uuid, rule) omap" where
  "collect_rules rules = fold (\<lambda>r m. omap_insert (rule_id r) r m) rules []"

definition state_from_snapshot :: "state json \<Rightarrow> snapshot \<Rightarrow> core_error + state" where
  "state_from_snapshot json sn =
     bindE (snapshot_validate sn)
    (\<lambda>_. let s = \<lparr>st_revision = sn_revision sn, st_flow_generation = sn_flow_generation sn,
                  st_mode = sn_mode sn, st_enforcement_strategy = Strict,
                  st_rules = collect_rules (sn_rules sn)\<rparr>
          in bindE (state_validate json s) (\<lambda>_. Inr s))"

definition rules_after :: "state \<Rightarrow> uuid option \<Rightarrow> rule list" where
  "rules_after s cursor = map snd (omap_after cursor (st_rules s))"

definition state_rule :: "state \<Rightarrow> uuid \<Rightarrow> rule option" where
  "state_rule s i = omap_get (st_rules s) i"

definition state_application_interception :: "state \<Rightarrow> application_interception" where
  "state_application_interception s =
     classify_application_interception (st_mode s) (omap_values (st_rules s))"

definition counters_event :: "state \<Rightarrow> firewall_counters \<Rightarrow> timestamp \<Rightarrow> event" where
  "counters_event s counters now =
     \<lparr>ev_revision = st_revision s, ev_occurred_at = now, ev_kind = CountersUpdated counters\<rparr>"

section \<open>Mutations\<close>

definition next_revision :: "state \<Rightarrow> core_error + u64" where
  "next_revision s =
     (if st_revision s = - 1 then Inl RevisionOverflow else Inr (st_revision s + 1))"

definition next_flow_generation :: "state \<Rightarrow> core_error + u32" where
  "next_flow_generation s =
     bindE (fail_if (MAX_FLOW_GENERATION \<le> st_flow_generation s) FlowGenerationExhausted)
    (\<lambda>_. Inr (st_flow_generation s + 1))"

definition rotate_flow_generation :: "u32 \<Rightarrow> state \<Rightarrow> (core_error + unit) \<times> state" where
  "rotate_flow_generation g s =
     (if \<not> flow_generation_in_domain g \<or> g = st_flow_generation s
      then (Inl InvalidFlowGeneration, s)
      else (Inr (), s\<lparr>st_flow_generation := g\<rparr>))"

definition set_mode_with_strategy_at ::
    "mode \<Rightarrow> enforcement_strategy \<Rightarrow> timestamp \<Rightarrow> state \<Rightarrow> (core_error + event) \<times> state" where
  "set_mode_with_strategy_at m strategy now s =
     tryS (next_revision s) s (\<lambda>revision.
     tryS (case next_flow_generation s of
             Inr g \<Rightarrow> Inr g
           | Inl e \<Rightarrow> if e = FlowGenerationExhausted \<and> m = BlockAll
                      then Inr (st_flow_generation s) else Inl e) s (\<lambda>flow_generation.
     (Inr \<lparr>ev_revision = revision, ev_occurred_at = now, ev_kind = ModeChanged (st_mode s) m\<rparr>,
      s\<lparr>st_mode := m, st_enforcement_strategy := strategy,
        st_flow_generation := flow_generation, st_revision := revision\<rparr>)))"

definition set_mode_at :: "mode \<Rightarrow> timestamp \<Rightarrow> state \<Rightarrow> (core_error + event) \<times> state" where
  "set_mode_at m now s =
     set_mode_with_strategy_at m
       (if m = Enforcing then Strict else st_enforcement_strategy s) now s"

definition enforce_at ::
    "enforcement_strategy \<Rightarrow> timestamp \<Rightarrow> state \<Rightarrow> (core_error + event) \<times> state" where
  "enforce_at strategy now s = set_mode_with_strategy_at Enforcing strategy now s"

definition create_rule_at ::
    "uuid \<Rightarrow> rule_spec \<Rightarrow> timestamp \<Rightarrow> state \<Rightarrow> (core_error + rule \<times> event) \<times> state" where
  "create_rule_at rid spec now s =
     tryS (reject_redacted_spec spec) s (\<lambda>_.
     tryS (reject_unpinned_application_spec spec) s (\<lambda>_.
     tryS (fail_if (MAX_RULES \<le> length (st_rules s)) (RulesLimitReached MAX_RULES)) s (\<lambda>_.
     tryS (fail_if (omap_get (st_rules s) rid \<noteq> None) (DuplicateRuleId rid)) s (\<lambda>_.
     tryS (map_err CoreValidation (rule_with_id_and_time rid spec now)) s (\<lambda>rule.
     tryS (next_revision s) s (\<lambda>revision.
     tryS (if spec_enabled (rule_spec rule) \<and> spec_action (rule_spec rule) \<noteq> Accept
           then bindE (next_flow_generation s) (\<lambda>g. Inr (Some g)) else Inr None) s
       (\<lambda>flow_generation.
     let s1 = s\<lparr>st_rules := omap_insert rid rule (st_rules s)\<rparr>;
         s2 = (case flow_generation of None \<Rightarrow> s1 | Some g \<Rightarrow> s1\<lparr>st_flow_generation := g\<rparr>);
         s3 = s2\<lparr>st_revision := revision\<rparr>
     in (Inr (rule, \<lparr>ev_revision = revision, ev_occurred_at = now, ev_kind = RuleCreated rule\<rparr>),
         s3))))))))"

definition update_rule_at ::
    "uuid \<Rightarrow> rule_spec \<Rightarrow> timestamp \<Rightarrow> state \<Rightarrow> (core_error + rule \<times> event) \<times> state" where
  "update_rule_at rid spec0 now s =
     (let spec = clear_disabled_template_pin_if_skeleton spec0 in
     tryS (map_err CoreValidation (rule_spec_validate spec)) s (\<lambda>_.
     tryS (reject_redacted_spec spec) s (\<lambda>_.
     tryS (reject_unpinned_application_spec spec) s (\<lambda>_.
     tryS (next_revision s) s (\<lambda>revision.
     tryS (ok_or (RuleNotFound rid) (omap_get (st_rules s) rid)) s (\<lambda>current.
     tryS (next_flow_generation s) s (\<lambda>flow_generation.
     let rule = current\<lparr>rule_spec := spec,
                  rule_updated_at := max now (rule_updated_at current)\<rparr> in
     tryS (map_err CoreValidation (rule_validate rule)) s (\<lambda>_.
     (Inr (rule, \<lparr>ev_revision = revision, ev_occurred_at = now, ev_kind = RuleUpdated rule\<rparr>),
      s\<lparr>st_rules := omap_insert rid rule (st_rules s),
        st_flow_generation := flow_generation, st_revision := revision\<rparr>)))))))))"

definition delete_rule_at ::
    "uuid \<Rightarrow> timestamp \<Rightarrow> state \<Rightarrow> (core_error + rule \<times> event) \<times> state" where
  "delete_rule_at rid now s =
     tryS (next_revision s) s (\<lambda>revision.
     tryS (ok_or (RuleNotFound rid) (omap_get (st_rules s) rid)) s (\<lambda>rule.
     tryS (next_flow_generation s) s (\<lambda>flow_generation.
     (Inr (rule, \<lparr>ev_revision = revision, ev_occurred_at = now, ev_kind = RuleDeleted rule\<rparr>),
      s\<lparr>st_rules := omap_remove rid (st_rules s),
        st_flow_generation := flow_generation, st_revision := revision\<rparr>))))"

definition set_rule_enabled_at ::
    "uuid \<Rightarrow> bool \<Rightarrow> timestamp \<Rightarrow> state \<Rightarrow> (core_error + rule \<times> event) \<times> state" where
  "set_rule_enabled_at rid enabled now s =
     tryS (next_revision s) s (\<lambda>revision.
     tryS (ok_or (RuleNotFound rid) (omap_get (st_rules s) rid)) s (\<lambda>current.
     tryS (if spec_enabled (rule_spec current) \<and> \<not> enabled
              \<or> \<not> spec_enabled (rule_spec current) \<and> enabled
                \<and> spec_action (rule_spec current) \<noteq> Accept
           then bindE (next_flow_generation s) (\<lambda>g. Inr (Some g)) else Inr None) s
       (\<lambda>flow_generation.
     let spec = clear_disabled_template_pin_if_skeleton
                  ((rule_spec current)\<lparr>spec_enabled := enabled\<rparr>);
         rule = current\<lparr>rule_spec := spec,
                  rule_updated_at := max now (rule_updated_at current)\<rparr> in
     tryS (map_err CoreValidation (rule_validate rule)) s (\<lambda>_.
     tryS (reject_unpinned_application_spec (rule_spec rule)) s (\<lambda>_.
     let s1 = s\<lparr>st_rules := omap_insert rid rule (st_rules s)\<rparr>;
         s2 = (case flow_generation of None \<Rightarrow> s1 | Some g \<Rightarrow> s1\<lparr>st_flow_generation := g\<rparr>);
         s3 = s2\<lparr>st_revision := revision\<rparr>
     in (Inr (rule, \<lparr>ev_revision = revision, ev_occurred_at = now,
                       ev_kind = RuleEnabledChanged rule\<rparr>), s3))))))"

end
