(* ===== verification/Policy_Invariant.thy ===== *)
theory Policy_Invariant
  imports Policy_State
begin

text \<open>
  What the policy state guarantees: the invariant that every mutation keeps, the contract
  shared by all revisioned mutations (a failed one changes nothing, a successful one
  advances the revision by exactly one and stamps its event with it), the rotation of the
  flow generation, and the exchange of snapshots with trusted and untrusted readers.
\<close>

section \<open>The invariant\<close>

definition entry_ok :: "uuid \<times> rule \<Rightarrow> bool" where
  "entry_ok p \<longleftrightarrow> is_ok (state_validate_entry p)"

definition state_inv :: "state \<Rightarrow> bool" where
  "state_inv s \<longleftrightarrow>
     omap_wf (st_rules s) \<and> length (st_rules s) \<le> MAX_RULES
     \<and> flow_generation_in_domain (st_flow_generation s)
     \<and> list_all entry_ok (st_rules s)"

lemma entry_ok_iff:
  "entry_ok (k, r) \<longleftrightarrow>
     rule_id r = k \<and> rule_validate r = Inr ()
     \<and> reject_redacted_spec (rule_spec r) = Inr ()
     \<and> reject_unpinned_application_spec (rule_spec r) = Inr ()"
  by (auto simp: entry_ok_def is_ok_iff state_validate_entry_def reject_redacted_rule_def res_simps)

lemma state_validate_entry_ok: "state_validate_entry p = Inr u \<longleftrightarrow> entry_ok p"
  by (simp add: entry_ok_def is_ok_iff)

lemma state_validate_Inr:
  "state_validate json s = Inr u \<longleftrightarrow>
     length (st_rules s) \<le> MAX_RULES \<and> flow_generation_in_domain (st_flow_generation s)
     \<and> list_all entry_ok (st_rules s) \<and> is_ok (bounded_serialized_state_size json s)"
  by (auto simp: state_validate_def res_simps state_validate_entry_ok list_all_iff is_ok_iff)

lemma state_inv_entry:
  "state_inv s \<Longrightarrow> omap_get (st_rules s) k = Some r \<Longrightarrow> entry_ok (k, r)"
  by (auto simp: state_inv_def list_all_iff btree.get_iff)

lemma state_inv_wf [simp]: "state_inv s \<Longrightarrow> omap_wf (st_rules s)"
  by (simp add: state_inv_def)

lemma state_inv_put:
  assumes "state_inv s" "entry_ok (k, r)" "flow_generation_in_domain g"
    and "omap_get (st_rules s) k \<noteq> None \<or> length (st_rules s) < MAX_RULES"
    and "st_rules s' = omap_insert k r (st_rules s)" "st_flow_generation s' = g"
  shows "state_inv s'"
proof -
  have wf: "omap_wf (st_rules s)" using assms(1) by simp
  have "length (omap_insert k r (st_rules s)) \<le> MAX_RULES"
    using assms(1,4) btree.size_put_fresh [OF wf, of k r] btree.size_put_existing [OF wf, of k _ r]
    by (cases "omap_get (st_rules s) k") (auto simp: state_inv_def)
  then show ?thesis
    using assms by (auto simp: state_inv_def list_all_iff omap_wf_insert btree.set_put)
qed

lemma state_inv_remove:
  assumes "state_inv s" "flow_generation_in_domain g"
    and "st_rules s' = omap_remove k (st_rules s)" "st_flow_generation s' = g"
  shows "state_inv s'"
  using assms btree.size_del [of "st_rules s" k] btree.wf_del [of "st_rules s" k]
  by (auto simp: state_inv_def list_all_iff btree.set_del)

lemma state_inv_frame:
  assumes "state_inv s" "st_rules s' = st_rules s" "flow_generation_in_domain (st_flow_generation s')"
  shows "state_inv s'"
  using assms by (simp add: state_inv_def)

section \<open>Counters\<close>

lemma next_revision_Inr:
  "next_revision s = Inr r \<longleftrightarrow> st_revision s \<noteq> - 1 \<and> r = st_revision s + 1"
  by (auto simp: next_revision_def)

lemma next_flow_generation_Inr:
  "next_flow_generation s = Inr g \<longleftrightarrow>
     st_flow_generation s < MAX_FLOW_GENERATION \<and> g = st_flow_generation s + 1"
  by (auto simp: next_flow_generation_def res_simps not_le)

lemma next_flow_generation_Inl:
  "next_flow_generation s = Inl e \<longleftrightarrow>
     MAX_FLOW_GENERATION \<le> st_flow_generation s \<and> e = FlowGenerationExhausted"
  by (auto simp: next_flow_generation_def res_simps)

lemma unat_generation_succ:
  "g < MAX_FLOW_GENERATION \<Longrightarrow> unat (g + 1) = Suc (unat g)"
  by (rule unat_word_add_one) (auto simp: MAX_FLOW_GENERATION_def)

lemma generation_succ:
  assumes "g < MAX_FLOW_GENERATION"
  shows "g < g + 1" "flow_generation_in_domain (g + 1)"
proof -
  have n: "unat (g + 1) = Suc (unat g)" using assms by (rule unat_generation_succ)
  then show "g < g + 1" by (simp add: word_less_nat_alt)
  have "unat g < unat MAX_FLOW_GENERATION" using assms by (simp add: word_less_nat_alt)
  with n have "unat (g + 1) \<le> unat MAX_FLOW_GENERATION" "1 \<le> unat (g + 1)" by simp_all
  then show "flow_generation_in_domain (g + 1)"
    by (simp add: flow_generation_in_domain_def word_le_nat_alt)
qed

lemma next_flow_generation_fresh:
  "next_flow_generation s = Inr g \<Longrightarrow> st_flow_generation s < g \<and> flow_generation_in_domain g"
  using generation_succ by (auto simp: next_flow_generation_Inr)

section \<open>Templates\<close>

lemma clear_pin_fields [simp]:
  "spec_enabled (clear_disabled_template_pin_if_skeleton s) = spec_enabled s"
  "spec_action (clear_disabled_template_pin_if_skeleton s) = spec_action s"
  "spec_direction (clear_disabled_template_pin_if_skeleton s) = spec_direction s"
  "spec_protocol (clear_disabled_template_pin_if_skeleton s) = spec_protocol s"
  "spec_origin (clear_disabled_template_pin_if_skeleton s) = spec_origin s"
  by (auto simp: clear_disabled_template_pin_if_skeleton_def split: option.splits)

lemma clear_pin_enabled: "spec_enabled s \<Longrightarrow> clear_disabled_template_pin_if_skeleton s = s"
  by (simp add: clear_disabled_template_pin_if_skeleton_def)

lemma clear_pin_not_redacted:
  "reject_redacted_spec (clear_disabled_template_pin_if_skeleton s) = reject_redacted_spec s"
  by (auto simp: clear_disabled_template_pin_if_skeleton_def reject_redacted_spec_def
      split: option.splits)

text \<open>A disabled template that is still a skeleton is always admissible after its pin is
  cleared.\<close>

lemma clear_pin_idem:
  "clear_disabled_template_pin_if_skeleton (clear_disabled_template_pin_if_skeleton s) =
   clear_disabled_template_pin_if_skeleton s"
  by (auto simp: clear_disabled_template_pin_if_skeleton_def split: option.splits)

section \<open>Successful mutations\<close>

lemma set_mode_with_strategy_at_Inr:
  "set_mode_with_strategy_at m str now s = (Inr e, s') \<longleftrightarrow>
     (\<exists>g. st_revision s \<noteq> - 1
        \<and> (next_flow_generation s = Inr g
           \<or> next_flow_generation s = Inl FlowGenerationExhausted \<and> m = BlockAll
             \<and> g = st_flow_generation s)
        \<and> e = \<lparr>ev_revision = st_revision s + 1, ev_occurred_at = now,
               ev_kind = ModeChanged (st_mode s) m\<rparr>
        \<and> s' = s\<lparr>st_mode := m, st_enforcement_strategy := str, st_flow_generation := g,
                 st_revision := st_revision s + 1\<rparr>)"
  by (auto simp: set_mode_with_strategy_at_def res_simps next_revision_Inr
      split: sum.splits if_splits)

lemma create_rule_at_Inr:
  assumes "create_rule_at rid spec now s = (Inr x, s')"
  obtains r where "rule_with_id_and_time rid spec now = Inr r"
    and "reject_redacted_spec spec = Inr ()" "reject_unpinned_application_spec spec = Inr ()"
    and "length (st_rules s) < MAX_RULES" "omap_get (st_rules s) rid = None"
    and "if spec_enabled spec \<and> spec_action spec \<noteq> Accept
         then next_flow_generation s = Inr (st_flow_generation s')
         else st_flow_generation s' = st_flow_generation s"
    and "x = (r, \<lparr>ev_revision = st_revision s', ev_occurred_at = now, ev_kind = RuleCreated r\<rparr>)"
    and "st_rules s' = omap_insert rid r (st_rules s)"
    and "st_mode s' = st_mode s" "st_enforcement_strategy s' = st_enforcement_strategy s"
    and "st_revision s \<noteq> - 1" "st_revision s' = st_revision s + 1"
proof -
  from assms obtain r fg where r: "rule_with_id_and_time rid spec now = Inr r"
    and checks: "reject_redacted_spec spec = Inr ()" "reject_unpinned_application_spec spec = Inr ()"
      "length (st_rules s) < MAX_RULES" "omap_get (st_rules s) rid = None" "st_revision s \<noteq> - 1"
    and fg: "(if spec_enabled (rule_spec r) \<and> spec_action (rule_spec r) \<noteq> Accept
          then bindE (next_flow_generation s) (\<lambda>g. Inr (Some g)) else Inr None) = Inr fg"
    and x: "x = (r, \<lparr>ev_revision = st_revision s + 1, ev_occurred_at = now, ev_kind = RuleCreated r\<rparr>)"
    and s': "s' = (case fg of None \<Rightarrow> s\<lparr>st_rules := omap_insert rid r (st_rules s)\<rparr>
                  | Some g \<Rightarrow> s\<lparr>st_rules := omap_insert rid r (st_rules s), st_flow_generation := g\<rparr>)
               \<lparr>st_revision := st_revision s + 1\<rparr>"
    by (auto simp: create_rule_at_def res_simps next_revision_Inr Let_def not_le)
  have "rule_spec r = spec" using r by (auto simp: rule_with_id_and_time_Inr)
  then show ?thesis
    using fg s' by (intro that [OF r]) (auto simp: checks x res_simps split: if_splits)
qed

lemma update_rule_at_Inr:
  assumes "update_rule_at rid spec0 now s = (Inr x, s')"
  obtains cur r where "omap_get (st_rules s) rid = Some cur"
    and "r = cur\<lparr>rule_spec := clear_disabled_template_pin_if_skeleton spec0,
                  rule_updated_at := max now (rule_updated_at cur)\<rparr>"
    and "rule_validate r = Inr ()" "reject_redacted_spec (rule_spec r) = Inr ()"
    and "reject_unpinned_application_spec (rule_spec r) = Inr ()"
    and "next_flow_generation s = Inr (st_flow_generation s')"
    and "x = (r, \<lparr>ev_revision = st_revision s', ev_occurred_at = now, ev_kind = RuleUpdated r\<rparr>)"
    and "st_rules s' = omap_insert rid r (st_rules s)"
    and "st_mode s' = st_mode s" "st_enforcement_strategy s' = st_enforcement_strategy s"
    and "st_revision s \<noteq> - 1" "st_revision s' = st_revision s + 1"
  using assms
  by (auto simp: update_rule_at_def res_simps next_revision_Inr Let_def)

lemma delete_rule_at_Inr:
  assumes "delete_rule_at rid now s = (Inr x, s')"
  obtains r where "omap_get (st_rules s) rid = Some r"
    and "next_flow_generation s = Inr (st_flow_generation s')"
    and "x = (r, \<lparr>ev_revision = st_revision s', ev_occurred_at = now, ev_kind = RuleDeleted r\<rparr>)"
    and "st_rules s' = omap_remove rid (st_rules s)"
    and "st_mode s' = st_mode s" "st_enforcement_strategy s' = st_enforcement_strategy s"
    and "st_revision s \<noteq> - 1" "st_revision s' = st_revision s + 1"
  using assms by (auto simp: delete_rule_at_def res_simps next_revision_Inr)

definition enabled_change_rotates :: "rule_spec \<Rightarrow> bool \<Rightarrow> bool" where
  "enabled_change_rotates spec en \<longleftrightarrow>
     spec_enabled spec \<and> \<not> en \<or> \<not> spec_enabled spec \<and> en \<and> spec_action spec \<noteq> Accept"

lemma set_rule_enabled_at_Inr:
  assumes "set_rule_enabled_at rid en now s = (Inr x, s')"
  obtains cur r where "omap_get (st_rules s) rid = Some cur"
    and "r = cur\<lparr>rule_spec := clear_disabled_template_pin_if_skeleton
                     ((rule_spec cur)\<lparr>spec_enabled := en\<rparr>),
                  rule_updated_at := max now (rule_updated_at cur)\<rparr>"
    and "rule_validate r = Inr ()" "reject_unpinned_application_spec (rule_spec r) = Inr ()"
    and "if enabled_change_rotates (rule_spec cur) en
         then next_flow_generation s = Inr (st_flow_generation s')
         else st_flow_generation s' = st_flow_generation s"
    and "x = (r, \<lparr>ev_revision = st_revision s', ev_occurred_at = now,
                  ev_kind = RuleEnabledChanged r\<rparr>)"
    and "st_rules s' = omap_insert rid r (st_rules s)"
    and "st_mode s' = st_mode s" "st_enforcement_strategy s' = st_enforcement_strategy s"
    and "st_revision s \<noteq> - 1" "st_revision s' = st_revision s + 1"
proof -
  let ?r = "\<lambda>cur. cur\<lparr>rule_spec := clear_disabled_template_pin_if_skeleton
                     ((rule_spec cur)\<lparr>spec_enabled := en\<rparr>),
                  rule_updated_at := max now (rule_updated_at cur)\<rparr>"
  from assms obtain cur fg where cur: "omap_get (st_rules s) rid = Some cur"
    and checks: "rule_validate (?r cur) = Inr ()"
      "reject_unpinned_application_spec (rule_spec (?r cur)) = Inr ()" "st_revision s \<noteq> - 1"
    and fg: "(if enabled_change_rotates (rule_spec cur) en
          then bindE (next_flow_generation s) (\<lambda>g. Inr (Some g)) else Inr None) = Inr fg"
    and x: "x = (?r cur, \<lparr>ev_revision = st_revision s + 1, ev_occurred_at = now,
                ev_kind = RuleEnabledChanged (?r cur)\<rparr>)"
    and s': "s' = (case fg of None \<Rightarrow> s\<lparr>st_rules := omap_insert rid (?r cur) (st_rules s)\<rparr>
               | Some g \<Rightarrow> s\<lparr>st_rules := omap_insert rid (?r cur) (st_rules s), st_flow_generation := g\<rparr>)
               \<lparr>st_revision := st_revision s + 1\<rparr>"
    by (auto simp: set_rule_enabled_at_def res_simps next_revision_Inr Let_def
        enabled_change_rotates_def)
  show ?thesis
    using fg s' checks by (intro that [OF cur refl]) (auto simp: x res_simps split: if_splits)
qed

section \<open>The contract of a revisioned mutation\<close>

text \<open>What every mutation promises to the engine that commits it: \<open>op\<close> is the
  mutation, \<open>ev\<close> the event inside its successful result.\<close>

locale revisioned_mutation =
  fixes op :: "state \<Rightarrow> (core_error + 'a) \<times> state"
    and ev :: "'a \<Rightarrow> event"
  assumes atomic: "op s = (Inl e, s') \<Longrightarrow> s' = s"
    and revision: "op s = (Inr x, s') \<Longrightarrow>
      st_revision s \<noteq> - 1 \<and> st_revision s' = st_revision s + 1 \<and> ev_revision (ev x) = st_revision s'"
    and keeps: "state_inv s \<Longrightarrow> op s = (Inr x, s') \<Longrightarrow>
      state_inv s' \<and> st_flow_generation s \<le> st_flow_generation s'"
begin

lemma revision_advances:
  "op s = (Inr x, s') \<Longrightarrow> unat (st_revision s') = Suc (unat (st_revision s))"
  using revision unat_word_add_one by metis

lemma outcome:
  "op s = (r, s') \<Longrightarrow>
     (case r of Inl e \<Rightarrow> s' = s
      | Inr x \<Rightarrow> unat (st_revision s') = Suc (unat (st_revision s))
          \<and> ev_revision (ev x) = st_revision s')"
  using atomic revision revision_advances by (cases r) auto

lemma invariant: "state_inv s \<Longrightarrow> state_inv (snd (op s))"
  using atomic keeps by (cases "op s"; cases "fst (op s)") fastforce+

lemma generation_monotone:
  "state_inv s \<Longrightarrow> st_flow_generation s \<le> st_flow_generation (snd (op s))"
  using atomic keeps by (cases "op s"; cases "fst (op s)") fastforce+

lemma overflow_fails: "st_revision s = - 1 \<Longrightarrow> \<exists>e. op s = (Inl e, s)"
  using revision atomic by (cases "op s"; cases "fst (op s)") fastforce+

end

lemma tryS_atomic:
  assumes "tryS r s k = (Inl e, s')" "\<And>x. r = Inr x \<Longrightarrow> k x = (Inl e, s') \<Longrightarrow> s' = s"
  shows "s' = s"
  using assms by (auto simp: res_simps)

lemma set_mode_atomic: "set_mode_with_strategy_at m str now s = (Inl e, s') \<Longrightarrow> s' = s"
  by (auto simp: set_mode_with_strategy_at_def res_simps)

lemma create_rule_atomic: "create_rule_at rid spec now s = (Inl e, s') \<Longrightarrow> s' = s"
  by (auto simp: create_rule_at_def res_simps Let_def)

lemma update_rule_atomic: "update_rule_at rid spec now s = (Inl e, s') \<Longrightarrow> s' = s"
  by (auto simp: update_rule_at_def res_simps Let_def)

lemma delete_rule_atomic: "delete_rule_at rid now s = (Inl e, s') \<Longrightarrow> s' = s"
  by (auto simp: delete_rule_at_def res_simps)

lemma set_rule_enabled_atomic: "set_rule_enabled_at rid en now s = (Inl e, s') \<Longrightarrow> s' = s"
  by (auto simp: set_rule_enabled_at_def res_simps Let_def)

lemma generation_kept_or_fresh:
  assumes "state_inv s"
    and "if b then next_flow_generation s = Inr (st_flow_generation s')
         else st_flow_generation s' = st_flow_generation s"
  shows "flow_generation_in_domain (st_flow_generation s')"
    "st_flow_generation s \<le> st_flow_generation s'"
  using assms next_flow_generation_fresh [of s "st_flow_generation s'"]
  by (auto simp: state_inv_def split: if_splits)

lemma set_mode_keeps:
  assumes "state_inv s" "set_mode_with_strategy_at m str now s = (Inr e, s')"
  shows "state_inv s' \<and> st_flow_generation s \<le> st_flow_generation s'"
proof -
  from assms(2) obtain g where g: "next_flow_generation s = Inr g \<or> g = st_flow_generation s"
    and s': "s' = s\<lparr>st_mode := m, st_enforcement_strategy := str, st_flow_generation := g,
                 st_revision := st_revision s + 1\<rparr>"
    by (auto simp: set_mode_with_strategy_at_Inr)
  have "flow_generation_in_domain g" "st_flow_generation s \<le> g"
    using g assms(1) next_flow_generation_fresh [of s g] by (auto simp: state_inv_def)
  then show ?thesis using assms(1) s' by (simp add: state_inv_def)
qed

lemma create_rule_keeps:
  assumes "state_inv s" "create_rule_at rid spec now s = (Inr x, s')"
  shows "state_inv s' \<and> st_flow_generation s \<le> st_flow_generation s'"
  using assms(2)
proof (rule create_rule_at_Inr)
  fix r
  assume r: "rule_with_id_and_time rid spec now = Inr r"
    and checks: "reject_redacted_spec spec = Inr ()" "reject_unpinned_application_spec spec = Inr ()"
      "length (st_rules s) < MAX_RULES"
    and gen: "if spec_enabled spec \<and> spec_action spec \<noteq> Accept
         then next_flow_generation s = Inr (st_flow_generation s')
         else st_flow_generation s' = st_flow_generation s"
    and rules: "st_rules s' = omap_insert rid r (st_rules s)"
  have "entry_ok (rid, r)"
    using r checks rule_with_id_and_time_valid [OF r] by (auto simp: entry_ok_iff rule_with_id_and_time_Inr)
  then show ?thesis
    using generation_kept_or_fresh [OF assms(1) gen] checks rules
    by (auto intro!: state_inv_put [OF assms(1)])
qed

lemma update_rule_keeps:
  assumes "state_inv s" "update_rule_at rid spec now s = (Inr x, s')"
  shows "state_inv s' \<and> st_flow_generation s \<le> st_flow_generation s'"
  using assms(2)
proof (rule update_rule_at_Inr)
  fix cur r
  assume cur: "omap_get (st_rules s) rid = Some cur"
    and r: "r = cur\<lparr>rule_spec := clear_disabled_template_pin_if_skeleton spec,
                  rule_updated_at := max now (rule_updated_at cur)\<rparr>"
    and checks: "rule_validate r = Inr ()" "reject_redacted_spec (rule_spec r) = Inr ()"
      "reject_unpinned_application_spec (rule_spec r) = Inr ()"
    and gen: "next_flow_generation s = Inr (st_flow_generation s')"
    and rules: "st_rules s' = omap_insert rid r (st_rules s)"
  have "entry_ok (rid, r)"
    using r checks state_inv_entry [OF assms(1) cur] by (auto simp: entry_ok_iff)
  then show ?thesis
    using next_flow_generation_fresh [OF gen] cur rules
    by (auto intro!: state_inv_put [OF assms(1)])
qed

lemma delete_rule_keeps:
  assumes "state_inv s" "delete_rule_at rid now s = (Inr x, s')"
  shows "state_inv s' \<and> st_flow_generation s \<le> st_flow_generation s'"
  using assms(2)
proof (rule delete_rule_at_Inr)
  fix r
  assume gen: "next_flow_generation s = Inr (st_flow_generation s')"
    and rules: "st_rules s' = omap_remove rid (st_rules s)"
  show ?thesis
    using next_flow_generation_fresh [OF gen] rules
    by (auto intro!: state_inv_remove [OF assms(1)])
qed

lemma set_rule_enabled_keeps:
  assumes "state_inv s" "set_rule_enabled_at rid en now s = (Inr x, s')"
  shows "state_inv s' \<and> st_flow_generation s \<le> st_flow_generation s'"
  using assms(2)
proof (rule set_rule_enabled_at_Inr)
  fix cur r
  assume cur: "omap_get (st_rules s) rid = Some cur"
    and r: "r = cur\<lparr>rule_spec := clear_disabled_template_pin_if_skeleton
                     ((rule_spec cur)\<lparr>spec_enabled := en\<rparr>),
                  rule_updated_at := max now (rule_updated_at cur)\<rparr>"
    and checks: "rule_validate r = Inr ()" "reject_unpinned_application_spec (rule_spec r) = Inr ()"
    and gen: "if enabled_change_rotates (rule_spec cur) en
         then next_flow_generation s = Inr (st_flow_generation s')
         else st_flow_generation s' = st_flow_generation s"
    and rules: "st_rules s' = omap_insert rid r (st_rules s)"
  have "entry_ok (rid, cur)" by (rule state_inv_entry [OF assms(1) cur])
  then have "entry_ok (rid, r)"
    using r checks clear_pin_not_redacted [of "(rule_spec cur)\<lparr>spec_enabled := en\<rparr>"]
    by (auto simp: entry_ok_iff) (simp add: reject_redacted_spec_def)
  then show ?thesis
    using generation_kept_or_fresh [OF assms(1) gen] cur rules
    by (auto intro!: state_inv_put [OF assms(1)])
qed

lemma set_mode_revision:
  "set_mode_with_strategy_at m str now s = (Inr e, s') \<Longrightarrow>
     st_revision s \<noteq> - 1 \<and> st_revision s' = st_revision s + 1 \<and> ev_revision e = st_revision s'"
  by (auto simp: set_mode_with_strategy_at_Inr)

lemma create_rule_revision:
  "create_rule_at rid spec now s = (Inr x, s') \<Longrightarrow>
     st_revision s \<noteq> - 1 \<and> st_revision s' = st_revision s + 1 \<and> ev_revision (snd x) = st_revision s'"
  by (erule create_rule_at_Inr) simp

lemma update_rule_revision:
  "update_rule_at rid spec now s = (Inr x, s') \<Longrightarrow>
     st_revision s \<noteq> - 1 \<and> st_revision s' = st_revision s + 1 \<and> ev_revision (snd x) = st_revision s'"
  by (erule update_rule_at_Inr) simp

lemma delete_rule_revision:
  "delete_rule_at rid now s = (Inr x, s') \<Longrightarrow>
     st_revision s \<noteq> - 1 \<and> st_revision s' = st_revision s + 1 \<and> ev_revision (snd x) = st_revision s'"
  by (erule delete_rule_at_Inr) simp

lemma set_rule_enabled_revision:
  "set_rule_enabled_at rid en now s = (Inr x, s') \<Longrightarrow>
     st_revision s \<noteq> - 1 \<and> st_revision s' = st_revision s + 1 \<and> ev_revision (snd x) = st_revision s'"
  by (erule set_rule_enabled_at_Inr) simp

interpretation set_mode_op: revisioned_mutation "set_mode_with_strategy_at m str now" "\<lambda>e. e"
  by unfold_locales (erule set_mode_atomic, erule set_mode_revision, erule (1) set_mode_keeps)

interpretation create_op: revisioned_mutation "create_rule_at rid spec now" snd
  by unfold_locales (erule create_rule_atomic, erule create_rule_revision, erule (1) create_rule_keeps)

interpretation update_op: revisioned_mutation "update_rule_at rid spec now" snd
  by unfold_locales (erule update_rule_atomic, erule update_rule_revision, erule (1) update_rule_keeps)

interpretation delete_op: revisioned_mutation "delete_rule_at rid now" snd
  by unfold_locales (erule delete_rule_atomic, erule delete_rule_revision, erule (1) delete_rule_keeps)

interpretation set_enabled_op: revisioned_mutation "set_rule_enabled_at rid en now" snd
  by unfold_locales
    (erule set_rule_enabled_atomic, erule set_rule_enabled_revision, erule (1) set_rule_enabled_keeps)

end
