(* ===== verification/Policy_Properties.thy ===== *)
theory Policy_Properties
  imports Policy_Invariant
begin

text \<open>
  The properties of the policy state: the mutation contract of every operation, the
  invariant over all runs of mutations, the meaning of an unchanged flow generation, the
  exchange of snapshots with the store and with observers, pagination, and the
  classification of the packet path.
\<close>

section \<open>Runs of mutations\<close>

inductive rule_step :: "state \<Rightarrow> state \<Rightarrow> bool" where
  created: "create_rule_at rid spec now s = (Inr x, s') \<Longrightarrow> rule_step s s'"
| updated: "update_rule_at rid spec now s = (Inr x, s') \<Longrightarrow> rule_step s s'"
| deleted: "delete_rule_at rid now s = (Inr x, s') \<Longrightarrow> rule_step s s'"
| enabled_changed: "set_rule_enabled_at rid en now s = (Inr x, s') \<Longrightarrow> rule_step s s'"

inductive policy_step :: "state \<Rightarrow> state \<Rightarrow> bool" where
  rule_changed: "rule_step s s' \<Longrightarrow> policy_step s s'"
| mode_changed: "set_mode_with_strategy_at m str now s = (Inr e, s') \<Longrightarrow> policy_step s s'"

text \<open>The states of a running daemon: it starts from the empty state or from one that
  passed validation, may rotate the flow generation once at startup, and then only runs
  successful mutations.\<close>

inductive policy_reachable :: "state json \<Rightarrow> state \<Rightarrow> bool" for json where
  fresh: "policy_reachable json state_new"
| loaded: "omap_wf (st_rules s) \<Longrightarrow> state_validate json s = Inr () \<Longrightarrow> policy_reachable json s"
| rotated: "policy_reachable json s \<Longrightarrow> rotate_flow_generation g s = (Inr u, s') \<Longrightarrow>
     policy_reachable json s'"
| stepped: "policy_reachable json s \<Longrightarrow> policy_step s s' \<Longrightarrow> policy_reachable json s'"

lemma rule_step_keeps:
  "rule_step s s' \<Longrightarrow> state_inv s \<Longrightarrow> state_inv s' \<and> st_flow_generation s \<le> st_flow_generation s'"
  by (induction rule: rule_step.induct)
    (blast dest: create_rule_keeps update_rule_keeps delete_rule_keeps set_rule_enabled_keeps)+

lemma policy_step_keeps: "policy_step s s' \<Longrightarrow> state_inv s \<Longrightarrow> state_inv s'"
  by (induction rule: policy_step.induct) (auto dest: rule_step_keeps set_mode_keeps)

lemma rule_step_revision: "rule_step s s' \<Longrightarrow> unat (st_revision s') = Suc (unat (st_revision s))"
  by (induction rule: rule_step.induct)
    (blast intro: create_op.revision_advances update_op.revision_advances
      delete_op.revision_advances set_enabled_op.revision_advances)+

lemma policy_step_revision:
  "policy_step s s' \<Longrightarrow> unat (st_revision s') = Suc (unat (st_revision s))"
  by (induction rule: policy_step.induct)
    (blast intro: rule_step_revision set_mode_op.revision_advances)+

lemma state_new_inv: "state_inv state_new"
  by (simp add: state_inv_def state_new_def initial_flow_generation_def
      flow_generation_in_domain_def MAX_FLOW_GENERATION_def)

lemma rotate_inv: "state_inv s \<Longrightarrow> rotate_flow_generation g s = (Inr u, s') \<Longrightarrow> state_inv s'"
  by (auto simp: rotate_flow_generation_def state_inv_def split: if_splits)

text \<open>C10: every state a daemon can reach, starting from the empty state or
  from any stored state that passed validation and running any sequence of successful
  mutations, has at most ten thousand rules keyed by their own non-nil identifiers, only
  valid rules, no redacted metadata, pinned executables in every enforceable application
  rule, and a flow generation inside the reserved mark domain.\<close>

theorem reachable_state_inv:
  assumes "policy_reachable json s"
  shows "state_inv s"
  using assms
proof (induction rule: policy_reachable.induct)
  case fresh
  show ?case by (rule state_new_inv)
next
  case (loaded s)
  then show ?case by (auto simp: state_inv_def state_validate_Inr)
qed (blast intro: rotate_inv policy_step_keeps)+

text \<open>C11: creating, updating, deleting and enabling a rule and changing the mode
  are all or nothing: a failing call leaves the state as it was, and a successful one
  advances the 64-bit revision by exactly one without wrapping and stamps its event with
  the new revision.\<close>

theorem mutations_are_revisioned:
  "(case create_rule_at rid spec now s of
      (Inl e, s') \<Rightarrow> s' = s
    | (Inr x, s') \<Rightarrow> unat (st_revision s') = Suc (unat (st_revision s))
        \<and> ev_revision (snd x) = st_revision s')
   \<and> (case update_rule_at rid spec now s of
      (Inl e, s') \<Rightarrow> s' = s
    | (Inr x, s') \<Rightarrow> unat (st_revision s') = Suc (unat (st_revision s))
        \<and> ev_revision (snd x) = st_revision s')
   \<and> (case delete_rule_at rid now s of
      (Inl e, s') \<Rightarrow> s' = s
    | (Inr x, s') \<Rightarrow> unat (st_revision s') = Suc (unat (st_revision s))
        \<and> ev_revision (snd x) = st_revision s')
   \<and> (case set_rule_enabled_at rid en now s of
      (Inl e, s') \<Rightarrow> s' = s
    | (Inr x, s') \<Rightarrow> unat (st_revision s') = Suc (unat (st_revision s))
        \<and> ev_revision (snd x) = st_revision s')
   \<and> (case set_mode_with_strategy_at m str now s of
      (Inl e, s') \<Rightarrow> s' = s
    | (Inr e, s') \<Rightarrow> unat (st_revision s') = Suc (unat (st_revision s))
        \<and> ev_revision e = st_revision s')"
  using create_op.outcome [of rid spec now s] update_op.outcome [of rid spec now s]
    delete_op.outcome [of rid now s] set_enabled_op.outcome [of rid en now s]
    set_mode_op.outcome [of m str now s]
  by (auto split: prod.splits sum.splits)

section \<open>What an unchanged flow generation means\<close>

text \<open>Conntrack marks authorised under a generation stay valid while it is current. A rule
  whose specification is in force authorises or denies traffic only while it is enabled.\<close>

definition in_force :: "state \<Rightarrow> uuid \<Rightarrow> rule_spec \<Rightarrow> bool" where
  "in_force s i spec \<longleftrightarrow>
     (case state_rule s i of None \<Rightarrow> False | Some r \<Rightarrow> rule_spec r = spec \<and> spec_enabled spec)"

lemma in_force_iff:
  "in_force s i spec \<longleftrightarrow>
     (\<exists>r. omap_get (st_rules s) i = Some r \<and> rule_spec r = spec \<and> spec_enabled spec)"
  by (simp add: in_force_def state_rule_def split: option.splits)

lemma rotation_differs: "next_flow_generation s = Inr g \<Longrightarrow> g \<noteq> st_flow_generation s"
  using next_flow_generation_fresh by blast

lemma created_in_force:
  assumes inv: "state_inv s" and op: "create_rule_at rid spec now s = (Inr x, s')"
    and same: "st_flow_generation s' = st_flow_generation s"
  shows "(in_force s i sp \<longrightarrow> in_force s' i sp)
    \<and> (in_force s' i sp \<and> spec_action sp \<noteq> Accept \<longrightarrow> in_force s i sp)"
  using op
proof (rule create_rule_at_Inr)
  fix r
  assume r: "rule_with_id_and_time rid spec now = Inr r"
    and fresh: "omap_get (st_rules s) rid = None"
    and gen: "if spec_enabled spec \<and> spec_action spec \<noteq> Accept
         then next_flow_generation s = Inr (st_flow_generation s')
         else st_flow_generation s' = st_flow_generation s"
    and rules: "st_rules s' = omap_insert rid r (st_rules s)"
  have "\<not> (spec_enabled spec \<and> spec_action spec \<noteq> Accept)" using gen same rotation_differs by metis
  then show ?thesis
    using r fresh inv by (auto simp: in_force_iff rules btree.get_put rule_with_id_and_time_Inr)
qed

lemma enabled_changed_in_force:
  assumes inv: "state_inv s" and op: "set_rule_enabled_at rid en now s = (Inr x, s')"
    and same: "st_flow_generation s' = st_flow_generation s"
  shows "(in_force s i sp \<longrightarrow> in_force s' i sp)
    \<and> (in_force s' i sp \<and> spec_action sp \<noteq> Accept \<longrightarrow> in_force s i sp)"
  using op
proof (rule set_rule_enabled_at_Inr)
  fix cur r :: rule
  let ?spec = "(rule_spec cur)\<lparr>spec_enabled := en\<rparr>"
  assume cur: "omap_get (st_rules s) rid = Some cur"
    and r: "r = cur\<lparr>rule_spec := clear_disabled_template_pin_if_skeleton ?spec,
                  rule_updated_at := max now (rule_updated_at cur)\<rparr>"
    and gen: "if enabled_change_rotates (rule_spec cur) en
         then next_flow_generation s = Inr (st_flow_generation s')
         else st_flow_generation s' = st_flow_generation s"
    and rules: "st_rules s' = omap_insert rid r (st_rules s)"
  have stay: "\<not> enabled_change_rotates (rule_spec cur) en"
    using gen same rotation_differs by metis
  have spec: "rule_spec r = ?spec" if en by (simp add: r that clear_pin_enabled)
  have off: "\<not> spec_enabled (rule_spec r)" if "\<not> en" by (simp add: r that)
  have keep: "rule_spec r = rule_spec cur" if "spec_enabled (rule_spec cur)"
    using that stay spec by (cases en) (auto simp: enabled_change_rotates_def)
  have accept: "spec_action (rule_spec r) = Accept" if en "\<not> spec_enabled (rule_spec cur)"
    using that stay spec by (auto simp: enabled_change_rotates_def)
  show ?thesis
    using cur inv keep accept off
    by (auto simp: in_force_iff rules btree.get_put) metis+
qed

lemma rule_step_in_force:
  assumes "rule_step s s'" "state_inv s" "st_flow_generation s' = st_flow_generation s"
  shows "(in_force s i sp \<longrightarrow> in_force s' i sp)
    \<and> (in_force s' i sp \<and> spec_action sp \<noteq> Accept \<longrightarrow> in_force s i sp)"
  using assms
proof (induction rule: rule_step.induct)
  case (updated rid spec now s x s')
  then show ?case using rotation_differs by (auto elim!: update_rule_at_Inr)
next
  case (deleted rid now s x s')
  then show ?case using rotation_differs by (auto elim!: delete_rule_at_Inr)
qed (blast dest: created_in_force enabled_changed_in_force)+

lemma mode_step_generation:
  assumes "set_mode_with_strategy_at m str now s = (Inr e, s')"
    and "st_flow_generation s' = st_flow_generation s"
  shows "st_mode s' = BlockAll \<and> st_rules s' = st_rules s"
  using assms rotation_differs by (auto simp: set_mode_with_strategy_at_Inr)

lemma policy_step_generation: "policy_step s s' \<Longrightarrow> state_inv s \<Longrightarrow>
    st_flow_generation s \<le> st_flow_generation s'"
  by (induction rule: policy_step.induct) (auto dest: rule_step_keeps set_mode_keeps)

lemma policy_run_keeps:
  "rtranclp policy_step s s' \<Longrightarrow> state_inv s \<Longrightarrow>
     state_inv s' \<and> st_flow_generation s \<le> st_flow_generation s'"
proof (induction rule: rtranclp_induct)
  case (step t u)
  then show ?case using policy_step_keeps policy_step_generation by (meson order_trans)
qed simp

lemma rule_step_mode: "rule_step s s' \<Longrightarrow> st_mode s' = st_mode s"
proof (induction rule: rule_step.induct)
  case (created rid spec now s x s')
  then show ?case by (rule create_rule_at_Inr)
next
  case (updated rid spec now s x s')
  then show ?case by (rule update_rule_at_Inr)
next
  case (deleted rid now s x s')
  then show ?case by (rule delete_rule_at_Inr)
next
  case (enabled_changed rid en now s x s')
  then show ?case by (rule set_rule_enabled_at_Inr)
qed

lemma policy_step_in_force:
  assumes "policy_step s s'" "state_inv s" "st_flow_generation s' = st_flow_generation s"
  shows "(st_mode s' = st_mode s \<or> st_mode s' = BlockAll)
    \<and> (in_force s i sp \<longrightarrow> in_force s' i sp)
    \<and> (in_force s' i sp \<and> spec_action sp \<noteq> Accept \<longrightarrow> in_force s i sp)"
  using assms
proof (induction rule: policy_step.induct)
  case (rule_changed s s')
  then show ?case using rule_step_in_force rule_step_mode by blast
next
  case (mode_changed m str now s e s')
  then have "st_mode s' = BlockAll" "st_rules s' = st_rules s"
    using mode_step_generation by blast+
  then show ?case by (simp add: in_force_iff)
qed

text \<open>C13: conntrack marks carry the flow generation under which a flow was
  authorised. Over any sequence of mutations that leaves the generation as it was, no rule
  in force was removed, disabled or rewritten, no drop or reject rule came into force, and
  the mode is unchanged or is \<open>BlockAll\<close>: whatever revokes an authorisation rotates the
  generation.\<close>

theorem unrotated_generation_revokes_nothing:
  assumes "rtranclp policy_step s s'" "state_inv s" "st_flow_generation s' = st_flow_generation s"
  shows "(st_mode s' = st_mode s \<or> st_mode s' = BlockAll)
    \<and> (in_force s i sp \<longrightarrow> in_force s' i sp)
    \<and> (in_force s' i sp \<and> spec_action sp \<noteq> Accept \<longrightarrow> in_force s i sp)"
  using assms
proof (induction rule: rtranclp_induct)
  case (step t u)
  have t: "state_inv t" "st_flow_generation s \<le> st_flow_generation t"
    using policy_run_keeps [OF step.hyps(1)] step.prems by auto
  have "st_flow_generation t \<le> st_flow_generation u"
    using policy_step_generation [OF step.hyps(2) t(1)] .
  then have same: "st_flow_generation t = st_flow_generation s"
    using t(2) step.prems(2) by (metis order_antisym)
  then have same': "st_flow_generation u = st_flow_generation t"
    using step.prems(2) by (rule trans [OF _ sym, rotated])
  show ?case
    using step.IH [OF step.prems(1) same] policy_step_in_force [OF step.hyps(2) t(1) same']
    by metis
qed simp

section \<open>Sample policies\<close>

definition sample_spec :: rule_spec where
  "sample_spec = \<lparr>spec_name = RuleName (ascii ''https''), spec_direction = Outbound,
     spec_action = Accept, spec_protocol = Tcp, spec_peer_network = Some (NetV4 0xC000020A 32),
     spec_port = Some \<lparr>pr_start = 443, pr_end = 443\<rparr>, spec_interface = None,
     spec_application = None, spec_origin = Manual, spec_enabled = True\<rparr>"

definition sample_rule :: rule where
  "sample_rule = \<lparr>rule_id = 5, rule_spec = sample_spec, rule_created_at = 100,
     rule_updated_at = 100\<rparr>"

definition sample_state :: state where
  "sample_state = state_new\<lparr>st_revision := 1, st_rules := [(5, sample_rule)]\<rparr>"

lemmas sample_defs = sample_spec_def sample_rule_def sample_state_def state_new_def

lemma sample_create:
  "create_rule_at 5 sample_spec 100 state_new =
     (Inr (sample_rule, \<lparr>ev_revision = 1, ev_occurred_at = 100, ev_kind = RuleCreated sample_rule\<rparr>),
      sample_state)"
  by (simp add: create_rule_at_def reject_redacted_spec_def reject_unpinned_application_spec_def
      rule_with_id_and_time_def rule_spec_validate_def next_revision_def sample_defs
      MAX_RULES_def omap_get_def Let_def)

lemma sample_state_inv: "state_inv sample_state"
  using create_op.invariant [OF state_new_inv, of 5 sample_spec 100] by (simp add: sample_create)

definition sample_second_state :: state where
  "sample_second_state = sample_state\<lparr>st_revision := 2,
     st_rules := [(5, sample_rule), (6, sample_rule\<lparr>rule_id := 6\<rparr>)]\<rparr>"

lemma sample_create_second:
  "create_rule_at 6 sample_spec 100 sample_state =
     (Inr (sample_rule\<lparr>rule_id := 6\<rparr>, \<lparr>ev_revision = 2, ev_occurred_at = 100,
         ev_kind = RuleCreated (sample_rule\<lparr>rule_id := 6\<rparr>)\<rparr>),
      sample_second_state)"
  by (simp add: create_rule_at_def reject_redacted_spec_def reject_unpinned_application_spec_def
      rule_with_id_and_time_def rule_spec_validate_def next_revision_def sample_defs
      sample_second_state_def MAX_RULES_def omap_get_def Let_def)

theorem unrotated_generation_revokes_nothing_witness:
  "rtranclp policy_step sample_state sample_second_state \<and> state_inv sample_state
   \<and> st_flow_generation sample_second_state = st_flow_generation sample_state
   \<and> in_force sample_state 5 sample_spec \<and> in_force sample_second_state 5 sample_spec"
proof -
  have run: "rtranclp policy_step sample_state sample_second_state"
    using sample_create_second by (blast intro: rule_changed created)
  have gen: "st_flow_generation sample_second_state = st_flow_generation sample_state"
    by (simp add: sample_second_state_def)
  have "in_force sample_state 5 sample_spec"
    by (simp add: in_force_def state_rule_def omap_get_def sample_defs)
  with run sample_state_inv gen
    unrotated_generation_revokes_nothing [OF run sample_state_inv gen, of 5 sample_spec]
  show ?thesis by blast
qed

definition quiet_json :: "state json" where
  "quiet_json = \<lparr>json_state_writes = (\<lambda>_. ([], None)), json_rule_len = (\<lambda>_. Inr 0)\<rparr>"

theorem reachable_state_inv_witness:
  "policy_reachable quiet_json sample_state \<and> state_inv sample_state"
proof -
  have "policy_step state_new sample_state"
    using sample_create by (blast intro: rule_changed created)
  then have "policy_reachable quiet_json sample_state" by (blast intro: fresh stepped)
  then show ?thesis using reachable_state_inv by blast
qed

end
