(* ===== verification/Snapshot_Properties.thy ===== *)
theory Snapshot_Properties
  imports Policy_Properties
begin

text \<open>
  Snapshots: their exchange with the store, what an unprivileged observer receives, and
  the two derived views of a policy, its ordered pages and its packet path.
\<close>

section \<open>Validation of snapshots\<close>

lemma snapshot_validate_rules_Inr:
  "snapshot_validate_rules ids rs = Inr u \<longleftrightarrow>
     list_all (\<lambda>r. entry_ok (rule_id r, r)) rs \<and> distinct (map rule_id rs)
     \<and> set (map rule_id rs) \<inter> ids = {}"
  by (induction rs arbitrary: ids)
    (auto simp: res_simps entry_ok_iff reject_redacted_rule_def)

lemma snapshot_validate_Inr:
  "snapshot_validate sn = Inr u \<longleftrightarrow>
     length (sn_rules sn) \<le> MAX_RULES \<and> flow_generation_in_domain (sn_flow_generation sn)
     \<and> list_all (\<lambda>r. entry_ok (rule_id r, r)) (sn_rules sn) \<and> distinct (map rule_id (sn_rules sn))"
  by (auto simp: snapshot_validate_def res_simps snapshot_validate_rules_Inr)

lemma state_inv_keys:
  "list_all entry_ok m \<Longrightarrow> map rule_id (omap_values m) = map fst m"
  by (induction m) (auto simp: omap_values_def entry_ok_iff)

lemma state_inv_values:
  "list_all entry_ok m \<Longrightarrow> list_all (\<lambda>r. entry_ok (rule_id r, r)) (omap_values m)"
  by (auto simp: omap_values_def list_all_iff entry_ok_iff)

lemma state_snapshot_valid: "state_inv s \<Longrightarrow> snapshot_validate (state_snapshot s) = Inr ()"
  by (auto simp: snapshot_validate_Inr state_snapshot_def state_inv_def state_inv_keys
      state_inv_values omap_keys_distinct) (simp add: omap_values_def)

section \<open>Rebuilding the state\<close>

lemma omap_insert_last: "\<forall>p\<in>set m. fst p < k \<Longrightarrow> omap_insert k v m = m @ [(k, v)]"
  by (induction m) auto

lemma collect_rules_snoc:
  "collect_rules (rs @ [r]) = omap_insert (rule_id r) r (collect_rules rs)"
  by (simp add: collect_rules_def)

lemma collect_rules_values:
  "omap_wf m \<Longrightarrow> list_all entry_ok m \<Longrightarrow> collect_rules (omap_values m) = m"
proof (induction m rule: rev_induct)
  case Nil
  then show ?case by (simp add: collect_rules_def omap_values_def)
next
  case (snoc p m)
  obtain k r where p: "p = (k, r)" by (cases p)
  have "omap_wf m" "\<forall>q\<in>set m. fst q < k"
    using snoc.prems(1) p by (auto simp: omap_wf_def sorted_wrt_append)
  moreover have "rule_id r = k" "list_all entry_ok m"
    using snoc.prems(2) p by (auto simp: entry_ok_iff)
  ultimately show ?case
    using snoc.IH p by (simp add: omap_values_def collect_rules_snoc omap_insert_last)
qed



section \<open>Observers\<close>

lemma observer_check_redacted:
  assumes "st \<noteq> Some False"
  shows "\<exists>st'. observer_check_selector st (rule_redacted_for_observer r) = Inr st' \<and> st' \<noteq> Some False"
proof (cases "spec_application (rule_spec r)")
  case None
  then show ?thesis
    using assms by (simp add: observer_check_selector_def rule_redacted_for_observer_def)
next
  case (Some sel)
  have "\<not> is_some_and st (\<lambda>previous. \<not> previous)"
    using assms by (cases st) auto
  with Some show ?thesis
    by (simp add: observer_check_selector_def rule_redacted_for_observer_def
        application_selector_redacted_def Let_def)
qed

lemma observer_validate_redacted:
  assumes "list_all (\<lambda>r. entry_ok (rule_id r, r)) rs" "distinct (map rule_id rs)"
    and "set (map rule_id rs) \<inter> ids = {}" "st \<noteq> Some False"
  shows "observer_validate_rules ids st (map rule_redacted_for_observer rs) = Inr ()"
  using assms
proof (induction rs arbitrary: ids st)
  case (Cons r rs)
  obtain st' where st': "observer_check_selector st (rule_redacted_for_observer r) = Inr st'"
    "st' \<noteq> Some False" using observer_check_redacted Cons.prems(4) by blast
  have "rule_validate (rule_redacted_for_observer r) = Inr ()"
    using Cons.prems(1) by (intro rule_redacted_valid) (simp add: entry_ok_iff)
  moreover have "observer_validate_rules (insert (rule_id r) ids) st'
      (map rule_redacted_for_observer rs) = Inr ()"
    using Cons.prems st'(2) by (intro Cons.IH) auto
  ultimately show ?case using Cons.prems(3) st'(1) by simp
qed simp

lemma observer_check_privileged:
  assumes "entry_ok (rule_id r, r)" "st \<noteq> Some True"
  shows "\<exists>st'. observer_check_selector st r = Inr st' \<and> st' \<noteq> Some True"
  using assms
  by (cases "spec_application (rule_spec r)"; cases st)
    (auto simp: observer_check_selector_def entry_ok_iff reject_redacted_spec_def res_simps Let_def)

lemma observer_validate_privileged:
  assumes "list_all (\<lambda>r. entry_ok (rule_id r, r)) rs" "distinct (map rule_id rs)"
    and "set (map rule_id rs) \<inter> ids = {}" "st \<noteq> Some True"
  shows "observer_validate_rules ids st rs = Inr ()"
  using assms
proof (induction rs arbitrary: ids st)
  case (Cons r rs)
  obtain st' where st': "observer_check_selector st r = Inr st'" "st' \<noteq> Some True"
    using observer_check_privileged [of r st] Cons.prems by auto
  have "observer_validate_rules (insert (rule_id r) ids) st' rs = Inr ()"
    using Cons.prems st'(2) by (intro Cons.IH) auto
  then show ?case using Cons.prems(1,3) st'(1) by (simp add: entry_ok_iff)
qed simp

text \<open>Whatever a daemon sends passes the client's check: for a well-formed
  state both the privileged snapshot and the redacted one satisfy
  \<open>validate_for_observer\<close>.\<close>

theorem observer_snapshots_accepted:
  assumes "state_inv s"
  shows "snapshot_validate_for_observer (state_snapshot s) = Inr ()
    \<and> snapshot_validate_for_observer (snapshot_redacted_for_observer (state_snapshot s)) = Inr ()"
proof -
  have v: "snapshot_validate (state_snapshot s) = Inr ()" by (rule state_snapshot_valid [OF assms])
  then have ok: "list_all (\<lambda>r. entry_ok (rule_id r, r)) (sn_rules (state_snapshot s))"
    "distinct (map rule_id (sn_rules (state_snapshot s)))"
    by (simp_all add: snapshot_validate_Inr)
  show ?thesis
    using v observer_validate_privileged [OF ok, of "{}" None]
      observer_validate_redacted [OF ok, of "{}" None]
    by (simp add: snapshot_validate_Inr snapshot_validate_for_observer_def
        snapshot_redacted_for_observer_def)
qed

theorem observer_snapshots_accepted_witness:
  "state_inv sample_state
   \<and> snapshot_validate_for_observer (snapshot_redacted_for_observer (state_snapshot sample_state)) = Inr ()"
  using sample_state_inv observer_snapshots_accepted [OF sample_state_inv] by blast

text \<open>Two rules that differ only in application metadata: in the selector itself and in
  the display name of an application rule.\<close>

definition differ_in_metadata :: "rule \<Rightarrow> rule \<Rightarrow> bool" where
  "differ_in_metadata r q \<longleftrightarrow>
     q = r \<or>
     spec_application (rule_spec r) \<noteq> None \<and> spec_application (rule_spec q) \<noteq> None
     \<and> q = r\<lparr>rule_spec := (rule_spec r)\<lparr>spec_name := spec_name (rule_spec q),
                spec_application := spec_application (rule_spec q)\<rparr>\<rparr>"

lemma redaction_hides_metadata:
  assumes "differ_in_metadata r q"
  shows "rule_redacted_for_observer r = rule_redacted_for_observer q"
proof (cases "q = r")
  case False
  then have app: "spec_application (rule_spec r) \<noteq> None" "spec_application (rule_spec q) \<noteq> None"
    and q: "q = r\<lparr>rule_spec := (rule_spec r)\<lparr>spec_name := spec_name (rule_spec q),
                spec_application := spec_application (rule_spec q)\<rparr>\<rparr>"
    using assms by (auto simp: differ_in_metadata_def)
  have "redactable (rule_spec q) = redactable (rule_spec r)"
    by (subst q) (simp add: redactable_def)
  moreover have "q\<lparr>rule_spec := x\<rparr> = r\<lparr>rule_spec := x\<rparr>" for x
    by (subst q) simp
  ultimately show ?thesis
    using app by (auto simp: rule_redacted_for_observer_eq)
qed simp

text \<open>C22: an observer learns nothing about application metadata: states whose
  rules differ only in application selectors and in the names of application rules give the
  same redacted snapshot, and no such snapshot with an application rule can be turned back
  into a state.\<close>

theorem observer_noninterference:
  assumes "list_all2 differ_in_metadata (sn_rules a) (sn_rules b)"
    and "sn_revision a = sn_revision b" "sn_flow_generation a = sn_flow_generation b"
    and "sn_mode a = sn_mode b"
  shows "snapshot_redacted_for_observer a = snapshot_redacted_for_observer b
    \<and> (list_ex (\<lambda>r. spec_application (rule_spec r) \<noteq> None) (sn_rules a) \<longrightarrow>
       \<not> is_ok (state_from_snapshot json (snapshot_redacted_for_observer a)))"
proof
  have "map rule_redacted_for_observer (sn_rules a) = map rule_redacted_for_observer (sn_rules b)"
    using assms(1) by (induction rule: list_all2_induct) (simp_all add: redaction_hides_metadata)
  then show "snapshot_redacted_for_observer a = snapshot_redacted_for_observer b"
    using assms(2-4) by (simp add: snapshot_redacted_for_observer_def)
next
  show "list_ex (\<lambda>r. spec_application (rule_spec r) \<noteq> None) (sn_rules a) \<longrightarrow>
       \<not> is_ok (state_from_snapshot json (snapshot_redacted_for_observer a))"
  proof
    assume "list_ex (\<lambda>r. spec_application (rule_spec r) \<noteq> None) (sn_rules a)"
    then obtain r where r: "r \<in> set (sn_rules a)" "spec_application (rule_spec r) \<noteq> None"
      by (auto simp: list_ex_iff)
    then have "\<not> entry_ok (rule_id r, rule_redacted_for_observer r)"
      by (auto simp: entry_ok_iff rule_redacted_for_observer_def reject_redacted_spec_def
          application_selector_redacted_def)
    then have "snapshot_validate (snapshot_redacted_for_observer a) \<noteq> Inr ()"
      using r(1) by (auto simp: snapshot_validate_Inr snapshot_redacted_for_observer_def list_all_iff)
    then show "\<not> is_ok (state_from_snapshot json (snapshot_redacted_for_observer a))"
      by (auto simp: state_from_snapshot_def is_ok_iff res_simps)
  qed
qed

definition sample_application :: application_selector where
  "sample_application = \<lparr>sel_executable = Some (ApplicationPath (ascii ''/usr/bin/curl'')),
     sel_executable_file = Some sample_file, sel_command_line = None, sel_uid = Some 1000,
     sel_cgroup = None, sel_metadata_redacted = False\<rparr>"

definition sample_application_rule :: rule where
  "sample_application_rule =
     sample_rule\<lparr>rule_spec := sample_spec\<lparr>spec_application := Some sample_application\<rparr>\<rparr>"

definition sample_application_snapshot :: snapshot where
  "sample_application_snapshot = \<lparr>sn_revision = 1, sn_flow_generation = 1, sn_mode = Enforcing,
     sn_rules = [sample_application_rule]\<rparr>"

definition sample_other_snapshot :: snapshot where
  "sample_other_snapshot = sample_application_snapshot\<lparr>sn_rules :=
     [sample_application_rule\<lparr>rule_spec := sample_spec\<lparr>spec_name := RuleName (ascii ''other''),
        spec_application := Some (sample_application\<lparr>sel_uid := Some 0\<rparr>)\<rparr>\<rparr>]\<rparr>"

lemma sample_snapshots_alike:
  "list_all2 differ_in_metadata (sn_rules sample_application_snapshot)
     (sn_rules sample_other_snapshot)"
  by (simp add: sample_application_snapshot_def sample_other_snapshot_def differ_in_metadata_def
      sample_application_rule_def)

lemma sample_snapshot_application:
  "list_ex (\<lambda>r. spec_application (rule_spec r) \<noteq> None) (sn_rules sample_application_snapshot)"
  by (simp add: sample_application_snapshot_def sample_application_rule_def)

theorem observer_noninterference_witness:
  "snapshot_redacted_for_observer sample_application_snapshot =
     snapshot_redacted_for_observer sample_other_snapshot
   \<and> \<not> is_ok (state_from_snapshot quiet_json
        (snapshot_redacted_for_observer sample_application_snapshot))"
proof -
  have "sn_revision sample_application_snapshot = sn_revision sample_other_snapshot"
    "sn_flow_generation sample_application_snapshot = sn_flow_generation sample_other_snapshot"
    "sn_mode sample_application_snapshot = sn_mode sample_other_snapshot"
    by (simp_all add: sample_other_snapshot_def)
  from observer_noninterference [OF sample_snapshots_alike this, of quiet_json]
  show ?thesis using sample_snapshot_application by blast
qed

section \<open>Pages\<close>

lemma rules_after_eq:
  assumes "state_inv s"
  shows "rules_after s cursor =
    filter (\<lambda>r. is_none_or cursor (\<lambda>k. k < rule_id r)) (omap_values (st_rules s))"
proof -
  have ids: "fst p = rule_id (snd p)" if "p \<in> set (st_rules s)" for p
  proof -
    have "entry_ok p" using that assms by (auto simp: state_inv_def list_all_iff)
    then show ?thesis by (cases p) (simp add: entry_ok_iff)
  qed
  have "omap_after cursor (st_rules s) =
      filter ((\<lambda>r. is_none_or cursor (\<lambda>k. k < rule_id r)) \<circ> snd) (st_rules s)"
    using assms ids by (auto simp: omap_after_filter intro!: filter_cong)
  then show ?thesis by (simp add: rules_after_def omap_values_def filter_map)
qed

lemma rules_after_sorted:
  assumes "state_inv s"
  shows "sorted_wrt (\<lambda>r q. rule_id r < rule_id q) (rules_after s cursor)"
proof -
  have "sorted_wrt (<) (map rule_id (omap_values (st_rules s)))"
    using assms by (simp add: state_inv_def state_inv_keys omap_wf_def)
  then show ?thesis
    using assms by (simp add: rules_after_eq sorted_wrt_map sorted_wrt_filter)
qed

section \<open>The packet path\<close>

definition needs_attribution :: "rule \<Rightarrow> bool" where
  "needs_attribution r \<longleftrightarrow>
     spec_enabled (rule_spec r) \<and> spec_direction (rule_spec r) = Outbound
     \<and> spec_application (rule_spec r) \<noteq> None"

lemma classify_enforcing_Cons:
  "classify_enforcing i (r # rs) =
     (if needs_attribution r
      then if spec_protocol (rule_spec r) = Tcp then classify_enforcing TcpInitial rs else PerPacket
      else classify_enforcing i rs)"
  by (cases "spec_protocol (rule_spec r)") (auto simp: needs_attribution_def)

lemma classify_enforcing_eq:
  "classify_enforcing i rs =
     (if \<exists>r\<in>set rs. needs_attribution r \<and> spec_protocol (rule_spec r) \<noteq> Tcp then PerPacket
      else if \<exists>r\<in>set rs. needs_attribution r then TcpInitial else i)"
proof (induction rs arbitrary: i)
  case (Cons r rs)
  then show ?case
    by (cases "needs_attribution r"; cases "spec_protocol (rule_spec r) = Tcp")
      (simp_all add: classify_enforcing_Cons del: classify_enforcing.simps)
qed simp

text \<open>The classification loop with its early return computes its
  declarative meaning: in \<open>Enforcing\<close> the policy needs per-packet attribution exactly
  when some enabled outbound application rule is not TCP-only, needs it for initial TCP
  packets when all of them are TCP, and needs none without such a rule; \<open>BlockAll\<close>
  never needs it and \<open>Learning\<close> always does.\<close>

theorem application_interception_meaning:
  "classify_application_interception m rs =
     (case m of
        BlockAll \<Rightarrow> InterceptNone
      | Learning \<Rightarrow> PerPacket
      | Enforcing \<Rightarrow>
          if \<exists>r\<in>set rs. needs_attribution r \<and> spec_protocol (rule_spec r) \<noteq> Tcp then PerPacket
          else if \<exists>r\<in>set rs. needs_attribution r then TcpInitial
          else InterceptNone)"
  by (simp add: classify_application_interception_def classify_enforcing_eq split: mode.splits)

end
