(* ===== verification/Auto_Learning.thy ===== *)
theory Auto_Learning
  imports Policy_Invariant "HOL-Library.AList"
begin

text \<open>
  Automatic learning: the count budgets of
  \<open>src/crates/openshield-core/src/learning_limits.rs\<close> and the learning operations of
  \<open>src/crates/openshield-core/src/state.rs\<close>, that is the insertion of learned rules and
  of disabled application-wide templates, the two batch loops, the migration that adds
  missing templates under a byte budget, and the admission index the packet path consults.

  \<open>IpNet::from(IpAddr)\<close> belongs to the \<open>ipnet\<close> crate and is the parameter \<open>net_from\<close>.
  Every created rule draws an identifier and a time: \<open>draws n\<close> is the pair drawn for the
  n-th creation of a batch. A \<open>HashMap\<close> of counters is an association list and a
  \<open>HashSet\<close> a set; neither is iterated in an order that the result depends on.
\<close>

section \<open>Limits\<close>

record learning_limits =
  ll_per_uid :: nat
  ll_per_application :: nat

datatype learning_limits_error = LearningLimitsError

definition learning_limits_new :: "nat \<Rightarrow> nat \<Rightarrow> learning_limits_error + learning_limits" where
  "learning_limits_new per_uid per_application =
     (if per_application = 0 \<or> per_uid < per_application \<or> MAX_AUTOMATIC_LEARNED_RULES < per_uid
      then Inl LearningLimitsError
      else Inr \<lparr>ll_per_uid = per_uid, ll_per_application = per_application\<rparr>)"

definition learning_limits_default :: learning_limits where
  "learning_limits_default = \<lparr>ll_per_uid = 4096, ll_per_application = 1024\<rparr>"

record learning_quota_summary =
  qs_automatic_rules :: nat
  qs_saturated_uids :: nat
  qs_saturated_applications :: nat

section \<open>Counters in a hash map\<close>

text \<open>\<open>*map.entry(k).or_default() += 1\<close> and \<open>map.get(&k).copied().unwrap_or_default()\<close>.\<close>

definition entry_increment :: "'k \<Rightarrow> ('k \<times> nat) list \<Rightarrow> ('k \<times> nat) list" where
  "entry_increment k m = AList.map_default k 1 Suc m"

definition entry_count :: "('k \<times> nat) list \<Rightarrow> 'k \<Rightarrow> nat" where
  "entry_count m k = (case map_of m k of None \<Rightarrow> 0 | Some n \<Rightarrow> n)"

section \<open>Keys\<close>

record learned_rule_key =
  lk_protocol :: transport_protocol
  lk_peer_network :: "ip_net option"
  lk_port :: "port_range option"
  lk_interface :: "interface_name option"
  lk_application :: "application_selector option"

record application_template_key =
  tk_executable :: application_path
  tk_cgroup :: "cgroup_path option"

record learn_outcome =
  lo_rule :: rule
  lo_event :: "event option"

definition APPLICATION_GROUP_TEMPLATE_NAME :: ustring where
  "APPLICATION_GROUP_TEMPLATE_NAME = ascii ''application-wide template''"

definition is_automatic_rule :: "rule \<Rightarrow> bool" where
  "is_automatic_rule r \<longleftrightarrow>
     spec_origin (rule_spec r) = Learned \<or> spec_origin (rule_spec r) = Template"

definition is_learned_outbound :: "rule \<Rightarrow> bool" where
  "is_learned_outbound r \<longleftrightarrow>
     spec_origin (rule_spec r) = Learned \<and> spec_direction (rule_spec r) = Outbound"

definition template_key_from_selector ::
    "application_selector \<Rightarrow> validation_error + application_template_key" where
  "template_key_from_selector sel =
     bindE (ok_or (InvalidApplicationSelector ApplicationSelectorNeedsExecutable)
             (sel_executable sel))
    (\<lambda>executable. Inr \<lparr>tk_executable = executable, tk_cgroup = sel_cgroup sel\<rparr>)"

definition template_key_from_template :: "rule \<Rightarrow> application_template_key option" where
  "template_key_from_template r =
     (case spec_application (rule_spec r) of
        None \<Rightarrow> None
      | Some selector \<Rightarrow>
          if spec_origin (rule_spec r) \<noteq> Template \<or> spec_direction (rule_spec r) \<noteq> Outbound
             \<or> sel_metadata_redacted selector
          then None
          else res_ok (template_key_from_selector selector))"

definition key_from_endpoint :: "(ip_addr \<Rightarrow> ip_net) \<Rightarrow> learned_endpoint \<Rightarrow> learned_rule_key" where
  "key_from_endpoint net_from e =
     \<lparr>lk_protocol = le_protocol e, lk_peer_network = Some (net_from (le_address e)),
      lk_port = le_port e, lk_interface = le_interface e, lk_application = None\<rparr>"

definition key_from_application_endpoint ::
    "(ip_addr \<Rightarrow> ip_net) \<Rightarrow> learned_application_endpoint \<Rightarrow> learned_rule_key" where
  "key_from_application_endpoint net_from e =
     \<lparr>lk_protocol = le_protocol (lae_endpoint e),
      lk_peer_network = Some (net_from (le_address (lae_endpoint e))),
      lk_port = le_port (lae_endpoint e), lk_interface = le_interface (lae_endpoint e),
      lk_application = Some (lae_application e)\<rparr>"

definition key_from_rule :: "rule \<Rightarrow> learned_rule_key" where
  "key_from_rule r =
     \<lparr>lk_protocol = spec_protocol (rule_spec r), lk_peer_network = spec_peer_network (rule_spec r),
      lk_port = spec_port (rule_spec r), lk_interface = spec_interface (rule_spec r),
      lk_application = spec_application (rule_spec r)\<rparr>"

section \<open>Insertions\<close>

type_synonym draw = "uuid \<times> timestamp"

definition create_rule ::
    "draw \<Rightarrow> rule_spec \<Rightarrow> state \<Rightarrow> (core_error + rule \<times> event) \<times> state" where
  "create_rule d spec s = create_rule_at (fst d) spec (snd d) s"

definition insert_application_group_template ::
    "draw \<Rightarrow> application_template_key \<Rightarrow> state \<Rightarrow> (core_error + learn_outcome) \<times> state" where
  "insert_application_group_template d key s =
     tryS (map_err (CoreValidation \<circ> InvalidApplicationSelector)
            (application_selector_new (Some (tk_executable key)) None None None (tk_cgroup key))) s
       (\<lambda>application.
     tryS (map_err CoreValidation (rule_name_new APPLICATION_GROUP_TEMPLATE_NAME)) s (\<lambda>nm.
     thenS (create_rule d
              \<lparr>spec_name = nm, spec_direction = Outbound, spec_action = Accept,
               spec_protocol = Any, spec_peer_network = None, spec_port = None,
               spec_interface = None, spec_application = Some application,
               spec_origin = Template, spec_enabled = False\<rparr> s) (\<lambda>(rule, event) s'.
     (Inr \<lparr>lo_rule = rule, lo_event = Some event\<rparr>, s'))))"

definition port_suffix :: "port_range option \<Rightarrow> ustring" where
  "port_suffix p =
     (case p of
        None \<Rightarrow> []
      | Some r \<Rightarrow>
          if pr_start r = pr_end r then ascii '':'' @ dec_string (unat (pr_start r))
          else ascii '':'' @ dec_string (unat (pr_start r)) @ ascii ''-''
               @ dec_string (unat (pr_end r)))"

definition learned_name :: "learned_endpoint \<Rightarrow> ustring" where
  "learned_name e =
     ascii ''learned '' @ display_protocol (le_protocol e) @ ascii '' ''
     @ display_ip (le_address e) @ port_suffix (le_port e)"

definition insert_learned_endpoint ::
    "(ip_addr \<Rightarrow> ip_net) \<Rightarrow> draw \<Rightarrow> learned_endpoint \<Rightarrow> application_selector option \<Rightarrow> state
     \<Rightarrow> (core_error + learn_outcome) \<times> state" where
  "insert_learned_endpoint net_from d e application s =
     tryS (map_err CoreValidation (rule_name_new (learned_name e))) s (\<lambda>nm.
     tryS (map_err CoreValidation
            (rule_spec_new nm Outbound (le_protocol e) (Some (net_from (le_address e)))
               (le_port e) (le_interface e) Learned True)) s (\<lambda>spec0.
     let spec = spec0\<lparr>spec_action := Accept, spec_application := application\<rparr> in
     tryS (map_err CoreValidation (rule_spec_validate spec)) s (\<lambda>_.
     thenS (create_rule d spec s) (\<lambda>(rule, event) s'.
     (Inr \<lparr>lo_rule = rule, lo_event = Some event\<rparr>, s')))))"

section \<open>Learning without applications\<close>

definition automatic_count :: "state \<Rightarrow> nat" where
  "automatic_count s = length (filter is_automatic_rule (omap_values (st_rules s)))"

definition learn_endpoint ::
    "(ip_addr \<Rightarrow> ip_net) \<Rightarrow> draw \<Rightarrow> learned_endpoint \<Rightarrow> state
     \<Rightarrow> (core_error + learn_outcome) \<times> state" where
  "learn_endpoint net_from d e s =
     tryS (map_err CoreValidation (learned_endpoint_validate e)) s (\<lambda>_.
     case find (\<lambda>r. is_learned_outbound r \<and> key_from_rule r = key_from_endpoint net_from e)
            (omap_values (st_rules s)) of
       Some rule \<Rightarrow> (Inr \<lparr>lo_rule = rule, lo_event = None\<rparr>, s)
     | None \<Rightarrow>
         tryS (fail_if (MAX_AUTOMATIC_LEARNED_RULES \<le> automatic_count s)
                (RulesLimitReached MAX_AUTOMATIC_LEARNED_RULES)) s (\<lambda>_.
         insert_learned_endpoint net_from d e None s))"

text \<open>The budget of a batch. \<open>MAX_RULES - self.rules.len()\<close> is an unchecked subtraction in
  the source; a validated state holds at most \<open>MAX_RULES\<close> rules, so it never underflows.\<close>

definition batch_budget :: "nat \<Rightarrow> state \<Rightarrow> nat" where
  "batch_budget maximum_new s =
     min (min maximum_new (MAX_RULES - length (st_rules s)))
       (MAX_AUTOMATIC_LEARNED_RULES - automatic_count s)"

definition known_learned_keys :: "state \<Rightarrow> learned_rule_key set" where
  "known_learned_keys s =
     set (map key_from_rule (filter is_learned_outbound (omap_values (st_rules s))))"

fun learn_endpoints_loop ::
    "(ip_addr \<Rightarrow> ip_net) \<Rightarrow> (nat \<Rightarrow> draw) \<Rightarrow> nat \<Rightarrow> learned_endpoint list \<Rightarrow> learned_rule_key set
     \<Rightarrow> learn_outcome list \<Rightarrow> state \<Rightarrow> (core_error + learn_outcome list) \<times> state" where
  "learn_endpoints_loop net_from draws maximum_new [] known outcomes s = (Inr outcomes, s)"
| "learn_endpoints_loop net_from draws maximum_new (e # es) known outcomes s =
     (let key = key_from_endpoint net_from e in
      if key \<in> known then learn_endpoints_loop net_from draws maximum_new es known outcomes s
      else if maximum_new \<le> length outcomes then (Inr outcomes, s)
      else thenS (insert_learned_endpoint net_from (draws (length outcomes)) e None s)
             (\<lambda>outcome s'. learn_endpoints_loop net_from draws maximum_new es
                (insert key known) (outcomes @ [outcome]) s'))"

definition learn_new_endpoints ::
    "(ip_addr \<Rightarrow> ip_net) \<Rightarrow> (nat \<Rightarrow> draw) \<Rightarrow> learned_endpoint list \<Rightarrow> nat \<Rightarrow> state
     \<Rightarrow> (core_error + learn_outcome list) \<times> state" where
  "learn_new_endpoints net_from draws endpoints0 maximum_new s =
     (let endpoints = take MAX_RULES endpoints0 in
     tryS (map_err CoreValidation (for_each_ok learned_endpoint_validate endpoints)) s (\<lambda>_.
     learn_endpoints_loop net_from draws (batch_budget maximum_new s) endpoints
       (known_learned_keys s) [] s))"

section \<open>Learning with applications\<close>

definition known_template_keys :: "state \<Rightarrow> application_template_key set" where
  "known_template_keys s =
     set (List.map_filter template_key_from_template (omap_values (st_rules s)))"

text \<open>The identity a learned rule is charged to, if it names a user and a file.\<close>

definition charged_to :: "rule \<Rightarrow> (u32 \<times> executable_file_id) option" where
  "charged_to r =
     (case spec_application (rule_spec r) of
        None \<Rightarrow> None
      | Some application \<Rightarrow>
          (case (sel_uid application, sel_executable_file application) of
             (Some uid, Some file) \<Rightarrow> Some (uid, file)
           | _ \<Rightarrow> None))"

definition charge_uid :: "rule \<Rightarrow> (u32 \<times> nat) list \<Rightarrow> (u32 \<times> nat) list" where
  "charge_uid r m = (case charged_to r of None \<Rightarrow> m | Some (uid, file) \<Rightarrow> entry_increment uid m)"

definition charge_application ::
    "rule \<Rightarrow> ((u32 \<times> executable_file_id) \<times> nat) list \<Rightarrow> ((u32 \<times> executable_file_id) \<times> nat) list"
  where
  "charge_application r m = (case charged_to r of None \<Rightarrow> m | Some key \<Rightarrow> entry_increment key m)"

fun learn_applications_loop ::
    "(ip_addr \<Rightarrow> ip_net) \<Rightarrow> (nat \<Rightarrow> draw) \<Rightarrow> learning_limits \<Rightarrow> nat
     \<Rightarrow> learned_application_endpoint list \<Rightarrow> learned_rule_key set \<Rightarrow> application_template_key set
     \<Rightarrow> (u32 \<times> nat) list \<Rightarrow> ((u32 \<times> executable_file_id) \<times> nat) list
     \<Rightarrow> learn_outcome list \<Rightarrow> state \<Rightarrow> (core_error + learn_outcome list) \<times> state" where
  "learn_applications_loop net_from draws limits maximum_new [] known templates
     per_uid per_application outcomes s = (Inr outcomes, s)"
| "learn_applications_loop net_from draws limits maximum_new (learned # rest) known templates
     per_uid per_application outcomes s =
     (let key = key_from_application_endpoint net_from learned in
      if key \<in> known
      then learn_applications_loop net_from draws limits maximum_new rest known templates
             per_uid per_application outcomes s
      else
        tryS (map_err CoreValidation (template_key_from_selector (lae_application learned))) s
          (\<lambda>template_key.
        let needs_template = template_key \<notin> templates;
            required_slots = (if needs_template then 1 else 0) + 1 in
        if maximum_new < saturating_add_usize (length outcomes) required_slots
        then (Inr outcomes, s)
        else
          tryS (ok_or (CoreValidation (InvalidApplicationSelector IncompleteLearnedApplicationIdentity))
                 (sel_uid (lae_application learned))) s (\<lambda>uid.
          tryS (ok_or (CoreValidation (InvalidApplicationSelector IncompleteLearnedApplicationIdentity))
                 (sel_executable_file (lae_application learned))) s (\<lambda>file.
          if ll_per_uid limits \<le> entry_count per_uid uid
             \<or> ll_per_application limits \<le> entry_count per_application (uid, file)
          then learn_applications_loop net_from draws limits maximum_new rest known templates
                 per_uid per_application outcomes s
          else
            thenS (if needs_template
                   then thenS (insert_application_group_template (draws (length outcomes))
                                 template_key s)
                          (\<lambda>outcome s'. (Inr (outcomes @ [outcome]), s'))
                   else (Inr outcomes, s)) (\<lambda>outcomes' s'.
            thenS (insert_learned_endpoint net_from (draws (length outcomes'))
                     (lae_endpoint learned) (Some (lae_application learned)) s')
              (\<lambda>outcome s''.
            learn_applications_loop net_from draws limits maximum_new rest (insert key known)
              (insert template_key templates) (entry_increment uid per_uid)
              (entry_increment (uid, file) per_application) (outcomes' @ [outcome]) s''))))))"

definition learn_new_application_endpoints_with_limits ::
    "(ip_addr \<Rightarrow> ip_net) \<Rightarrow> (nat \<Rightarrow> draw) \<Rightarrow> learned_application_endpoint list \<Rightarrow> nat
     \<Rightarrow> learning_limits \<Rightarrow> state \<Rightarrow> (core_error + learn_outcome list) \<times> state" where
  "learn_new_application_endpoints_with_limits net_from draws endpoints0 maximum_new limits s =
     (let endpoints = take MAX_RULES endpoints0;
          learned = filter is_learned_outbound (omap_values (st_rules s)) in
     tryS (map_err (CoreValidation \<circ> InvalidApplicationSelector)
            (for_each_ok learned_application_endpoint_validate endpoints)) s (\<lambda>_.
     learn_applications_loop net_from draws limits (batch_budget maximum_new s) endpoints
       (known_learned_keys s) (known_template_keys s)
       (fold charge_uid learned []) (fold charge_application learned []) [] s))"

definition learn_new_application_endpoints ::
    "(ip_addr \<Rightarrow> ip_net) \<Rightarrow> (nat \<Rightarrow> draw) \<Rightarrow> learned_application_endpoint list \<Rightarrow> nat
     \<Rightarrow> state \<Rightarrow> (core_error + learn_outcome list) \<times> state" where
  "learn_new_application_endpoints net_from draws endpoints maximum_new s =
     learn_new_application_endpoints_with_limits net_from draws endpoints maximum_new
       learning_limits_default s"

section \<open>Template migration\<close>

definition serialized_rule_map_entry_delta ::
    "state json \<Rightarrow> rule \<Rightarrow> u64 \<Rightarrow> u64 \<Rightarrow> bool \<Rightarrow> core_error + nat" where
  "serialized_rule_map_entry_delta json rule previous_revision current_revision had_rules =
     bindE (map_err StateSerialization (json_rule_len json rule)) (\<lambda>rule_size.
     let key_and_separator_size = saturating_add_usize 36 3;
         comma_size = (if had_rules then 1 else 0);
         previous_revision_size = length (dec_string (unat previous_revision));
         current_revision_size = length (dec_string (unat current_revision))
     in ok_or (StateSerialization (ascii ''state size arithmetic overflowed''))
          (Option.bind (checked_add_usize rule_size key_and_separator_size) (\<lambda>size.
           Option.bind (checked_add_usize size comma_size) (\<lambda>size.
           Option.bind (checked_add_usize size current_revision_size) (\<lambda>size.
           checked_sub_usize size previous_revision_size)))))"

text \<open>\<open>filter(|key| known.insert(key.clone()))\<close> keeps the first occurrence of every key
  that is not known yet.\<close>

fun fresh_keys :: "'a set \<Rightarrow> 'a list \<Rightarrow> 'a list" where
  "fresh_keys known [] = []"
| "fresh_keys known (k # ks) =
     (if k \<in> known then fresh_keys known ks else k # fresh_keys (insert k known) ks)"

definition template_groups :: "state \<Rightarrow> application_template_key list" where
  "template_groups s =
     fresh_keys (known_template_keys s)
       (List.map_filter (\<lambda>selector. res_ok (template_key_from_selector selector))
         (List.map_filter (\<lambda>r. spec_application (rule_spec r))
           (filter is_learned_outbound (omap_values (st_rules s)))))"

definition roll_back :: "rule \<Rightarrow> u64 \<Rightarrow> u32 \<Rightarrow> state \<Rightarrow> state" where
  "roll_back rule previous_revision previous_flow_generation s =
     s\<lparr>st_rules := omap_remove (rule_id rule) (st_rules s), st_revision := previous_revision,
       st_flow_generation := previous_flow_generation\<rparr>"

fun ensure_templates_loop ::
    "state json \<Rightarrow> (nat \<Rightarrow> draw) \<Rightarrow> nat \<Rightarrow> application_template_key list \<Rightarrow> nat
     \<Rightarrow> learn_outcome list \<Rightarrow> state \<Rightarrow> (core_error + learn_outcome list) \<times> state" where
  "ensure_templates_loop json draws maximum_state_bytes [] serialized_size outcomes s =
     (Inr outcomes, s)"
| "ensure_templates_loop json draws maximum_state_bytes (grp # groups) serialized_size outcomes s =
     thenS (insert_application_group_template (draws (length outcomes)) grp s) (\<lambda>outcome s'.
     case serialized_rule_map_entry_delta json (lo_rule outcome) (st_revision s) (st_revision s')
            (st_rules s \<noteq> []) of
       Inl error \<Rightarrow>
         (Inl error, roll_back (lo_rule outcome) (st_revision s) (st_flow_generation s) s')
     | Inr size_delta \<Rightarrow>
         let candidate_size = saturating_add_usize serialized_size size_delta in
         if maximum_state_bytes < candidate_size
         then (Inr outcomes, roll_back (lo_rule outcome) (st_revision s) (st_flow_generation s) s')
         else ensure_templates_loop json draws maximum_state_bytes groups candidate_size
                (outcomes @ [outcome]) s')"

definition ensure_application_group_templates_with_size_limit ::
    "state json \<Rightarrow> (nat \<Rightarrow> draw) \<Rightarrow> nat \<Rightarrow> nat \<Rightarrow> state
     \<Rightarrow> (core_error + learn_outcome list) \<times> state" where
  "ensure_application_group_templates_with_size_limit json draws maximum_new maximum_state_bytes s =
     tryS (bounded_serialized_state_size json s) s (\<lambda>serialized_size.
     ensure_templates_loop json draws maximum_state_bytes
       (take (batch_budget maximum_new s) (template_groups s)) serialized_size [] s)"

definition ensure_application_group_templates ::
    "state json \<Rightarrow> (nat \<Rightarrow> draw) \<Rightarrow> nat \<Rightarrow> state \<Rightarrow> (core_error + learn_outcome list) \<times> state"
  where
  "ensure_application_group_templates json draws maximum_new s =
     ensure_application_group_templates_with_size_limit json draws maximum_new MAX_STATE_BYTES s"

section \<open>Admission\<close>

datatype application_learning_admission = AlreadyKnown | Saturated | Candidate

record admission_index =
  ai_limits :: learning_limits
  ai_revision :: u64
  ai_flow_generation :: u32
  ai_mode :: mode
  ai_total_rule_count :: nat
  ai_learned_rule_count :: nat
  ai_known :: "learned_rule_key set"
  ai_known_templates :: "application_template_key set"
  ai_per_uid :: "(u32 \<times> nat) list"
  ai_per_application :: "((u32 \<times> executable_file_id) \<times> nat) list"

definition index_rule :: "rule \<Rightarrow> admission_index \<Rightarrow> admission_index" where
  "index_rule r ix =
     (if \<not> is_automatic_rule r then ix
      else
        let ix1 = ix\<lparr>ai_learned_rule_count := ai_learned_rule_count ix + 1,
                    ai_known_templates :=
                      (case template_key_from_template r of
                         None \<Rightarrow> ai_known_templates ix
                       | Some template \<Rightarrow> insert template (ai_known_templates ix))\<rparr>
        in if spec_origin (rule_spec r) \<noteq> Learned \<or> spec_direction (rule_spec r) \<noteq> Outbound
           then ix1
           else ix1\<lparr>ai_known := insert (key_from_rule r) (ai_known ix1),
                    ai_per_uid := charge_uid r (ai_per_uid ix1),
                    ai_per_application := charge_application r (ai_per_application ix1)\<rparr>)"

definition index_from_state :: "state \<Rightarrow> learning_limits \<Rightarrow> admission_index" where
  "index_from_state s limits =
     fold index_rule (omap_values (st_rules s))
       \<lparr>ai_limits = limits, ai_revision = st_revision s,
        ai_flow_generation = st_flow_generation s, ai_mode = st_mode s,
        ai_total_rule_count = length (st_rules s), ai_learned_rule_count = 0,
        ai_known = {}, ai_known_templates = {}, ai_per_uid = [], ai_per_application = []\<rparr>"

definition index_summary :: "admission_index \<Rightarrow> learning_quota_summary" where
  "index_summary ix =
     \<lparr>qs_automatic_rules = ai_learned_rule_count ix,
      qs_saturated_uids =
        length (filter (\<lambda>n. ll_per_uid (ai_limits ix) \<le> n) (map snd (ai_per_uid ix))),
      qs_saturated_applications =
        length (filter (\<lambda>n. ll_per_application (ai_limits ix) \<le> n)
          (map snd (ai_per_application ix)))\<rparr>"

definition index_classify ::
    "(ip_addr \<Rightarrow> ip_net) \<Rightarrow> admission_index \<Rightarrow> learned_application_endpoint
     \<Rightarrow> application_validation_error + application_learning_admission" where
  "index_classify net_from ix e =
     bindE (learned_application_endpoint_validate e) (\<lambda>_.
     if key_from_application_endpoint net_from e \<in> ai_known ix then Inr AlreadyKnown
     else
       bindE (ok_or IncompleteLearnedApplicationIdentity (sel_executable (lae_application e)))
         (\<lambda>executable.
       let template_key = \<lparr>tk_executable = executable, tk_cgroup = sel_cgroup (lae_application e)\<rparr>;
           required_slots = 1 + (if template_key \<notin> ai_known_templates ix then 1 else 0) in
       if MAX_RULES < saturating_add_usize (ai_total_rule_count ix) required_slots
          \<or> MAX_AUTOMATIC_LEARNED_RULES
             < saturating_add_usize (ai_learned_rule_count ix) required_slots
       then Inr Saturated
       else
         bindE (ok_or IncompleteLearnedApplicationIdentity (sel_uid (lae_application e))) (\<lambda>uid.
         bindE (ok_or IncompleteLearnedApplicationIdentity
                 (sel_executable_file (lae_application e))) (\<lambda>file.
         if ll_per_uid (ai_limits ix) \<le> entry_count (ai_per_uid ix) uid
            \<or> ll_per_application (ai_limits ix) \<le> entry_count (ai_per_application ix) (uid, file)
         then Inr Saturated
         else Inr Candidate))))"

end
