(* ===== verification/Learning_Properties.thy ===== *)
theory Learning_Properties
  imports Auto_Learning Snapshot_Properties
begin

text \<open>
  What automatic learning promises: an abstract specification of a learning run as an
  inductive relation (each step adds one rule, either a disabled template or a learned
  accept rule inside its budgets), the refinement of the batch loops to it, the budgets
  that every run respects, the agreement of the admission index with the loop it predicts,
  and the byte budget of the template migration.
\<close>

section \<open>Counters\<close>

lemma entry_count_increment [simp]:
  "entry_count (entry_increment k m) j = entry_count m j + (if j = k then 1 else 0)"
  by (auto simp: entry_count_def entry_increment_def map_of_map_default split: option.splits)

lemma entry_count_Nil [simp]: "entry_count [] k = 0"
  by (simp add: entry_count_def)

definition charged_uid :: "u32 \<Rightarrow> rule \<Rightarrow> bool" where
  "charged_uid uid r \<longleftrightarrow> is_some_and (charged_to r) (\<lambda>p. fst p = uid)"

definition uid_count :: "state \<Rightarrow> u32 \<Rightarrow> nat" where
  "uid_count s uid =
     length (filter (\<lambda>r. is_learned_outbound r \<and> charged_uid uid r) (omap_values (st_rules s)))"

definition application_count :: "state \<Rightarrow> u32 \<times> executable_file_id \<Rightarrow> nat" where
  "application_count s key =
     length (filter (\<lambda>r. is_learned_outbound r \<and> charged_to r = Some key)
       (omap_values (st_rules s)))"

lemma entry_count_charge_uid:
  "entry_count (charge_uid r m) uid = entry_count m uid + (if charged_uid uid r then 1 else 0)"
  by (auto simp: charge_uid_def charged_uid_def split: option.splits)

lemma entry_count_charge_application:
  "entry_count (charge_application r m) key =
     entry_count m key + (if charged_to r = Some key then 1 else 0)"
  by (auto simp: charge_application_def split: option.splits)

lemma fold_charge_uid:
  "entry_count (fold charge_uid rs m) uid = entry_count m uid + length (filter (charged_uid uid) rs)"
  by (induction rs arbitrary: m) (auto simp: entry_count_charge_uid)

lemma fold_charge_application:
  "entry_count (fold charge_application rs m) key =
     entry_count m key + length (filter (\<lambda>r. charged_to r = Some key) rs)"
  by (induction rs arbitrary: m) (auto simp: entry_count_charge_application)

section \<open>Adding one rule\<close>

definition added :: "rule \<Rightarrow> state \<Rightarrow> state \<Rightarrow> bool" where
  "added r s t \<longleftrightarrow>
     omap_get (st_rules s) (rule_id r) = None \<and> st_rules t = omap_insert (rule_id r) r (st_rules s)
     \<and> st_flow_generation t = st_flow_generation s \<and> st_mode t = st_mode s
     \<and> st_enforcement_strategy t = st_enforcement_strategy s
     \<and> st_revision s \<noteq> - 1 \<and> st_revision t = st_revision s + 1
     \<and> length (st_rules s) < MAX_RULES \<and> entry_ok (rule_id r, r)"

lemma added_inv: "state_inv s \<Longrightarrow> added r s t \<Longrightarrow> state_inv t"
  by (rule state_inv_put [of s "rule_id r" r "st_flow_generation s"])
    (auto simp: added_def state_inv_def)

lemma added_get:
  "state_inv s \<Longrightarrow> added r s t \<Longrightarrow>
     omap_get (st_rules t) k = (if k = rule_id r then Some r else omap_get (st_rules s) k)"
  by (simp add: added_def btree.get_put)

lemma added_length: "state_inv s \<Longrightarrow> added r s t \<Longrightarrow> length (st_rules t) = Suc (length (st_rules s))"
  by (simp add: added_def btree.size_put_fresh)

lemma added_count:
  "state_inv s \<Longrightarrow> added r s t \<Longrightarrow>
     length (filter P (omap_values (st_rules t))) =
     length (filter P (omap_values (st_rules s))) + (if P r then 1 else 0)"
  using btree.count_put_fresh [of "st_rules s" "rule_id r" P r]
  by (simp add: added_def omap_values_def)

lemma added_values:
  "state_inv s \<Longrightarrow> added r s t \<Longrightarrow>
     set (omap_values (st_rules t)) = insert r (set (omap_values (st_rules s)))"
proof -
  assume inv: "state_inv s" and add: "added r s t"
  have "fst p \<noteq> rule_id r" if "p \<in> set (st_rules s)" for p
    using that add inv btree.get_iff [of "st_rules s" "fst p" "snd p"] by (auto simp: added_def)
  then have "{p \<in> set (st_rules s). fst p \<noteq> rule_id r} = set (st_rules s)" by blast
  then show ?thesis
    using inv add by (simp add: added_def omap_values_def btree.set_put)
qed

lemma added_known_keys:
  "state_inv s \<Longrightarrow> added r s t \<Longrightarrow>
     known_learned_keys t =
     (if is_learned_outbound r then insert (key_from_rule r) (known_learned_keys s)
      else known_learned_keys s)"
  using added_values [of s r t] by (auto simp: known_learned_keys_def)

lemma added_template_keys:
  "state_inv s \<Longrightarrow> added r s t \<Longrightarrow>
     known_template_keys t = set_option (template_key_from_template r) \<union> known_template_keys s"
  using added_values [of s r t]
  by (auto simp: known_template_keys_def List.map_filter_def split: option.splits) force+

lemma create_rule_added:
  assumes "create_rule d spec s = (Inr (r, e), t)" "spec_enabled spec \<longrightarrow> spec_action spec = Accept"
  shows "added r s t \<and> rule_spec r = spec \<and> rule_id r = fst d"
  using assms(1) unfolding create_rule_def
proof (rule create_rule_at_Inr)
  fix r'
  assume r: "rule_with_id_and_time (fst d) spec (snd d) = Inr r'"
    and checks: "reject_redacted_spec spec = Inr ()" "reject_unpinned_application_spec spec = Inr ()"
      "length (st_rules s) < MAX_RULES" "omap_get (st_rules s) (fst d) = None"
      "st_mode t = st_mode s" "st_enforcement_strategy t = st_enforcement_strategy s"
      "st_revision s \<noteq> - 1" "st_revision t = st_revision s + 1"
      "st_rules t = omap_insert (fst d) r' (st_rules s)"
    and gen: "if spec_enabled spec \<and> spec_action spec \<noteq> Accept
         then next_flow_generation s = Inr (st_flow_generation t)
         else st_flow_generation t = st_flow_generation s"
    and x: "(r, e) = (r', \<lparr>ev_revision = st_revision t, ev_occurred_at = snd d,
         ev_kind = RuleCreated r'\<rparr>)"
  have "rule_spec r = spec" "rule_id r = fst d" "rule_validate r = Inr ()"
    using r x rule_with_id_and_time_valid [OF r] by (auto simp: rule_with_id_and_time_Inr)
  then show ?thesis
    using checks gen assms(2) x by (auto simp: added_def entry_ok_iff)
qed

definition template_spec :: "application_template_key \<Rightarrow> rule_spec" where
  "template_spec key =
     \<lparr>spec_name = RuleName APPLICATION_GROUP_TEMPLATE_NAME, spec_direction = Outbound,
      spec_action = Accept, spec_protocol = Any, spec_peer_network = None, spec_port = None,
      spec_interface = None,
      spec_application = Some \<lparr>sel_executable = Some (tk_executable key),
        sel_executable_file = None, sel_command_line = None, sel_uid = None,
        sel_cgroup = tk_cgroup key, sel_metadata_redacted = False\<rparr>,
      spec_origin = Template, spec_enabled = False\<rparr>"

lemma template_name_valid:
  "rule_name_new APPLICATION_GROUP_TEMPLATE_NAME = Inr (RuleName APPLICATION_GROUP_TEMPLATE_NAME)"
  by (rule printable_rule_name)
    (simp_all add: APPLICATION_GROUP_TEMPLATE_NAME_def ascii_def MAX_RULE_NAME_BYTES_def)

lemma insert_template_create:
  "insert_application_group_template d key s =
     thenS (create_rule d (template_spec key) s)
       (\<lambda>(rule, event) s'. (Inr \<lparr>lo_rule = rule, lo_event = Some event\<rparr>, s'))"
  by (simp add: insert_application_group_template_def application_selector_new_def
      application_selector_validate_def template_name_valid template_spec_def)

lemma insert_template_added:
  assumes "insert_application_group_template d key s = (Inr out, t)"
  shows "added (lo_rule out) s t \<and> rule_spec (lo_rule out) = template_spec key
    \<and> rule_id (lo_rule out) = fst d"
proof -
  obtain r e where "create_rule d (template_spec key) s = (Inr (r, e), t)" "lo_rule out = r"
    using assms by (auto simp: insert_template_create res_simps)
  then show ?thesis using create_rule_added by (simp add: template_spec_def)
qed

lemma insert_template_error:
  "insert_application_group_template d key s = (Inl e, t) \<Longrightarrow> t = s"
  by (auto simp: insert_template_create create_rule_def res_simps dest: create_rule_atomic)

definition learned_spec_of ::
    "(ip_addr \<Rightarrow> ip_net) \<Rightarrow> learned_endpoint \<Rightarrow> application_selector option \<Rightarrow> rule_spec" where
  "learned_spec_of net_from e application =
     \<lparr>spec_name = RuleName (learned_name e), spec_direction = Outbound, spec_action = Accept,
      spec_protocol = le_protocol e, spec_peer_network = Some (net_from (le_address e)),
      spec_port = le_port e, spec_interface = le_interface e, spec_application = application,
      spec_origin = Learned, spec_enabled = True\<rparr>"

lemma rule_name_new_Inr: "rule_name_new n = Inr x \<Longrightarrow> x = RuleName n"
  by (auto simp: rule_name_new_def res_simps)

lemma insert_learned_added:
  assumes "insert_learned_endpoint net_from d e application s = (Inr out, t)"
  shows "added (lo_rule out) s t
    \<and> rule_spec (lo_rule out) = learned_spec_of net_from e application
    \<and> rule_id (lo_rule out) = fst d"
proof -
  obtain r ev where "create_rule d (learned_spec_of net_from e application) s = (Inr (r, ev), t)"
    "lo_rule out = r"
    using assms
    by (auto simp: insert_learned_endpoint_def rule_spec_new_def res_simps Let_def
        learned_spec_of_def dest!: rule_name_new_Inr)
  then show ?thesis using create_rule_added by (simp add: learned_spec_of_def)
qed

lemma insert_learned_error: "insert_learned_endpoint net_from d e application s = (Inl er, t) \<Longrightarrow> t = s"
  by (auto simp: insert_learned_endpoint_def create_rule_def res_simps Let_def
      dest: create_rule_atomic)

section \<open>The abstract specification of a run\<close>

text \<open>One learning run: every step adds a single rule to the state. A template step adds a
  disabled group template that was missing; an endpoint step adds an enabled outbound
  accept rule for a destination that was not known, whose group template exists and whose
  user and executable still have budget.\<close>

inductive learning_run :: "learning_limits \<Rightarrow> nat \<Rightarrow> state \<Rightarrow> state \<Rightarrow> bool" for limits where
  run_done: "learning_run limits 0 s s"
| run_template:
    "added r s s' \<Longrightarrow> rule_spec r = template_spec key \<Longrightarrow> key \<notin> known_template_keys s \<Longrightarrow>
     learning_run limits n s' t \<Longrightarrow> learning_run limits (Suc n) s t"
| run_endpoint:
    "added r s s' \<Longrightarrow> rule_spec r = learned_spec_of net_from e (Some sel) \<Longrightarrow>
     key_from_rule r \<notin> known_learned_keys s \<Longrightarrow>
     template_key_from_selector sel = Inr key \<Longrightarrow> key \<in> known_template_keys s \<Longrightarrow>
     sel_uid sel = Some uid \<Longrightarrow> sel_executable_file sel = Some file \<Longrightarrow>
     uid_count s uid < ll_per_uid limits \<Longrightarrow>
     application_count s (uid, file) < ll_per_application limits \<Longrightarrow>
     learning_run limits n s' t \<Longrightarrow> learning_run limits (Suc n) s t"

lemma template_rule_facts:
  assumes "rule_spec r = template_spec key"
  shows "\<not> is_learned_outbound r" "is_automatic_rule r" "template_key_from_template r = Some key"
  using assms
  by (simp_all add: is_learned_outbound_def is_automatic_rule_def template_key_from_template_def
      template_key_from_selector_def template_spec_def)

lemma learned_rule_facts:
  assumes "rule_spec r = learned_spec_of net_from e application"
  shows "is_learned_outbound r" "is_automatic_rule r" "template_key_from_template r = None"
    "spec_action (rule_spec r) = Accept" "spec_application (rule_spec r) = application"
  using assms
  by (simp_all add: is_learned_outbound_def is_automatic_rule_def template_key_from_template_def
      learned_spec_of_def split: option.splits)

lemma charged_learned:
  "rule_spec r = learned_spec_of net_from e (Some sel) \<Longrightarrow> sel_uid sel = Some uid \<Longrightarrow>
     sel_executable_file sel = Some file \<Longrightarrow> charged_to r = Some (uid, file)"
  by (simp add: charged_to_def learned_spec_of_def)

definition learning_grows :: "state \<Rightarrow> state \<Rightarrow> bool" where
  "learning_grows s t \<longleftrightarrow>
     st_mode t = st_mode s \<and> st_flow_generation t = st_flow_generation s
     \<and> st_enforcement_strategy t = st_enforcement_strategy s
     \<and> (\<forall>k r. omap_get (st_rules s) k = Some r \<longrightarrow> omap_get (st_rules t) k = Some r)
     \<and> (\<forall>k r. omap_get (st_rules t) k = Some r \<longrightarrow>
          omap_get (st_rules s) k = Some r
          \<or> is_automatic_rule r \<and> spec_direction (rule_spec r) = Outbound
            \<and> spec_action (rule_spec r) = Accept)"

lemma learning_grows_refl [simp]: "learning_grows s s"
  by (simp add: learning_grows_def)

lemma learning_grows_trans: "learning_grows s t \<Longrightarrow> learning_grows t u \<Longrightarrow> learning_grows s u"
  unfolding learning_grows_def by metis

lemma added_grows:
  assumes "state_inv s" "added r s t" "is_automatic_rule r"
    and "spec_direction (rule_spec r) = Outbound" "spec_action (rule_spec r) = Accept"
  shows "learning_grows s t"
  using assms added_get [OF assms(1,2)]
  by (auto simp: learning_grows_def added_def split: if_splits)

lemma template_added_grows:
  "state_inv s \<Longrightarrow> added r s t \<Longrightarrow> rule_spec r = template_spec key \<Longrightarrow> learning_grows s t"
  using added_grows [of s r t] by (auto simp: is_automatic_rule_def template_spec_def)

lemma learned_added_grows:
  "state_inv s \<Longrightarrow> added r s t \<Longrightarrow> rule_spec r = learned_spec_of net_from e app \<Longrightarrow> learning_grows s t"
  using added_grows [of s r t] by (auto simp: is_automatic_rule_def learned_spec_of_def)

lemma run_keeps:
  assumes "learning_run limits n s t" "state_inv s"
  shows "state_inv t \<and> learning_grows s t
    \<and> length (st_rules t) = length (st_rules s) + n \<and> automatic_count t = automatic_count s + n"
  using assms
proof (induction rule: learning_run.induct)
  case (run_template r s s' key n t)
  then show ?case
    using added_inv [of s r s'] template_added_grows [of s r s'] added_length [of s r s']
      added_count [of s r s' is_automatic_rule] template_rule_facts(2) [of r key]
    by (auto simp: automatic_count_def intro: learning_grows_trans)
next
  case (run_endpoint r s s' net_from e sel key uid fl n t)
  then show ?case
    using added_inv [of s r s'] learned_added_grows [of s r s'] added_length [of s r s']
      added_count [of s r s' is_automatic_rule] learned_rule_facts(2) [of r net_from e "Some sel"]
    by (auto simp: automatic_count_def intro: learning_grows_trans)
qed simp

lemma template_added_counts:
  assumes "state_inv s" "added r s t" "rule_spec r = template_spec key"
  shows "uid_count t uid = uid_count s uid" "application_count t app = application_count s app"
  using assms added_count [OF assms(1,2)] template_rule_facts(1) [OF assms(3)]
  by (simp_all add: uid_count_def application_count_def)

lemma learned_added_counts:
  assumes "state_inv s" "added r s t" "rule_spec r = learned_spec_of net_from e (Some sel)"
    and "sel_uid sel = Some uid" "sel_executable_file sel = Some file"
  shows "uid_count t u = uid_count s u + (if u = uid then 1 else 0)"
    "application_count t app = application_count s app + (if app = (uid, file) then 1 else 0)"
  using added_count [OF assms(1,2)] learned_rule_facts(1) [OF assms(3)] charged_learned [OF assms(3-5)]
  by (auto simp: uid_count_def application_count_def charged_uid_def)

lemma run_quota:
  assumes "learning_run limits n s t" "state_inv s"
  shows "uid_count t uid \<le> max (uid_count s uid) (ll_per_uid limits)
    \<and> application_count t app \<le> max (application_count s app) (ll_per_application limits)"
  using assms
proof (induction rule: learning_run.induct)
  case (run_template r s s' key n t)
  then show ?case
    using added_inv [of s r s'] template_added_counts [of s r s' key] by simp
next
  case (run_endpoint r s s' net_from e sel key u fl n t)
  note counts = learned_added_counts [OF run_endpoint.prems run_endpoint.hyps(1,2,6,7)]
  have "state_inv s'" using run_endpoint.prems run_endpoint.hyps(1) added_inv by blast
  then show ?case
    using run_endpoint.IH run_endpoint.hyps(8,9) counts(1) [of uid] counts(2) [of app]
    by (auto split: if_splits)
qed simp

text \<open>Every learned application rule has the template of its group.\<close>

definition groups_covered :: "state \<Rightarrow> bool" where
  "groups_covered s \<longleftrightarrow>
     list_all (\<lambda>r. is_none_or (spec_application (rule_spec r))
         (\<lambda>sel. is_none_or (res_ok (template_key_from_selector sel)) (\<lambda>k. k \<in> known_template_keys s)))
       (filter is_learned_outbound (omap_values (st_rules s)))"

lemma groups_covered_iff:
  "groups_covered s \<longleftrightarrow>
     (\<forall>r\<in>set (omap_values (st_rules s)). is_learned_outbound r \<longrightarrow>
        (\<forall>sel key. spec_application (rule_spec r) = Some sel \<longrightarrow>
           template_key_from_selector sel = Inr key \<longrightarrow> key \<in> known_template_keys s))"
  by (auto simp: groups_covered_def list_all_iff is_none_or_iff res_simps)

lemma run_covered:
  assumes "learning_run limits n s t" "state_inv s" "groups_covered s"
  shows "groups_covered t"
  using assms
proof (induction rule: learning_run.induct)
  case (run_template r s s' key n t)
  have "groups_covered s'"
    using run_template.hyps(1) run_template.prems template_rule_facts(1) [OF run_template.hyps(2)]
      added_values [of s r s'] added_template_keys [of s r s'] by (auto simp: groups_covered_iff)
  then show ?case using run_template added_inv by blast
next
  case (run_endpoint r s s' net_from e sel key uid fl n t)
  have "spec_application (rule_spec r) = Some sel"
    using learned_rule_facts(5) [OF run_endpoint.hyps(2)] .
  then have "groups_covered s'"
    using run_endpoint.hyps(1,4,5) run_endpoint.prems
      added_values [of s r s'] added_template_keys [of s r s'] by (auto simp: groups_covered_iff)
  then show ?case using run_endpoint added_inv by blast
qed

section \<open>The batch loop refines the specification\<close>

text \<open>What the loop keeps in its local indices.\<close>

definition indices_of ::
    "state \<Rightarrow> learned_rule_key set \<Rightarrow> application_template_key set \<Rightarrow> (u32 \<times> nat) list
     \<Rightarrow> ((u32 \<times> executable_file_id) \<times> nat) list \<Rightarrow> bool" where
  "indices_of s known templates per_uid per_application \<longleftrightarrow>
     known = known_learned_keys s \<and> templates = known_template_keys s
     \<and> entry_count per_uid = uid_count s \<and> entry_count per_application = application_count s"

lemma indices_template:
  assumes "state_inv s" "added r s t" "rule_spec r = template_spec key"
    and "indices_of s known templates pu pa"
  shows "indices_of t known (insert key templates) pu pa"
proof -
  note f = template_rule_facts [OF assms(3)]
  have "entry_count pu = uid_count t" "entry_count pa = application_count t"
    using assms(4) template_added_counts [OF assms(1-3)] by (auto simp: indices_of_def)
  then show ?thesis
    using assms(4) f added_known_keys [OF assms(1,2)] added_template_keys [OF assms(1,2)]
    by (simp add: indices_of_def)
qed

lemma indices_learned:
  assumes "state_inv s" "added r s t" "rule_spec r = learned_spec_of net_from e (Some sel)"
    and "sel_uid sel = Some uid" "sel_executable_file sel = Some fl"
    and "indices_of s known templates pu pa"
  shows "indices_of t (insert (key_from_rule r) known) templates
    (entry_increment uid pu) (entry_increment (uid, fl) pa)"
proof -
  note f = learned_rule_facts [OF assms(3)]
  have "entry_count (entry_increment uid pu) = uid_count t"
    "entry_count (entry_increment (uid, fl) pa) = application_count t"
    using assms(6) learned_added_counts [OF assms(1-5)]
    by (auto simp: indices_of_def fun_eq_iff)
  then show ?thesis
    using assms(6) f added_known_keys [OF assms(1,2)] added_template_keys [OF assms(1,2)]
    by (simp add: indices_of_def)
qed

lemma learned_rule_key:
  "rule_spec r = learned_spec_of net_from (lae_endpoint e) (Some (lae_application e)) \<Longrightarrow>
     key_from_rule r = key_from_application_endpoint net_from e"
  by (simp add: key_from_rule_def key_from_application_endpoint_def learned_spec_of_def)

definition run_result ::
    "learning_limits \<Rightarrow> nat \<Rightarrow> learn_outcome list \<Rightarrow> state \<Rightarrow> (core_error + learn_outcome list) \<times> state \<Rightarrow> bool"
  where
  "run_result limits m outs s res \<longleftrightarrow>
     (\<exists>n. length outs + n \<le> m \<and> learning_run limits n s (snd res)
        \<and> (\<forall>os. fst res = Inr os \<longrightarrow> length os = length outs + n))"

lemma run_result_stop: "length outs \<le> m \<Longrightarrow> run_result limits m outs s (Inr outs, s)"
  by (auto simp: run_result_def intro!: exI [of _ 0] run_done)

lemma run_result_error: "length outs \<le> m \<Longrightarrow> run_result limits m outs s (Inl e, s)"
  by (auto simp: run_result_def intro!: exI [of _ 0] run_done)

lemma run_result_template:
  assumes "run_result limits m (outs @ [out]) s' res"
    and "added r s s'" "rule_spec r = template_spec key" "key \<notin> known_template_keys s"
  shows "run_result limits m outs s res"
proof -
  from assms(1) obtain n where n: "length (outs @ [out]) + n \<le> m" "learning_run limits n s' (snd res)"
    "\<forall>os. fst res = Inr os \<longrightarrow> length os = length (outs @ [out]) + n"
    by (auto simp: run_result_def)
  then have "learning_run limits (Suc n) s (snd res)"
    using assms(2-4) by (blast intro: run_template)
  then show ?thesis using n by (auto simp: run_result_def intro!: exI [of _ "Suc n"])
qed

lemma run_result_endpoint:
  assumes "run_result limits m (outs @ [out]) s' res"
    and "added r s s'" "rule_spec r = learned_spec_of net_from e (Some sel)"
    and "key_from_rule r \<notin> known_learned_keys s"
    and "template_key_from_selector sel = Inr key" "key \<in> known_template_keys s"
    and "sel_uid sel = Some uid" "sel_executable_file sel = Some fl"
    and "uid_count s uid < ll_per_uid limits"
    and "application_count s (uid, fl) < ll_per_application limits"
  shows "run_result limits m outs s res"
proof -
  from assms(1) obtain n where n: "length (outs @ [out]) + n \<le> m" "learning_run limits n s' (snd res)"
    "\<forall>os. fst res = Inr os \<longrightarrow> length os = length (outs @ [out]) + n"
    by (auto simp: run_result_def)
  then have "learning_run limits (Suc n) s (snd res)"
    using run_endpoint [OF assms(2-10)] by blast
  then show ?thesis using n by (auto simp: run_result_def intro!: exI [of _ "Suc n"])
qed

text \<open>One endpoint after its template exists.\<close>

lemma endpoint_stage:
  assumes inv: "state_inv s" and ix: "indices_of s known templates pu pa"
    and new: "key_from_application_endpoint net_from e \<notin> known"
    and tk: "template_key_from_selector (lae_application e) = Inr tk" "tk \<in> templates"
    and ident: "sel_uid (lae_application e) = Some uid"
      "sel_executable_file (lae_application e) = Some fl"
    and quota: "entry_count pu uid < ll_per_uid limits"
      "entry_count pa (uid, fl) < ll_per_application limits"
    and room: "length outs < m"
    and rest: "\<And>out s'. state_inv s' \<Longrightarrow>
      indices_of s' (insert (key_from_application_endpoint net_from e) known) templates
        (entry_increment uid pu) (entry_increment (uid, fl) pa) \<Longrightarrow>
      length (outs @ [out]) \<le> m \<Longrightarrow> run_result limits m (outs @ [out]) s' (k out s')"
  shows "run_result limits m outs s
    (thenS (insert_learned_endpoint net_from d (lae_endpoint e) (Some (lae_application e)) s) k)"
proof (cases "insert_learned_endpoint net_from d (lae_endpoint e) (Some (lae_application e)) s")
  case (Pair r s')
  show ?thesis
  proof (cases r)
    case (Inl er)
    then have "s' = s" using Pair insert_learned_error by blast
    then show ?thesis using Pair Inl room by (simp add: run_result_error)
  next
    case (Inr out)
    from insert_learned_added [OF Pair [unfolded Inr]]
    have add1: "added (lo_rule out) s s'" and
      spec: "rule_spec (lo_rule out) = learned_spec_of net_from (lae_endpoint e) (Some (lae_application e))"
      by blast+
    have key: "key_from_rule (lo_rule out) = key_from_application_endpoint net_from e"
      by (rule learned_rule_key [OF spec])
    have len: "length (outs @ [out]) \<le> m" using room by simp
    have fin: "run_result limits m (outs @ [out]) s' (k out s')"
      by (rule rest [OF added_inv [OF inv add1]
            indices_learned [OF inv add1 spec ident ix, unfolded key] len])
    have fresh: "key_from_rule (lo_rule out) \<notin> known_learned_keys s"
      using key new ix by (simp add: indices_of_def)
    have quota': "uid_count s uid < ll_per_uid limits"
      "application_count s (uid, fl) < ll_per_application limits" "tk \<in> known_template_keys s"
      using quota tk(2) ix by (simp_all add: indices_of_def)
    have "run_result limits m outs s (k out s')"
      by (rule run_result_endpoint [OF fin add1 spec fresh tk(1) quota'(3) ident quota'(1,2)])
    then show ?thesis using Pair Inr by simp
  qed
qed

text \<open>One endpoint with the template it may need first.\<close>

lemma template_stage:
  assumes inv: "state_inv s" and ix: "indices_of s known templates pu pa"
    and new: "key_from_application_endpoint net_from e \<notin> known"
    and tk: "template_key_from_selector (lae_application e) = Inr tk"
    and ident: "sel_uid (lae_application e) = Some uid"
      "sel_executable_file (lae_application e) = Some fl"
    and quota: "entry_count pu uid < ll_per_uid limits"
      "entry_count pa (uid, fl) < ll_per_application limits"
    and room: "length outs + (if tk \<in> templates then 1 else 2) \<le> m"
    and rest: "\<And>outs' s'. state_inv s' \<Longrightarrow>
      indices_of s' (insert (key_from_application_endpoint net_from e) known) (insert tk templates)
        (entry_increment uid pu) (entry_increment (uid, fl) pa) \<Longrightarrow>
      length outs' \<le> m \<Longrightarrow> run_result limits m outs' s' (k outs' s')"
  shows "run_result limits m outs s
    (thenS (if tk \<notin> templates
            then thenS (insert_application_group_template (draws (length outs)) tk s)
                   (\<lambda>out s'. (Inr (outs @ [out]), s'))
            else (Inr outs, s)) (\<lambda>outs' s'.
     thenS (insert_learned_endpoint net_from (draws (length outs')) (lae_endpoint e)
              (Some (lae_application e)) s') (\<lambda>out s''. k (outs' @ [out]) s'')))"
proof (cases "tk \<in> templates")
  case True
  then have "insert tk templates = templates" by (rule insert_absorb)
  then show ?thesis
    using True room rest
    by (simp add: endpoint_stage [OF inv ix new tk True ident quota])
next
  case missing: False
  obtain r s1 where ins: "insert_application_group_template (draws (length outs)) tk s = (r, s1)"
    by (cases "insert_application_group_template (draws (length outs)) tk s")
  show ?thesis
  proof (cases r)
    case (Inl er)
    then have "s1 = s" using ins insert_template_error by blast
    then show ?thesis using ins Inl missing room by (simp add: run_result_error)
  next
    case (Inr out)
    from insert_template_added [OF ins [unfolded Inr]]
    have add: "added (lo_rule out) s s1" "rule_spec (lo_rule out) = template_spec tk"
      by blast+
    have fresh: "tk \<notin> known_template_keys s" using missing ix by (simp add: indices_of_def)
    have room1: "length (outs @ [out]) < m" using room missing by simp
    have "run_result limits m (outs @ [out]) s1
      (thenS (insert_learned_endpoint net_from (draws (length (outs @ [out]))) (lae_endpoint e)
         (Some (lae_application e)) s1) (\<lambda>o2 s'. k ((outs @ [out]) @ [o2]) s'))"
      using rest
      by (intro endpoint_stage [OF added_inv [OF inv add(1)] indices_template [OF inv add ix]
            new tk insertI1 ident quota room1]) blast
    from run_result_template [OF this add fresh] show ?thesis
      using ins Inr missing by simp
  qed
qed

lemma slots_fit: "m < usize_max \<Longrightarrow> m < saturating_add_usize n k \<longleftrightarrow> \<not> n + k \<le> m"
  using saturating_add_usize_le_iff [of m n k] by (simp add: not_le [symmetric])

lemma applications_loop_refines:
  assumes "state_inv s" "indices_of s known templates pu pa" "length outs \<le> m" "m < usize_max"
  shows "run_result limits m outs s
    (learn_applications_loop net_from draws limits m es known templates pu pa outs s)"
  using assms
proof (induction es arbitrary: known templates pu pa outs s)
  case Nil
  then show ?case by (simp add: run_result_stop)
next
  case (Cons e es)
  let ?sel = "lae_application e"
  note slots = slots_fit [OF Cons.prems(4)]
  consider (known) "key_from_application_endpoint net_from e \<in> known"
    | (bad) er where "key_from_application_endpoint net_from e \<notin> known"
        "template_key_from_selector ?sel = Inl er"
    | (new) tk where "key_from_application_endpoint net_from e \<notin> known"
        "template_key_from_selector ?sel = Inr tk"
    by (cases "template_key_from_selector ?sel") auto
  then show ?case
  proof cases
    case known
    then show ?thesis using Cons by simp
  next
    case bad
    then show ?thesis using Cons.prems by (simp add: run_result_error)
  next
    case (new tk)
    consider (full) "\<not> length outs + (if tk \<in> templates then 1 else 2) \<le> m"
      | (partial) "length outs + (if tk \<in> templates then 1 else 2) \<le> m"
          "sel_uid ?sel = None \<or> sel_executable_file ?sel = None"
      | (ident) uid fl where "length outs + (if tk \<in> templates then 1 else 2) \<le> m"
          "sel_uid ?sel = Some uid" "sel_executable_file ?sel = Some fl"
      by (cases "sel_uid ?sel"; cases "sel_executable_file ?sel") auto
    then show ?thesis
    proof cases
      case full
      then show ?thesis using Cons.prems new
        by (cases "tk \<in> templates") (simp_all add: slots run_result_stop)
    next
      case partial
      then show ?thesis
        using Cons.prems new
        by (cases "sel_uid ?sel"; cases "sel_executable_file ?sel"; cases "tk \<in> templates")
          (simp_all add: slots run_result_error)
    next
      case (ident uid fl)
      show ?thesis
      proof (cases "ll_per_uid limits \<le> entry_count pu uid
          \<or> ll_per_application limits \<le> entry_count pa (uid, fl)")
        case True
        then show ?thesis using Cons new ident by (cases "tk \<in> templates") (simp_all add: slots)
      next
        case False
        then have quota: "entry_count pu uid < ll_per_uid limits"
          "entry_count pa (uid, fl) < ll_per_application limits" by simp_all
        show ?thesis
          using template_stage [OF Cons.prems(1,2) new ident(2,3) quota ident(1),
              of "learn_applications_loop net_from draws limits m es
                (insert (key_from_application_endpoint net_from e) known) (insert tk templates)
                (entry_increment uid pu) (entry_increment (uid, fl) pa)" draws]
            Cons.IH Cons.prems(4) False new ident
          by (cases "tk \<in> templates") (simp_all add: slots)
      qed
    qed
  qed
qed

lemma initial_indices:
  "indices_of s (known_learned_keys s) (known_template_keys s)
     (fold charge_uid (filter is_learned_outbound (omap_values (st_rules s))) [])
     (fold charge_application (filter is_learned_outbound (omap_values (st_rules s))) [])"
  by (auto simp: indices_of_def uid_count_def application_count_def fold_charge_uid
      fold_charge_application fun_eq_iff conj_commute intro!: arg_cong [where f = length] filter_cong)

lemma batch_budget_small: "batch_budget n s < usize_max"
  by (simp add: batch_budget_def MAX_AUTOMATIC_LEARNED_RULES_def)

lemma learning_refines:
  assumes "state_inv s"
  shows "run_result limits (batch_budget maximum_new s) [] s
    (learn_new_application_endpoints_with_limits net_from draws es maximum_new limits s)"
  using applications_loop_refines [OF assms initial_indices _ batch_budget_small]
  by (simp add: learn_new_application_endpoints_with_limits_def Let_def tryS_def run_result_error
      split: sum.splits)

text \<open>C19: whatever a batch of attributed endpoints is and wherever it stops, on
  errors too, learning refines the abstract run: the state it leaves differs by at most
  \<open>maximum_new\<close> added rules, one per reported outcome, each of them either a missing
  disabled template or a new endpoint inside its user's and its executable's budget.\<close>

theorem learning_refines_run:
  assumes "state_inv s"
    and "learn_new_application_endpoints_with_limits net_from draws es maximum_new limits s = (res, t)"
  shows "\<exists>n. learning_run limits n s t \<and> n \<le> maximum_new
    \<and> (\<forall>outs. res = Inr outs \<longrightarrow> length outs = n)"
  using learning_refines [OF assms(1), of limits maximum_new net_from draws es] assms(2)
  by (auto simp: run_result_def batch_budget_def)

text \<open>C17: learning is additive and bounded. After any batch, successful or
  not, the state is still well formed, every earlier rule is still there unchanged, every
  new rule is an automatic outbound accept rule, mode, strategy and flow generation are
  untouched, no user and no executable has more learned rules than its budget allows
  (unless it had them before), the automatic rules stay within their reserve, and if every
  learned application rule had a group template before, it still has one.\<close>

theorem learning_respects_budgets:
  assumes "state_inv s"
    and "learn_new_application_endpoints_with_limits net_from draws es maximum_new limits s = (res, t)"
  shows "state_inv t \<and> learning_grows s t
    \<and> automatic_count t \<le> max (automatic_count s) MAX_AUTOMATIC_LEARNED_RULES
    \<and> uid_count t uid \<le> max (uid_count s uid) (ll_per_uid limits)
    \<and> application_count t app \<le> max (application_count s app) (ll_per_application limits)
    \<and> (groups_covered s \<longrightarrow> groups_covered t)"
proof -
  obtain n where n: "n \<le> batch_budget maximum_new s" "learning_run limits n s t"
    using learning_refines [OF assms(1), of limits maximum_new net_from draws es] assms(2)
    by (auto simp: run_result_def)
  have "n \<le> MAX_AUTOMATIC_LEARNED_RULES - automatic_count s"
    using n(1) by (simp add: batch_budget_def)
  then show ?thesis
    using run_keeps [OF n(2) assms(1)] run_quota [OF n(2) assms(1), of uid app]
      run_covered [OF n(2) assms(1)] by auto
qed

section \<open>Endpoints that can be learned\<close>

definition same_family :: "(ip_addr \<Rightarrow> ip_net) \<Rightarrow> bool" where
  "same_family net_from \<longleftrightarrow>
     (\<forall>a. (case (a, net_from a) of (IpV4 _, NetV4 _ _) \<Rightarrow> True | (IpV6 _, NetV6 _ _) \<Rightarrow> True
           | _ \<Rightarrow> False))"

definition representable :: "learned_endpoint \<Rightarrow> bool" where
  "representable e \<longleftrightarrow> le_protocol e = Tcp \<or> le_protocol e = Udp \<or> le_port e = None"

lemma port_suffix_text:
  "list_all visible (port_suffix p)" "length (port_suffix p) \<le> 12"
proof -
  have len: "length (dec_string (unat (w :: u16))) \<le> 5" for w
    using unsigned_less [of w, where 'a = nat] by (intro length_dec_string) simp_all
  show "list_all visible (port_suffix p)"
    by (auto simp: port_suffix_def dec_string_visible ascii_def split: option.splits)
  show "length (port_suffix p) \<le> 12"
    using len [of "pr_start (the p)"] len [of "pr_end (the p)"]
    by (cases p) (auto simp: port_suffix_def ascii_def)
qed

lemma learned_name_text:
  "list_all (\<lambda>c. 0x20 \<le> c \<and> c \<le> 0x7E) (learned_name e)" "length (learned_name e) \<le> 69"
    "hd (learned_name e) = 0x6C" "visible (last (learned_name e))"
proof -
  let ?head = "ascii ''learned '' @ display_protocol (le_protocol e) @ ascii '' ''"
  let ?tail = "display_ip (le_address e) @ port_suffix (le_port e)"
  have name: "learned_name e = ?head @ ?tail" by (simp add: learned_name_def)
  have head: "list_all (\<lambda>c. 0x20 \<le> c \<and> c \<le> 0x7E) ?head" "length ?head \<le> 15"
    by (cases "le_protocol e"; simp add: ascii_def)+
  have tail: "?tail \<noteq> []" "list_all visible ?tail" "length ?tail \<le> 54"
    using display_ip_text [of "le_address e"] port_suffix_text [of "le_port e"] by auto
  have "list_all (\<lambda>c. 0x20 \<le> c \<and> c \<le> 0x7E) ?tail"
    using tail(2) by (rule list.pred_mono_strong) simp
  then show "list_all (\<lambda>c. 0x20 \<le> c \<and> c \<le> 0x7E) (learned_name e)"
    using head(1) unfolding name list_all_append by blast
  show "length (learned_name e) \<le> 69"
    using head(2) tail(3) unfolding name length_append by linarith
  show "hd (learned_name e) = 0x6C" by (simp add: learned_name_def ascii_def)
  have "last ?tail \<in> set ?tail" using tail(1) by (rule last_in_set)
  moreover have "last (learned_name e) = last ?tail"
    using tail(1) unfolding name by (rule last_appendR)
  ultimately show "visible (last (learned_name e))"
    using tail(2) unfolding list_all_iff by metis
qed

lemma learned_name_valid: "rule_name_new (learned_name e) = Inr (RuleName (learned_name e))"
proof (rule printable_rule_name)
  show "learned_name e \<noteq> []" by (simp add: learned_name_def ascii_def)
  show "length (learned_name e) \<le> MAX_RULE_NAME_BYTES"
    using learned_name_text(2) [of e] by (simp add: MAX_RULE_NAME_BYTES_def)
  show "last (learned_name e) \<noteq> 0x20" using learned_name_text(4) [of e] by auto
qed (simp_all add: learned_name_text)

lemma learned_spec_valid:
  assumes "learned_endpoint_validate e = Inr ()" "representable e" "same_family net_from"
    and "is_none_or application (\<lambda>sel. application_selector_validate sel = Inr ())"
  shows "rule_spec_validate (learned_spec_of net_from e application) = Inr ()"
proof -
  have fam: "case (le_address e, net_from (le_address e)) of (IpV4 _, NetV4 _ _) \<Rightarrow> True
      | (IpV6 _, NetV6 _ _) \<Rightarrow> True | _ \<Rightarrow> False"
    using assms(3) by (simp add: same_family_def)
  show ?thesis
    using assms(1,2,4) fam
    by (cases "le_protocol e"; cases "le_address e"; cases "net_from (le_address e)"; cases application)
      (simp_all add: rule_spec_validate_def learned_spec_of_def learned_endpoint_validate_def
        representable_def res_simps)
qed

lemma create_rule_succeeds:
  assumes "rule_spec_validate spec = Inr ()" "reject_redacted_spec spec = Inr ()"
    and "reject_unpinned_application_spec spec = Inr ()"
    and "spec_enabled spec \<longrightarrow> spec_action spec = Accept"
    and "fst d \<noteq> 0" "omap_get (st_rules s) (fst d) = None" "length (st_rules s) < MAX_RULES"
    and "st_revision s \<noteq> - 1"
  shows "\<exists>r e t. create_rule d spec s = (Inr (r, e), t)"
  using assms
  by (auto simp: create_rule_def create_rule_at_def rule_with_id_and_time_def next_revision_def
      Let_def not_le)

lemma insert_template_succeeds:
  assumes "fst d \<noteq> 0" "omap_get (st_rules s) (fst d) = None" "length (st_rules s) < MAX_RULES"
    and "st_revision s \<noteq> - 1"
  shows "\<exists>out t. insert_application_group_template d key s = (Inr out, t)"
proof -
  obtain r e t where "create_rule d (template_spec key) s = (Inr (r, e), t)"
    using create_rule_succeeds [of "template_spec key" d s] assms
    by (auto simp: template_spec_def rule_spec_validate_def application_selector_validate_def
        reject_redacted_spec_def reject_unpinned_application_spec_def
        is_unpinned_application_template_def)
  then show ?thesis by (simp add: insert_template_create)
qed

lemma insert_learned_succeeds:
  assumes "learned_endpoint_validate e = Inr ()" "representable e" "same_family net_from"
    and "is_none_or application (\<lambda>sel. application_selector_validate sel = Inr ()
           \<and> sel_executable_file sel \<noteq> None)"
    and "fst d \<noteq> 0" "omap_get (st_rules s) (fst d) = None" "length (st_rules s) < MAX_RULES"
    and "st_revision s \<noteq> - 1"
  shows "\<exists>out t. insert_learned_endpoint net_from d e application s = (Inr out, t)"
proof -
  let ?spec = "learned_spec_of net_from e application"
  have valid: "rule_spec_validate ?spec = Inr ()"
    "rule_spec_validate (learned_spec_of net_from e None) = Inr ()"
    using learned_spec_valid [OF assms(1-3), of application] learned_spec_valid [OF assms(1-3), of None]
      assms(4) by (auto simp: is_none_or_iff)
  have "\<not> sel_metadata_redacted sel" if "application = Some sel" for sel
    using assms(4) that by (auto simp: application_selector_validate_def split: if_splits)
  then obtain r ev t where created: "create_rule d ?spec s = (Inr (r, ev), t)"
    using create_rule_succeeds [OF valid(1) _ _ _ assms(5-8)] assms(4)
    by (cases application)
      (auto simp: learned_spec_of_def reject_redacted_spec_def reject_unpinned_application_spec_def)
  have "insert_learned_endpoint net_from d e application s =
      thenS (create_rule d ?spec s)
        (\<lambda>(rule, event) s'. (Inr \<lparr>lo_rule = rule, lo_event = Some event\<rparr>, s'))"
    using valid by (simp add: insert_learned_endpoint_def learned_name_valid rule_spec_new_def
        learned_spec_of_def Let_def)
  then show ?thesis using created by simp
qed

section \<open>The admission index\<close>

lemma learned_is_automatic: "is_learned_outbound r \<Longrightarrow> is_automatic_rule r"
  by (simp add: is_learned_outbound_def is_automatic_rule_def)

lemma template_is_automatic: "template_key_from_template r = Some k \<Longrightarrow> is_automatic_rule r"
  by (auto simp: template_key_from_template_def is_automatic_rule_def split: option.splits if_splits)

lemma index_rule_fields:
  "ai_limits (index_rule r ix) = ai_limits ix"
  "ai_total_rule_count (index_rule r ix) = ai_total_rule_count ix"
  "ai_learned_rule_count (index_rule r ix) =
     ai_learned_rule_count ix + (if is_automatic_rule r then 1 else 0)"
  "ai_known (index_rule r ix) =
     (if is_learned_outbound r then insert (key_from_rule r) (ai_known ix) else ai_known ix)"
  "ai_known_templates (index_rule r ix) =
     set_option (template_key_from_template r) \<union> ai_known_templates ix"
  "ai_per_uid (index_rule r ix) =
     (if is_learned_outbound r then charge_uid r (ai_per_uid ix) else ai_per_uid ix)"
  "ai_per_application (index_rule r ix) =
     (if is_learned_outbound r then charge_application r (ai_per_application ix)
      else ai_per_application ix)"
  using template_is_automatic [of r] learned_is_automatic [of r]
  by (cases "template_key_from_template r";
      auto simp: index_rule_def Let_def is_learned_outbound_def)+

lemma index_fold_fields:
  "ai_limits (fold index_rule rs ix) = ai_limits ix"
  "ai_total_rule_count (fold index_rule rs ix) = ai_total_rule_count ix"
  "ai_learned_rule_count (fold index_rule rs ix) =
     ai_learned_rule_count ix + length (filter is_automatic_rule rs)"
  "ai_known (fold index_rule rs ix) =
     ai_known ix \<union> set (map key_from_rule (filter is_learned_outbound rs))"
  "ai_known_templates (fold index_rule rs ix) =
     ai_known_templates ix \<union> set (List.map_filter template_key_from_template rs)"
  "ai_per_uid (fold index_rule rs ix) =
     fold charge_uid (filter is_learned_outbound rs) (ai_per_uid ix)"
  "ai_per_application (fold index_rule rs ix) =
     fold charge_application (filter is_learned_outbound rs) (ai_per_application ix)"
  by (induction rs arbitrary: ix)
    (auto simp: index_rule_fields List.map_filter_simps split: option.splits)

lemma index_from_state_fields:
  "ai_limits (index_from_state s limits) = limits"
  "ai_total_rule_count (index_from_state s limits) = length (st_rules s)"
  "ai_learned_rule_count (index_from_state s limits) = automatic_count s"
  "indices_of s (ai_known (index_from_state s limits)) (ai_known_templates (index_from_state s limits))
     (ai_per_uid (index_from_state s limits)) (ai_per_application (index_from_state s limits))"
  using initial_indices [of s]
  by (simp_all add: index_from_state_def index_fold_fields automatic_count_def known_learned_keys_def
      known_template_keys_def indices_of_def)

section \<open>A sample endpoint\<close>

fun host_net :: "ip_addr \<Rightarrow> ip_net" where
  "host_net (IpV4 a) = NetV4 a 32"
| "host_net (IpV6 a) = NetV6 a 128"

definition sample_draws :: "nat \<Rightarrow> draw" where
  "sample_draws n = (of_nat (n + 1), 100)"

definition sample_endpoint :: learned_endpoint where
  "sample_endpoint = \<lparr>le_address = IpV4 0xC0000201, le_protocol = Tcp,
     le_port = Some \<lparr>pr_start = 443, pr_end = 443\<rparr>,
     le_interface = Some (InterfaceName (ascii ''eth0''))\<rparr>"

definition sample_application_endpoint :: learned_application_endpoint where
  "sample_application_endpoint =
     \<lparr>lae_endpoint = sample_endpoint, lae_application = sample_application\<rparr>"

lemma host_net_family: "same_family host_net"
  by (simp add: same_family_def split: ip_addr.splits)

lemma sample_endpoint_valid:
  "learned_application_endpoint_validate sample_application_endpoint = Inr ()"
  by (simp add: learned_application_endpoint_validate_def sample_application_endpoint_def
      sample_endpoint_def learned_endpoint_validate_def sample_application_def sample_file_def
      application_selector_validate_def executable_file_id_validate_def)

definition sample_learning :: "(core_error + learn_outcome list) \<times> state" where
  "sample_learning = learn_new_application_endpoints_with_limits host_net sample_draws
     [sample_application_endpoint] 2 learning_limits_default state_new"

theorem learning_refines_run_witness:
  "\<exists>n. learning_run learning_limits_default n state_new (snd sample_learning) \<and> n \<le> 2"
  using learning_refines_run [OF state_new_inv, of host_net sample_draws "[sample_application_endpoint]"
      2 learning_limits_default "fst sample_learning" "snd sample_learning"]
  by (auto simp: sample_learning_def)

theorem learning_respects_budgets_witness:
  "state_inv (snd sample_learning) \<and> learning_grows state_new (snd sample_learning)
   \<and> uid_count (snd sample_learning) 1000 \<le> 4096"
proof -
  have "uid_count state_new 1000 = 0"
    by (simp add: uid_count_def state_new_def omap_values_def)
  then show ?thesis
    using learning_respects_budgets [OF state_new_inv, of host_net sample_draws
        "[sample_application_endpoint]" 2 learning_limits_default "fst sample_learning"
        "snd sample_learning" 1000]
    by (simp add: sample_learning_def learning_limits_default_def)
qed

end
