(* ===== verification/Template_Migration.thy ===== *)
theory Template_Migration
  imports Learning_Properties
begin

text \<open>
  The migration that adds missing application-wide templates to a state loaded from an
  older schema: its incremental size bookkeeping is exact, it never leaves a state above the
  byte limit, and a template that would cross the limit is rolled back without a trace.
\<close>

section \<open>The size counter\<close>

lemma write_chunks_sum:
  assumes "sc_bytes c \<le> MAX_STATE_BYTES" "\<not> sc_exceeded c"
  shows "(fst (write_chunks ns c) \<longleftrightarrow> sc_bytes c + sum_list ns \<le> MAX_STATE_BYTES)
    \<and> (fst (write_chunks ns c) \<longrightarrow> sc_bytes (snd (write_chunks ns c)) = sc_bytes c + sum_list ns)
    \<and> (sc_exceeded (snd (write_chunks ns c)) \<longleftrightarrow> \<not> fst (write_chunks ns c))"
  using assms
proof (induction ns arbitrary: c)
  case (Cons n ns)
  show ?case
  proof (cases "sc_bytes c + n \<le> MAX_STATE_BYTES")
    case True
    then have w: "size_counter_write n c = (True, c\<lparr>sc_bytes := sc_bytes c + n\<rparr>)"
      by (simp add: size_counter_write_def checked_add_usize_def MAX_STATE_BYTES_def)
    show ?thesis
      using Cons.IH [of "c\<lparr>sc_bytes := sc_bytes c + n\<rparr>"] True Cons.prems(2) w
      by (simp add: add.assoc)
  next
    case False
    then have "size_counter_write n c = (False, c\<lparr>sc_exceeded := True\<rparr>)"
      by (simp add: size_counter_write_def checked_add_usize_def split: option.splits)
    then show ?thesis using False by simp
  qed
qed simp

text \<open>The check accepts exactly the states whose serialisation fits.\<close>

lemma bounded_size_Inr:
  "bounded_serialized_state_size json s = Inr n \<longleftrightarrow>
     snd (json_state_writes json s) = None \<and> n = sum_list (fst (json_state_writes json s))
     \<and> n \<le> MAX_STATE_BYTES"
  using write_chunks_sum [of "\<lparr>sc_bytes = 0, sc_exceeded = False\<rparr>" "fst (json_state_writes json s)"]
  by (auto simp: bounded_serialized_state_size_def Let_def split: prod.splits if_splits)

section \<open>The serialiser\<close>

text \<open>What the migration relies on of \<open>serde_json\<close>'s compact format: serialising a state
  never fails, and a state with one more rule is longer by the rule, its quoted 36-character
  key with the colon, the separating comma, and the change in the digits of the revision.\<close>

definition serde_compact :: "state json \<Rightarrow> bool" where
  "serde_compact json \<longleftrightarrow>
     (\<forall>s. snd (json_state_writes json s) = None)
     \<and> (\<forall>s r t l. state_inv s \<longrightarrow> added r s t \<longrightarrow> json_rule_len json r = Inr l \<longrightarrow>
          sum_list (fst (json_state_writes json t)) + length (dec_string (unat (st_revision s))) =
          sum_list (fst (json_state_writes json s)) + l + 39 + (if st_rules s = [] then 0 else 1)
            + length (dec_string (unat (st_revision t))))"

lemma delta_exact:
  assumes "serde_compact json" "state_inv s" "added r s t"
    and "serialized_rule_map_entry_delta json r (st_revision s) (st_revision t) (st_rules s \<noteq> []) = Inr d"
  shows "sum_list (fst (json_state_writes json t)) = sum_list (fst (json_state_writes json s)) + d"
proof -
  let ?p = "length (dec_string (unat (st_revision s)))" and ?c = "length (dec_string (unat (st_revision t)))"
  obtain l where l: "json_rule_len json r = Inr l"
    using assms(4) by (auto simp: serialized_rule_map_entry_delta_def res_simps)
  have "?p \<le> l + 39 + (if st_rules s = [] then 0 else 1) + ?c
      \<and> d = l + 39 + (if st_rules s = [] then 0 else 1) + ?c - ?p"
    using assms(4) l
    by (auto simp: serialized_rule_map_entry_delta_def res_simps saturating_add_usize_def Let_def
        bind_eq_Some_conv split: if_splits)
  moreover have "sum_list (fst (json_state_writes json t)) + ?p =
      sum_list (fst (json_state_writes json s)) + l + 39 + (if st_rules s = [] then 0 else 1) + ?c"
    using assms(1-3) l by (simp add: serde_compact_def)
  ultimately show ?thesis by linarith
qed

section \<open>Rolling back\<close>

lemma roll_back_added:
  assumes "state_inv s" "added r s t"
  shows "roll_back r (st_revision s) (st_flow_generation s) t = s"
proof -
  have "omap_remove (rule_id r) (st_rules t) = st_rules s"
    using assms by (simp add: added_def omap_remove_insert)
  then show ?thesis
    using assms(2) by (intro state.equality) (simp_all add: roll_back_def added_def)
qed

definition templates_grow :: "state \<Rightarrow> state \<Rightarrow> bool" where
  "templates_grow s t \<longleftrightarrow>
     learning_grows s t
     \<and> (\<forall>k r. omap_get (st_rules t) k = Some r \<longrightarrow> omap_get (st_rules s) k = Some r
          \<or> spec_origin (rule_spec r) = Template \<and> \<not> spec_enabled (rule_spec r))"

lemma templates_grow_refl [simp]: "templates_grow s s"
  by (simp add: templates_grow_def)

lemma templates_grow_trans: "templates_grow s t \<Longrightarrow> templates_grow t u \<Longrightarrow> templates_grow s u"
  unfolding templates_grow_def by (blast intro: learning_grows_trans)

lemma template_added_templates_grow:
  assumes "state_inv s" "added r s t" "rule_spec r = template_spec key"
  shows "templates_grow s t"
  using template_added_grows [OF assms] added_get [OF assms(1,2)] assms(3)
  by (auto simp: templates_grow_def template_spec_def split: if_splits)

text \<open>The loop with its running total.\<close>

lemma ensure_templates_loop_keeps:
  assumes "serde_compact json" "state_inv s" "m \<le> MAX_STATE_BYTES"
    and "sz = sum_list (fst (json_state_writes json s))" "sz \<le> MAX_STATE_BYTES"
    and "ensure_templates_loop json draws m groups sz outs s = (res, t)"
  shows "state_inv t \<and> templates_grow s t
    \<and> sum_list (fst (json_state_writes json t)) \<le> MAX_STATE_BYTES
    \<and> (\<forall>os. res = Inr os \<longrightarrow>
         length (st_rules t) + length outs = length (st_rules s) + length os)"
  using assms(2,4-6)
proof (induction groups arbitrary: sz outs s)
  case (Cons g gs)
  obtain r s' where ins: "insert_application_group_template (draws (length outs)) g s = (r, s')"
    by (cases "insert_application_group_template (draws (length outs)) g s")
  show ?case
  proof (cases r)
    case (Inl e)
    then have "s' = s" using ins insert_template_error by blast
    then show ?thesis using Cons.prems ins Inl by auto
  next
    case (Inr out)
    let ?r = "lo_rule out"
    let ?delta = "serialized_rule_map_entry_delta json ?r (st_revision s) (st_revision s') (st_rules s \<noteq> [])"
    from insert_template_added [OF ins [unfolded Inr]]
    have add: "added ?r s s'" and spec: "rule_spec ?r = template_spec g" by blast+
    note rb = roll_back_added [OF Cons.prems(1) add]
    show ?thesis
    proof (cases ?delta)
      case (Inl e)
      then show ?thesis using Cons.prems ins Inr rb by auto
    next
      case delta: (Inr d)
      have total: "sum_list (fst (json_state_writes json s')) = sz + d"
        using delta_exact [OF assms(1) Cons.prems(1) add delta] Cons.prems(2) by simp
      show ?thesis
      proof (cases "m < saturating_add_usize sz d")
        case True
        then show ?thesis using Cons.prems ins Inr rb delta by auto
      next
        case False
        have "m < usize_max" using assms(3) by (simp add: MAX_STATE_BYTES_def)
        then have fits: "sz + d \<le> m" using False slots_fit [of m sz d] by blast
        then have sat: "saturating_add_usize sz d = sz + d"
          using \<open>m < usize_max\<close> by (simp add: saturating_add_usize_def)
        have len: "length (st_rules s') = Suc (length (st_rules s))"
          by (rule added_length [OF Cons.prems(1) add])
        have "ensure_templates_loop json draws m gs (sz + d) (outs @ [out]) s' = (res, t)"
          using Cons.prems(4) ins Inr delta False sat by simp
        then show ?thesis
          using Cons.IH [OF added_inv [OF Cons.prems(1) add], of "sz + d" "outs @ [out]"]
            total fits assms(3) len
            templates_grow_trans [OF template_added_templates_grow [OF Cons.prems(1) add spec]]
          by fastforce
      qed
    qed
  qed
qed auto

text \<open>C20: adding missing templates never makes a valid state unbootable. If the
  state fits the byte limit before, then whatever happens the state left behind passes the
  full startup validation, contains every earlier rule unchanged, and the rules it gained
  are disabled templates, one per reported outcome.\<close>

theorem template_migration_bootable:
  assumes "state_inv s" "serde_compact json" "is_ok (bounded_serialized_state_size json s)"
    and "ensure_application_group_templates json draws maximum_new s = (res, t)"
  shows "state_validate json t = Inr () \<and> templates_grow s t
    \<and> (\<forall>outs. res = Inr outs \<longrightarrow> length (st_rules t) = length (st_rules s) + length outs)"
proof -
  let ?size = "sum_list (fst (json_state_writes json s))"
  have size: "bounded_serialized_state_size json s = Inr ?size" "?size \<le> MAX_STATE_BYTES"
    using assms(3) by (auto simp: is_ok_iff bounded_size_Inr)
  have run: "ensure_templates_loop json draws MAX_STATE_BYTES
      (take (batch_budget maximum_new s) (template_groups s)) ?size [] s = (res, t)"
    using assms(4) size(1)
    by (simp add: ensure_application_group_templates_def
        ensure_application_group_templates_with_size_limit_def)
  have "bounded_serialized_state_size json t = Inr (sum_list (fst (json_state_writes json t)))"
    if "sum_list (fst (json_state_writes json t)) \<le> MAX_STATE_BYTES"
    using that assms(2) by (simp add: bounded_size_Inr serde_compact_def)
  then show ?thesis
    using ensure_templates_loop_keeps [OF assms(2,1) order_refl refl size(2) run]
    by (auto simp: state_validate_Inr state_inv_def is_ok_iff)
qed

definition counting_json :: "state json" where
  "counting_json = \<lparr>json_state_writes = (\<lambda>s.
       ([length (dec_string (unat (st_revision s))),
         (if st_rules s = [] then 0 else 50 * length (st_rules s) - 1)], None)),
     json_rule_len = (\<lambda>_. Inr 10)\<rparr>"

lemma counting_json_compact: "serde_compact counting_json"
proof -
  have "length (st_rules t) = Suc (length (st_rules s))" if "state_inv s" "added r s t" for s r t
    by (rule added_length [OF that])
  then show ?thesis
    by (fastforce simp: serde_compact_def counting_json_def)
qed

theorem template_migration_bootable_witness:
  "serde_compact counting_json
   \<and> (case ensure_application_group_templates counting_json (\<lambda>n. (of_nat (n + 9), 5)) 10 sample_state of
        (res, t) \<Rightarrow> state_validate counting_json t = Inr () \<and> templates_grow sample_state t)"
proof -
  have "is_ok (bounded_serialized_state_size counting_json sample_state)"
    by (simp add: is_ok_iff bounded_size_Inr counting_json_def sample_defs MAX_STATE_BYTES_def
        dec_string.simps)
  then show ?thesis
    using template_migration_bootable [OF sample_state_inv counting_json_compact]
      counting_json_compact by (auto split: prod.splits)
qed

end
