(* ===== verification/Connection.thy ===== *)
theory Connection
  imports Model
begin

text \<open>
  The attributed outbound connection of \<open>src/crates/openshield-daemon/src/application.rs\<close>
  and the queued packet of \<open>src/crates/openshield-daemon/src/nfqueue.rs\<close> that the packet
  path, the scheduler and the reply registry share.
\<close>

record outbound_connection =
  oc_source_address :: ip_addr
  oc_source_port :: "u16 option"
  oc_destination_address :: ip_addr
  oc_destination_port :: "u16 option"
  oc_protocol :: transport_protocol
  oc_output_interface :: interface_name
  oc_socket_uid :: u32

fun is_ipv4 :: "ip_addr \<Rightarrow> bool" where
  "is_ipv4 (IpV4 _) = True"
| "is_ipv4 (IpV6 _) = False"

datatype connection_error =
    AddressFamiliesDiffer
  | MissingOrReservedPorts
  | InvalidIcmpTuple
  | InvalidIcmpV6Tuple
  | UntypedConnection

definition outbound_connection_validate :: "outbound_connection \<Rightarrow> connection_error + unit" where
  "outbound_connection_validate c =
     bindE (fail_if (is_ipv4 (oc_source_address c) \<noteq> is_ipv4 (oc_destination_address c))
              AddressFamiliesDiffer)
    (\<lambda>_. case oc_protocol c of
            Tcp \<Rightarrow> fail_if (\<not> (is_some_and (oc_source_port c) (\<lambda>p. p \<noteq> 0)
                            \<and> is_some_and (oc_destination_port c) (\<lambda>p. p \<noteq> 0)))
                     MissingOrReservedPorts
          | Udp \<Rightarrow> fail_if (\<not> (is_some_and (oc_source_port c) (\<lambda>p. p \<noteq> 0)
                            \<and> is_some_and (oc_destination_port c) (\<lambda>p. p \<noteq> 0)))
                     MissingOrReservedPorts
          | Icmp \<Rightarrow> fail_if (\<not> (is_ipv4 (oc_source_address c) \<and> oc_source_port c \<noteq> None
                             \<and> oc_destination_port c = None)) InvalidIcmpTuple
          | IcmpV6 \<Rightarrow> fail_if (\<not> (\<not> is_ipv4 (oc_source_address c) \<and> oc_source_port c \<noteq> None
                               \<and> oc_destination_port c = None)) InvalidIcmpV6Tuple
          | Any \<Rightarrow> Inl UntypedConnection)"

record queued_packet =
  qp_connection :: outbound_connection
  qp_packet_mark :: u32
  qp_initial_observation :: bool

record queued_packet_work =
  qw_packet_id :: u32
  qw_packet :: "ustring + queued_packet"

text \<open>Instants of the monotonic clock, in nanoseconds since an arbitrary origin.\<close>

type_synonym instant = nat

end
