(* ===== verification/Fair_Queue.thy ===== *)
theory Fair_Queue
  imports Connection "HOL-Library.Multiset"
begin

text \<open>
  The scheduler of pending packets of
  \<open>src/crates/openshield-daemon/src/nfqueue_scheduler.rs\<close>: users take turns first, then
  their flows, and a batch takes at most a quantum of packets per turn. A locale states
  what the packet path needs of a bounded work queue, and the queue is an instance of it.
\<close>

section \<open>The interface of a bounded work queue\<close>

datatype 'p queue_op = Push 'p | TakeBatch

text \<open>A history of calls: the packets admitted so far, the packets handed out so far, and
  the queue.\<close>

fun run_queue ::
    "('p \<Rightarrow> 'q \<Rightarrow> ('e + unit) \<times> 'q) \<Rightarrow> ('q \<Rightarrow> 'p list \<times> 'q) \<Rightarrow> 'p queue_op list
     \<Rightarrow> 'p list \<times> 'p list \<times> 'q \<Rightarrow> 'p list \<times> 'p list \<times> 'q" where
  "run_queue push takeb [] h = h"
| "run_queue push takeb (Push p # ops) (admitted, handed, q) =
     (case push p q of
        (Inr u, q') \<Rightarrow> run_queue push takeb ops (admitted @ [p], handed, q')
      | (Inl e, q') \<Rightarrow> run_queue push takeb ops (admitted, handed, q'))"
| "run_queue push takeb (TakeBatch # ops) (admitted, handed, q) =
     (case takeb q of (batch, q') \<Rightarrow> run_queue push takeb ops (admitted, handed @ batch, q'))"

locale bounded_work_queue =
  fixes wf :: "'q \<Rightarrow> bool"
    and contents :: "'q \<Rightarrow> 'p multiset"
    and push :: "'p \<Rightarrow> 'q \<Rightarrow> ('e + unit) \<times> 'q"
    and takeb :: "'q \<Rightarrow> 'p list \<times> 'q"
    and capacity :: nat
    and batch_size :: nat
  assumes push_room: "wf q \<Longrightarrow> size (contents q) < capacity \<Longrightarrow>
      \<exists>q'. push p q = (Inr (), q') \<and> wf q' \<and> contents q' = add_mset p (contents q)"
    and push_full: "wf q \<Longrightarrow> capacity \<le> size (contents q) \<Longrightarrow> \<exists>e. push p q = (Inl e, q)"
    and take_batch: "wf q \<Longrightarrow> takeb q = (batch, q') \<Longrightarrow>
      wf q' \<and> contents q = mset batch + contents q'
      \<and> length batch = min batch_size (size (contents q))"
    and batch_size_pos: "0 < batch_size"
begin

text \<open>No packet is lost, duplicated or invented by any history of calls, and the bound
  holds throughout.\<close>

lemma conservation:
  assumes "wf q" "size (contents q) \<le> capacity"
    and "run_queue push takeb ops (admitted, handed, q) = (admitted', handed', q')"
    and "mset admitted = mset handed + contents q"
  shows "mset admitted' = mset handed' + contents q' \<and> wf q' \<and> size (contents q') \<le> capacity"
  using assms
proof (induction ops arbitrary: admitted handed q)
  case (Cons x ops)
  show ?case
  proof (cases x)
    case (Push p)
    show ?thesis
    proof (cases "size (contents q) < capacity")
      case True
      then obtain q1 where "push p q = (Inr (), q1)" "wf q1" "contents q1 = add_mset p (contents q)"
        using push_room Cons.prems(1) by blast
      then show ?thesis
        using Cons.IH [of q1 "admitted @ [p]" handed] Cons.prems Push True by simp
    next
      case False
      then obtain e where "push p q = (Inl e, q)" using push_full Cons.prems(1) not_less by blast
      then show ?thesis using Cons Push by simp
    qed
  next
    case TakeBatch
    obtain batch q1 where b: "takeb q = (batch, q1)" by (cases "takeb q")
    from take_batch [OF Cons.prems(1) b] have "wf q1" "contents q = mset batch + contents q1" by blast+
    then show ?thesis
      using Cons.IH [of q1 admitted "handed @ batch"] Cons.prems TakeBatch b by (simp add: ac_simps)
  qed
qed simp

text \<open>Repeated batches drain the queue.\<close>

lemma drains:
  assumes "wf q" "size (contents q) \<le> n * batch_size"
  shows "contents ((((\<lambda>q. snd (takeb q)) ^^ n)) q) = {#}"
  using assms
proof (induction n arbitrary: q)
  case (Suc n)
  obtain batch q1 where b: "takeb q = (batch, q1)" by (cases "takeb q")
  from take_batch [OF Suc.prems(1) b] have wf: "wf q1"
    and split: "contents q = mset batch + contents q1"
    and len: "length batch = min batch_size (size (contents q))" by blast+
  have "size (contents q) = length batch + size (contents q1)"
    using arg_cong [OF split, of size] by simp
  then have "size (contents q1) \<le> n * batch_size" using len Suc.prems(2) [unfolded mult_Suc] by linarith
  then show ?case using Suc.IH [OF wf] b by (simp add: funpow_Suc_right del: funpow.simps)
qed simp

end

section \<open>Keys\<close>

record pending_packet =
  pp_work :: queued_packet_work
  pp_received :: instant

datatype user_key = SocketUid u32 | UnparsedUser

datatype flow_key =
    Network transport_protocol ip_addr ip_addr "u16 option" "u16 option"
  | UnparsedFlow u32

definition flow_key_for_packet :: "queued_packet_work \<Rightarrow> user_key \<times> flow_key" where
  "flow_key_for_packet work =
     (case qw_packet work of
        Inl _ \<Rightarrow> (UnparsedUser, UnparsedFlow (qw_packet_id work))
      | Inr packet \<Rightarrow>
          let c = qp_connection packet in
          (SocketUid (oc_socket_uid c),
           Network (oc_protocol c) (oc_source_address c) (oc_destination_address c)
             (oc_source_port c) (oc_destination_port c)))"

section \<open>The queue\<close>

definition MAX_PENDING_PACKETS :: nat where "MAX_PENDING_PACKETS = 128"
definition FLOW_QUANTUM :: nat where "FLOW_QUANTUM = 4"
definition MAX_PACKET_BATCH_SIZE :: nat where "MAX_PACKET_BATCH_SIZE = 32"

record flow_queue =
  fq_key :: flow_key
  fq_packets :: "pending_packet list"

record user_queue =
  uq_key :: user_key
  uq_flows :: "flow_queue list"

record fair_queue =
  q_users :: "user_queue list"
  q_pending :: nat

datatype scheduler_error = SchedulerBoundExceeded

definition fair_queue_default :: fair_queue where
  "fair_queue_default = \<lparr>q_users = [], q_pending = 0\<rparr>"

definition fair_queue_len :: "fair_queue \<Rightarrow> nat" where
  "fair_queue_len q = q_pending q"

text \<open>\<open>iter_mut().find(..)\<close> followed by an update, and \<open>push_back\<close> when nothing is found.\<close>

fun push_flow :: "flow_key \<Rightarrow> pending_packet \<Rightarrow> flow_queue list \<Rightarrow> flow_queue list" where
  "push_flow key p [] = [\<lparr>fq_key = key, fq_packets = [p]\<rparr>]"
| "push_flow key p (f # fs) =
     (if fq_key f = key then f\<lparr>fq_packets := fq_packets f @ [p]\<rparr> # fs else f # push_flow key p fs)"

fun push_user ::
    "user_key \<Rightarrow> flow_key \<Rightarrow> pending_packet \<Rightarrow> user_queue list \<Rightarrow> user_queue list" where
  "push_user ukey fkey p [] =
     [\<lparr>uq_key = ukey, uq_flows = [\<lparr>fq_key = fkey, fq_packets = [p]\<rparr>]\<rparr>]"
| "push_user ukey fkey p (u # us) =
     (if uq_key u = ukey then u\<lparr>uq_flows := push_flow fkey p (uq_flows u)\<rparr> # us
      else u # push_user ukey fkey p us)"

definition fair_queue_push ::
    "pending_packet \<Rightarrow> fair_queue \<Rightarrow> (scheduler_error + unit) \<times> fair_queue" where
  "fair_queue_push p q =
     (if \<not> q_pending q < MAX_PENDING_PACKETS then (Inl SchedulerBoundExceeded, q)
      else
        let (user_key, flow_key) = flow_key_for_packet (pp_work p) in
        (Inr (), q\<lparr>q_users := push_user user_key flow_key p (q_users q),
                   q_pending := q_pending q + 1\<rparr>))"

definition flow_packets_total :: "flow_queue list \<Rightarrow> nat" where
  "flow_packets_total fs = sum_list (map (\<lambda>f. length (fq_packets f)) fs)"

definition users_weight :: "user_queue list \<Rightarrow> nat" where
  "users_weight us =
     sum_list (map (\<lambda>u. Suc (length (uq_flows u) + flow_packets_total (uq_flows u))) us)"

text \<open>One turn: the front user's front flow gives up to a quantum of packets; what is left of
  the flow goes behind the user's other flows, and the user goes behind the other users.\<close>

definition take_turn ::
    "user_queue \<Rightarrow> flow_queue \<Rightarrow> flow_queue list \<Rightarrow> user_queue list \<Rightarrow> nat
     \<Rightarrow> pending_packet list \<times> user_queue list" where
  "take_turn user flow flows users quantum =
     (let rest = drop quantum (fq_packets flow);
          flows' = (if rest \<noteq> [] then flows @ [flow\<lparr>fq_packets := rest\<rparr>] else flows)
      in (take quantum (fq_packets flow),
          if flows' \<noteq> [] then users @ [user\<lparr>uq_flows := flows'\<rparr>] else users))"

lemma take_turn_weight:
  assumes "uq_flows user = flow # flows" "0 < quantum"
  shows "users_weight (snd (take_turn user flow flows users quantum)) < users_weight (user # users)"
  using assms by (cases "fq_packets flow")
    (auto simp: take_turn_def users_weight_def flow_packets_total_def Let_def)

function take_rounds ::
    "user_queue list \<Rightarrow> nat \<Rightarrow> pending_packet list
     \<Rightarrow> user_queue list \<times> nat \<times> pending_packet list" where
  "take_rounds users pending batch =
     (if MAX_PACKET_BATCH_SIZE \<le> length batch then (users, pending, batch)
      else
        case users of
          [] \<Rightarrow> (users, pending, batch)
        | user # users' \<Rightarrow>
            (case uq_flows user of
               [] \<Rightarrow> take_rounds users' pending batch
             | flow # flows \<Rightarrow>
                 let quantum = min FLOW_QUANTUM (MAX_PACKET_BATCH_SIZE - length batch);
                     turn = take_turn user flow flows users' quantum
                 in take_rounds (snd turn) (pending - length (fst turn)) (batch @ fst turn)))"
  by pat_completeness auto
termination
proof (relation "measure (\<lambda>(users, pending, batch). users_weight users)", goal_cases)
  case (3 users pending batch user users' flow flows quantum turn)
  have "0 < quantum" using 3 by (simp add: FLOW_QUANTUM_def)
  then show ?case using take_turn_weight [of user flow flows quantum users'] 3 by simp
qed (simp_all add: users_weight_def)

declare take_rounds.simps [simp del]

definition fair_queue_take_batch :: "fair_queue \<Rightarrow> pending_packet list \<times> fair_queue" where
  "fair_queue_take_batch q =
     (let (users, pending, batch) = take_rounds (q_users q) (q_pending q) []
      in (batch, q\<lparr>q_users := users, q_pending := pending\<rparr>))"

section \<open>The invariant\<close>

definition flow_wf :: "user_key \<Rightarrow> flow_queue \<Rightarrow> bool" where
  "flow_wf ukey f \<longleftrightarrow>
     fq_packets f \<noteq> []
     \<and> list_all (\<lambda>p. flow_key_for_packet (pp_work p) = (ukey, fq_key f)) (fq_packets f)"

definition user_wf :: "user_queue \<Rightarrow> bool" where
  "user_wf u \<longleftrightarrow>
     uq_flows u \<noteq> [] \<and> distinct (map fq_key (uq_flows u)) \<and> list_all (flow_wf (uq_key u)) (uq_flows u)"

definition users_wf :: "user_queue list \<Rightarrow> bool" where
  "users_wf us \<longleftrightarrow> distinct (map uq_key us) \<and> list_all user_wf us"

definition flows_packets :: "flow_queue list \<Rightarrow> pending_packet list" where
  "flows_packets fs = concat (map fq_packets fs)"

definition all_packets :: "user_queue list \<Rightarrow> pending_packet list" where
  "all_packets us = concat (map (\<lambda>u. flows_packets (uq_flows u)) us)"

definition fair_queue_wf :: "fair_queue \<Rightarrow> bool" where
  "fair_queue_wf q \<longleftrightarrow> users_wf (q_users q) \<and> q_pending q = length (all_packets (q_users q))"

definition fair_queue_contents :: "fair_queue \<Rightarrow> pending_packet multiset" where
  "fair_queue_contents q = mset (all_packets (q_users q))"

lemma packets_simps [simp]:
  "flows_packets [] = []" "flows_packets (f # fs) = fq_packets f @ flows_packets fs"
  "flows_packets (fs @ gs) = flows_packets fs @ flows_packets gs"
  "all_packets [] = []" "all_packets (u # us) = flows_packets (uq_flows u) @ all_packets us"
  "all_packets (us @ vs) = all_packets us @ all_packets vs"
  by (simp_all add: flows_packets_def all_packets_def)

lemma users_wf_simps [simp]:
  "users_wf []"
  "users_wf (u # us) \<longleftrightarrow> user_wf u \<and> uq_key u \<notin> set (map uq_key us) \<and> users_wf us"
  by (auto simp: users_wf_def)

lemma push_flow_keys: "set (map fq_key (push_flow k p fs)) = insert k (set (map fq_key fs))"
  by (induction fs) auto

lemma push_flow_distinct:
  "distinct (map fq_key fs) \<Longrightarrow> distinct (map fq_key (push_flow k p fs))"
proof (induction fs)
  case (Cons f fs)
  then show ?case using push_flow_keys [of k p fs] by auto
qed simp

lemma push_flow_wf:
  "list_all (flow_wf ukey) fs \<Longrightarrow> flow_key_for_packet (pp_work p) = (ukey, k) \<Longrightarrow>
     list_all (flow_wf ukey) (push_flow k p fs)"
  by (induction fs) (auto simp: flow_wf_def)

lemma push_flow_mset: "mset (flows_packets (push_flow k p fs)) = add_mset p (mset (flows_packets fs))"
  by (induction fs) auto

lemma push_flow_nonempty [simp]: "push_flow k p fs \<noteq> []"
  by (cases fs) auto

lemma push_user_keys: "set (map uq_key (push_user k fk p us)) = insert k (set (map uq_key us))"
  by (induction us) auto

lemma push_user_wf:
  "users_wf us \<Longrightarrow> flow_key_for_packet (pp_work p) = (k, fk) \<Longrightarrow> users_wf (push_user k fk p us)"
proof (induction us)
  case Nil
  then show ?case by (simp add: user_wf_def flow_wf_def)
next
  case (Cons u us)
  then show ?case
    using push_user_keys [of k fk p us]
    by (auto simp: user_wf_def push_flow_distinct push_flow_wf)
qed

lemma push_user_mset: "mset (all_packets (push_user k fk p us)) = add_mset p (mset (all_packets us))"
  by (induction us) (auto simp: push_flow_mset)

lemma push_keeps:
  assumes "fair_queue_wf q" "q_pending q < MAX_PENDING_PACKETS"
  shows "\<exists>q'. fair_queue_push p q = (Inr (), q') \<and> fair_queue_wf q'
    \<and> fair_queue_contents q' = add_mset p (fair_queue_contents q)"
proof -
  obtain k fk where key: "flow_key_for_packet (pp_work p) = (k, fk)"
    by (cases "flow_key_for_packet (pp_work p)")
  have "length (all_packets (push_user k fk p us)) = Suc (length (all_packets us))" for us
    by (metis push_user_mset size_add_mset size_mset)
  then show ?thesis
    using assms key push_user_wf [OF _ key]
    by (simp add: fair_queue_push_def fair_queue_wf_def fair_queue_contents_def push_user_mset)
qed

section \<open>Turns\<close>

lemma take_turn_wf:
  assumes "users_wf (user # users)" "uq_flows user = flow # flows"
  shows "users_wf (snd (take_turn user flow flows users quantum))"
proof -
  have "\<forall>p\<in>set (drop quantum (fq_packets flow)). p \<in> set (fq_packets flow)"
    using in_set_dropD by fast
  then show ?thesis
    using assms
    by (auto simp: take_turn_def Let_def users_wf_def user_wf_def flow_wf_def list_all_iff)
qed

lemma take_turn_mset:
  assumes "uq_flows user = flow # flows"
  shows "mset (fst (take_turn user flow flows users quantum))
      + mset (all_packets (snd (take_turn user flow flows users quantum))) =
    mset (all_packets (user # users))"
proof -
  have "mset (fq_packets flow) =
      mset (take quantum (fq_packets flow)) + mset (drop quantum (fq_packets flow))"
    by (metis append_take_drop_id mset_append)
  then show ?thesis using assms by (auto simp: take_turn_def Let_def)
qed

lemma take_turn_progress:
  assumes "users_wf (user # users)" "uq_flows user = flow # flows" "0 < quantum"
  shows "fst (take_turn user flow flows users quantum) \<noteq> []"
    "length (fst (take_turn user flow flows users quantum)) \<le> quantum"
    "list_all (\<lambda>p. fst (flow_key_for_packet (pp_work p)) = uq_key user)
       (fst (take_turn user flow flows users quantum))"
  using assms in_set_takeD [of _ quantum "fq_packets flow"]
  by (auto simp: take_turn_def Let_def users_wf_def user_wf_def flow_wf_def list_all_iff)

lemma take_rounds_stop:
  "MAX_PACKET_BATCH_SIZE \<le> length batch \<or> users = [] \<Longrightarrow>
     take_rounds users pending batch = (users, pending, batch)"
  by (subst take_rounds.simps) auto

lemma take_rounds_turn:
  assumes "length batch < MAX_PACKET_BATCH_SIZE" "uq_flows user = flow # flows"
    and "quantum = min FLOW_QUANTUM (MAX_PACKET_BATCH_SIZE - length batch)"
    and "turn = take_turn user flow flows us quantum"
  shows "take_rounds (user # us) pending batch =
    take_rounds (snd turn) (pending - length (fst turn)) (batch @ fst turn)"
  using assms by (subst take_rounds.simps) (simp add: Let_def)

text \<open>Induction over the turns of a batch.\<close>

lemma rounds_induct [consumes 1, case_names stop turn]:
  assumes "users_wf users"
    and "\<And>users pending batch. users_wf users \<Longrightarrow>
      MAX_PACKET_BATCH_SIZE \<le> length batch \<or> users = [] \<Longrightarrow> P users pending batch"
    and "\<And>user flow flows us pending batch quantum turn. users_wf (user # us) \<Longrightarrow>
      length batch < MAX_PACKET_BATCH_SIZE \<Longrightarrow> uq_flows user = flow # flows \<Longrightarrow>
      quantum = min FLOW_QUANTUM (MAX_PACKET_BATCH_SIZE - length batch) \<Longrightarrow>
      turn = take_turn user flow flows us quantum \<Longrightarrow> users_wf (snd turn) \<Longrightarrow>
      P (snd turn) (pending - length (fst turn)) (batch @ fst turn) \<Longrightarrow> P (user # us) pending batch"
  shows "P users pending batch"
  using assms(1)
proof (induction users pending batch rule: take_rounds.induct)
  case (1 users pending batch)
  show ?case
  proof (cases "MAX_PACKET_BATCH_SIZE \<le> length batch \<or> users = []")
    case True
    then show ?thesis using "1.prems" assms(2) by blast
  next
    case False
    then obtain user us flow flows where users: "users = user # us" "uq_flows user = flow # flows"
      using "1.prems" by (cases users; cases "uq_flows (hd users)") (auto simp: user_wf_def)
    define quantum where "quantum = min FLOW_QUANTUM (MAX_PACKET_BATCH_SIZE - length batch)"
    define turn where "turn = take_turn user flow flows us quantum"
    note wf = "1.prems" [unfolded users(1)]
    have wf': "users_wf (snd turn)" unfolding turn_def by (rule take_turn_wf [OF wf users(2)])
    have "P (snd turn) (pending - length (fst turn)) (batch @ fst turn)"
      using "1.IH"(2) [OF _ users quantum_def turn_def wf'] False by blast
    then show ?thesis
      unfolding users(1) using assms(3) [OF wf _ users(2) quantum_def turn_def wf'] False by simp
  qed
qed

text \<open>What a run of turns does to the queue and the batch.\<close>

lemma take_rounds_spec:
  assumes "users_wf users" "pending = length (all_packets users)"
    and "length batch \<le> MAX_PACKET_BATCH_SIZE" "take_rounds users pending batch = (users', pending', batch')"
  shows "users_wf users' \<and> pending' = length (all_packets users')
    \<and> mset batch' + mset (all_packets users') = mset batch + mset (all_packets users)
    \<and> length batch' \<le> MAX_PACKET_BATCH_SIZE
    \<and> (length batch' = MAX_PACKET_BATCH_SIZE \<or> users' = [])"
  using assms
proof (induction users pending batch rule: rounds_induct)
  case (stop users pending batch)
  then show ?case by (auto simp: take_rounds_stop)
next
  case (turn user flow flows us pending batch quantum turn)
  have split: "mset (fst turn) + mset (all_packets (snd turn)) = mset (all_packets (user # us))"
    unfolding turn(5) by (rule take_turn_mset [OF turn(3)])
  then have "length (fst turn) + length (all_packets (snd turn)) = length (all_packets (user # us))"
    by (metis size_mset size_union)
  then have pending: "pending - length (fst turn) = length (all_packets (snd turn))"
    using turn.prems(1) by simp
  have "0 < quantum" "quantum \<le> MAX_PACKET_BATCH_SIZE - length batch"
    using turn(2,4) by (auto simp: FLOW_QUANTUM_def)
  then have len: "length (batch @ fst turn) \<le> MAX_PACKET_BATCH_SIZE"
    using take_turn_progress(2) [OF turn(1,3), of quantum, folded turn(5)] turn(2)
    unfolding length_append by linarith
  show ?case
    using turn.IH [OF pending len] turn.prems(3) take_rounds_turn [OF turn(2-5)] split
    by (simp add: ac_simps)
qed

lemma take_batch_keeps:
  assumes "fair_queue_wf q" "fair_queue_take_batch q = (batch, q')"
  shows "fair_queue_wf q' \<and> fair_queue_contents q = mset batch + fair_queue_contents q'
    \<and> length batch = min MAX_PACKET_BATCH_SIZE (size (fair_queue_contents q))"
proof -
  obtain users pending where run: "take_rounds (q_users q) (q_pending q) [] = (users, pending, batch)"
    and q': "q' = q\<lparr>q_users := users, q_pending := pending\<rparr>"
    using assms(2) by (auto simp: fair_queue_take_batch_def split: prod.splits)
  have spec: "users_wf users" "pending = length (all_packets users)"
    "mset batch + mset (all_packets users) = mset (all_packets (q_users q))"
    "length batch \<le> MAX_PACKET_BATCH_SIZE" "length batch = MAX_PACKET_BATCH_SIZE \<or> users = []"
    using take_rounds_spec [OF _ _ _ run] assms(1) by (auto simp: fair_queue_wf_def)
  have "length batch + length (all_packets users) = length (all_packets (q_users q))"
    using arg_cong [OF spec(3), of size] by simp
  then show ?thesis
    using spec q' by (auto simp: fair_queue_wf_def fair_queue_contents_def)
qed

interpretation fair: bounded_work_queue fair_queue_wf fair_queue_contents fair_queue_push
  fair_queue_take_batch MAX_PENDING_PACKETS MAX_PACKET_BATCH_SIZE
proof
  fix q p
  assume wf: "fair_queue_wf q"
  then have pending: "size (fair_queue_contents q) = q_pending q"
    by (simp add: fair_queue_wf_def fair_queue_contents_def)
  show "size (fair_queue_contents q) < MAX_PENDING_PACKETS \<Longrightarrow>
      \<exists>q'. fair_queue_push p q = (Inr (), q') \<and> fair_queue_wf q'
        \<and> fair_queue_contents q' = add_mset p (fair_queue_contents q)"
    using push_keeps [OF wf] pending by simp
  show "MAX_PENDING_PACKETS \<le> size (fair_queue_contents q) \<Longrightarrow> \<exists>e. fair_queue_push p q = (Inl e, q)"
    using pending by (simp add: fair_queue_push_def)
next
  fix q batch q'
  assume "fair_queue_wf q" "fair_queue_take_batch q = (batch, q')"
  then show "fair_queue_wf q' \<and> fair_queue_contents q = mset batch + fair_queue_contents q'
      \<and> length batch = min MAX_PACKET_BATCH_SIZE (size (fair_queue_contents q))"
    by (rule take_batch_keeps)
qed (simp add: MAX_PACKET_BATCH_SIZE_def)

lemma fair_queue_default_wf: "fair_queue_wf fair_queue_default" "fair_queue_contents fair_queue_default = {#}"
  by (simp_all add: fair_queue_wf_def fair_queue_default_def fair_queue_contents_def)

text \<open>C24: the packet scheduler loses, duplicates and invents no packet. After
  any history of insertions and batches from the empty queue, the packets admitted are
  exactly those handed out together with those still pending, at most 128 are pending, and
  four more batches hand out everything that is left.\<close>

theorem scheduler_conserves_packets:
  assumes "run_queue fair_queue_push fair_queue_take_batch ops ([], [], fair_queue_default) =
    (admitted, handed, q)"
  shows "mset admitted = mset handed + fair_queue_contents q
    \<and> size (fair_queue_contents q) \<le> MAX_PENDING_PACKETS
    \<and> fair_queue_contents (((\<lambda>q. snd (fair_queue_take_batch q)) ^^ 4) q) = {#}"
proof -
  have "mset admitted = mset handed + fair_queue_contents q \<and> fair_queue_wf q
      \<and> size (fair_queue_contents q) \<le> MAX_PENDING_PACKETS"
    by (rule fair.conservation [OF _ _ assms]) (simp_all add: fair_queue_default_wf)
  then show ?thesis
    using fair.drains [of q 4] by (simp add: MAX_PENDING_PACKETS_def MAX_PACKET_BATCH_SIZE_def)
qed

definition sample_pending :: "u32 \<Rightarrow> pending_packet" where
  "sample_pending i = \<lparr>pp_work = \<lparr>qw_packet_id = i, qw_packet = Inl []\<rparr>, pp_received = 0\<rparr>"

theorem scheduler_conserves_packets_witness:
  "\<exists>admitted handed q.
     run_queue fair_queue_push fair_queue_take_batch
       [Push (sample_pending 1), TakeBatch, Push (sample_pending 2)] ([], [], fair_queue_default) =
       (admitted, handed, q)
     \<and> mset admitted = mset handed + fair_queue_contents q
     \<and> size (fair_queue_contents q) \<le> MAX_PENDING_PACKETS"
  using scheduler_conserves_packets by (metis prod_cases3)

section \<open>Order within a flow\<close>

definition packets_of :: "user_key \<Rightarrow> user_key \<times> flow_key \<Rightarrow> flow_queue list \<Rightarrow> pending_packet list"
  where
  "packets_of ukey k fs =
     concat (map (\<lambda>f. if (ukey, fq_key f) = k then fq_packets f else []) fs)"

definition flow_of :: "user_key \<times> flow_key \<Rightarrow> user_queue list \<Rightarrow> pending_packet list" where
  "flow_of k us = concat (map (\<lambda>u. packets_of (uq_key u) k (uq_flows u)) us)"

lemma flow_of_simps [simp]:
  "packets_of ukey k [] = []"
  "packets_of ukey k (f # fs) = (if (ukey, fq_key f) = k then fq_packets f else []) @ packets_of ukey k fs"
  "packets_of ukey k (fs @ gs) = packets_of ukey k fs @ packets_of ukey k gs"
  "flow_of k [] = []" "flow_of k (u # us) = packets_of (uq_key u) k (uq_flows u) @ flow_of k us"
  "flow_of k (us @ vs) = flow_of k us @ flow_of k vs"
  by (simp_all add: flow_of_def packets_of_def)

lemma packets_of_other: "fst k \<noteq> ukey \<or> snd k \<notin> set (map fq_key fs) \<Longrightarrow> packets_of ukey k fs = []"
  by (induction fs) auto

lemma flow_of_other: "fst k \<notin> set (map uq_key us) \<Longrightarrow> flow_of k us = []"
  by (induction us) (auto simp: packets_of_other)

lemma flow_filter:
  assumes "flow_wf ukey f" "set ps \<subseteq> set (fq_packets f)"
  shows "filter (\<lambda>p. flow_key_for_packet (pp_work p) = k) ps = (if (ukey, fq_key f) = k then ps else [])"
proof -
  have "flow_key_for_packet (pp_work p) = (ukey, fq_key f)" if "p \<in> set ps" for p
    using that assms by (auto simp: flow_wf_def list_all_iff)
  then show ?thesis by (auto intro!: filter_True filter_False)
qed

text \<open>A turn moves packets of a flow from the front of the queue to the end of the batch and
  keeps every other flow as it is.\<close>

lemma take_turn_fifo:
  assumes "users_wf (user # users)" "uq_flows user = flow # flows"
  shows "filter (\<lambda>p. flow_key_for_packet (pp_work p) = k)
      (fst (take_turn user flow flows users quantum))
      @ flow_of k (snd (take_turn user flow flows users quantum)) = flow_of k (user # users)"
proof -
  have flow: "flow_wf (uq_key user) flow" "fq_key flow \<notin> set (map fq_key flows)"
    using assms by (auto simp: user_wf_def)
  note taken = flow_filter [OF flow(1) set_take_subset, of k quantum]
  consider (own) "k = (uq_key user, fq_key flow)" "packets_of (uq_key user) k flows = []" "flow_of k users = []"
    | (sibling) "k \<noteq> (uq_key user, fq_key flow)" "flow_of k users = []"
    | (elsewhere) "k \<noteq> (uq_key user, fq_key flow)" "packets_of (uq_key user) k flows = []"
    using flow(2) assms(1) packets_of_other [of k "uq_key user" flows] flow_of_other [of k users]
    by (cases "fst k = uq_key user"; cases "k = (uq_key user, fq_key flow)") auto
  then show ?thesis
    using assms(2) taken by cases (auto simp: take_turn_def Let_def)
qed

lemma take_rounds_fifo:
  assumes "users_wf users" "take_rounds users pending batch = (users', pending', batch')"
  shows "filter (\<lambda>p. flow_key_for_packet (pp_work p) = k) batch' @ flow_of k users' =
    filter (\<lambda>p. flow_key_for_packet (pp_work p) = k) batch @ flow_of k users"
  using assms
proof (induction users pending batch rule: rounds_induct)
  case (turn user flow flows us pending batch quantum turn)
  then show ?case
    using take_turn_fifo [OF turn(1,3), of k quantum, folded turn(5)] take_rounds_turn [OF turn(2-5)]
    by simp
qed (auto simp: take_rounds_stop)

lemma push_flow_of:
  assumes "list_all (flow_wf ukey) fs" "distinct (map fq_key fs)"
  shows "packets_of ukey k (push_flow fk p fs) = packets_of ukey k fs @ (if k = (ukey, fk) then [p] else [])"
  using assms by (induction fs) (auto simp: packets_of_other)

lemma push_user_flow_of:
  assumes "users_wf us"
  shows "flow_of k (push_user uk fk p us) = flow_of k us @ (if k = (uk, fk) then [p] else [])"
  using assms
proof (induction us)
  case (Cons u us)
  then have "flow_of (uk, fk) us = []" if "uq_key u = uk"
    using that by (intro flow_of_other) auto
  then show ?case using Cons by (auto simp: push_flow_of user_wf_def)
qed auto

text \<open>Packets of one flow keep their order: a batch takes them from the
  front of the flow, an insertion appends one at its end, and neither touches the order of
  any other flow.\<close>

theorem scheduler_is_fifo_per_flow:
  assumes "fair_queue_wf q"
  shows "(case fair_queue_take_batch q of (batch, q') \<Rightarrow>
       flow_of k (q_users q) =
         filter (\<lambda>p. flow_key_for_packet (pp_work p) = k) batch @ flow_of k (q_users q'))
    \<and> (case fair_queue_push p q of (r, q') \<Rightarrow>
       flow_of k (q_users q') = flow_of k (q_users q)
         @ (if is_ok r \<and> k = flow_key_for_packet (pp_work p) then [p] else []))"
proof
  have wf: "users_wf (q_users q)" using assms by (simp add: fair_queue_wf_def)
  obtain us n b where "take_rounds (q_users q) (q_pending q) [] = (us, n, b)" by (metis prod_cases3)
  with take_rounds_fifo [OF wf this, of k]
  show "case fair_queue_take_batch q of (batch, q') \<Rightarrow> flow_of k (q_users q) =
      filter (\<lambda>p. flow_key_for_packet (pp_work p) = k) batch @ flow_of k (q_users q')"
    by (simp add: fair_queue_take_batch_def)
  obtain uk fk where key: "flow_key_for_packet (pp_work p) = (uk, fk)"
    by (cases "flow_key_for_packet (pp_work p)")
  show "case fair_queue_push p q of (r, q') \<Rightarrow> flow_of k (q_users q') = flow_of k (q_users q)
      @ (if is_ok r \<and> k = flow_key_for_packet (pp_work p) then [p] else [])"
    using push_user_flow_of [OF wf, of k uk fk p] key
    by (cases "q_pending q < MAX_PENDING_PACKETS") (simp_all add: fair_queue_push_def)
qed

theorem scheduler_is_fifo_per_flow_witness:
  "fair_queue_wf fair_queue_default
   \<and> (case fair_queue_push (sample_pending 1) fair_queue_default of (r, q') \<Rightarrow>
       flow_of (UnparsedUser, UnparsedFlow 1) (q_users q') = [sample_pending 1])"
  using scheduler_is_fifo_per_flow [OF fair_queue_default_wf(1), of "(UnparsedUser, UnparsedFlow 1)"
      "sample_pending 1"] fair_queue_default_wf(1)
  by (simp add: fair_queue_push_def fair_queue_default_def sample_pending_def
      flow_key_for_packet_def MAX_PENDING_PACKETS_def)

section \<open>Fairness between users\<close>

lemma take_rounds_extends:
  assumes "users_wf users" "take_rounds users pending batch = (users', pending', batch')"
  shows "set batch \<subseteq> set batch'"
  using assms
proof (induction users pending batch rule: rounds_induct)
  case (turn user flow flows us pending batch quantum turn)
  then show ?case using take_rounds_turn [OF turn(2-5)] by simp
qed (auto simp: take_rounds_stop)

lemma take_turn_tail: "\<exists>behind. snd (take_turn user flow flows users quantum) = users @ behind"
  by (simp add: take_turn_def Let_def)

text \<open>The users at the front of the queue are served in order, a quantum each.\<close>

lemma take_rounds_serves:
  assumes "users_wf (us @ vs)" "length batch + FLOW_QUANTUM * length us \<le> MAX_PACKET_BATCH_SIZE"
    and "take_rounds (us @ vs) pending batch = (users', pending', batch')" "u \<in> set us"
  shows "\<exists>p\<in>set batch'. fst (flow_key_for_packet (pp_work p)) = uq_key u"
  using assms
proof (induction us arbitrary: vs pending batch)
  case (Cons w us)
  have room: "length batch < MAX_PACKET_BATCH_SIZE"
    using Cons.prems(2) by (simp add: FLOW_QUANTUM_def)
  obtain flow flows where w: "uq_flows w = flow # flows"
    using Cons.prems(1) by (cases "uq_flows w") (auto simp: user_wf_def)
  define quantum where "quantum = min FLOW_QUANTUM (MAX_PACKET_BATCH_SIZE - length batch)"
  define turn where "turn = take_turn w flow flows (us @ vs) quantum"
  have wf: "users_wf (w # us @ vs)" using Cons.prems(1) by simp
  have q: "0 < quantum" "quantum \<le> FLOW_QUANTUM" using room by (auto simp: quantum_def FLOW_QUANTUM_def)
  note progress = take_turn_progress [OF wf w q(1), folded turn_def]
  have run: "take_rounds (snd turn) (pending - length (fst turn)) (batch @ fst turn) =
      (users', pending', batch')"
    using Cons.prems(3) take_rounds_turn [OF room w quantum_def turn_def] by simp
  have wf': "users_wf (snd turn)" unfolding turn_def by (rule take_turn_wf [OF wf w])
  obtain vs' where vs': "snd turn = us @ vs'"
    using take_turn_tail [of w flow flows "us @ vs" quantum] by (auto simp: turn_def)
  show ?case
  proof (cases "u = w")
    case True
    obtain p where "p \<in> set (fst turn)" "fst (flow_key_for_packet (pp_work p)) = uq_key w"
      using progress(1,3) by (cases "fst turn") auto
    then show ?thesis using take_rounds_extends [OF wf' run] True by auto
  next
    case False
    have "length (batch @ fst turn) + FLOW_QUANTUM * length us \<le> MAX_PACKET_BATCH_SIZE"
      using Cons.prems(2) progress(2) q(2) by simp
    then show ?thesis
      using Cons.IH [OF wf' [unfolded vs'] _ run [unfolded vs']] Cons.prems(4) False by simp
  qed
qed simp

text \<open>C23: a busy user cannot starve another one: whenever at most eight users
  wait, the very next batch contains a packet of each of them, however many flows and
  packets any of them has queued.\<close>

theorem scheduler_is_fair:
  assumes "fair_queue_wf q" "length (q_users q) \<le> 8" "u \<in> set (q_users q)"
  shows "\<exists>p\<in>set (fst (fair_queue_take_batch q)). fst (flow_key_for_packet (pp_work p)) = uq_key u"
proof -
  obtain us n b where run: "take_rounds (q_users q) (q_pending q) [] = (us, n, b)"
    by (metis prod_cases3)
  then have "\<exists>p\<in>set b. fst (flow_key_for_packet (pp_work p)) = uq_key u"
    using assms
    by (intro take_rounds_serves [of "q_users q" "[]" "[]"])
      (simp_all add: fair_queue_wf_def FLOW_QUANTUM_def MAX_PACKET_BATCH_SIZE_def)
  then show ?thesis using run by (simp add: fair_queue_take_batch_def)
qed

definition sample_queue :: fair_queue where
  "sample_queue = snd (fair_queue_push (sample_pending 1) fair_queue_default)"

theorem scheduler_is_fair_witness:
  "\<exists>p\<in>set (fst (fair_queue_take_batch sample_queue)).
     fst (flow_key_for_packet (pp_work p)) = UnparsedUser"
proof -
  have q: "q_users sample_queue = [\<lparr>uq_key = UnparsedUser,
      uq_flows = [\<lparr>fq_key = UnparsedFlow 1, fq_packets = [sample_pending 1]\<rparr>]\<rparr>]"
    by (simp add: sample_queue_def fair_queue_push_def fair_queue_default_def sample_pending_def
        flow_key_for_packet_def MAX_PENDING_PACKETS_def)
  have "fair_queue_wf sample_queue"
    using push_keeps [OF fair_queue_default_wf(1), of "sample_pending 1"]
    by (auto simp: sample_queue_def fair_queue_default_def MAX_PENDING_PACKETS_def)
  then show ?thesis
    using scheduler_is_fair [of sample_queue "hd (q_users sample_queue)"] by (simp add: q)
qed

end
