(* ===== verification/Queue_Progress.thy ===== *)
theory Queue_Progress
  imports Connection Ordered_Map
begin

text \<open>
  The verdict progress of the ordered OUTPUT queue
  (\<open>src/crates/openshield-daemon/src/nfqueue_progress.rs\<close>): admission of packet identifiers
  in kernel order, completion out of order, and captured read-through barriers that replies
  wait for. Identifiers are 32-bit and wrap around; the comparisons are serial-number
  arithmetic. The keys of reply flows come from
  \<open>src/crates/openshield-daemon/src/nfqueue_reply.rs\<close>. The private epoch token of a queue
  (an \<open>Arc\<close> compared by address) is a number, distinct for every queue ever created.
\<close>

section \<open>Reply flows\<close>

record reply_flow_key =
  rk_local :: ip_addr
  rk_local_port :: u16
  rk_remote :: ip_addr
  rk_remote_port :: "u16 option"
  rk_protocol :: transport_protocol

datatype outgoing_flow = ReplyFlow reply_flow_key | UnrelatedFlow | UnknownFlow

definition classify_outgoing :: "queued_packet_work \<Rightarrow> outgoing_flow" where
  "classify_outgoing work =
     (case qw_packet work of
        Inl _ \<Rightarrow> UnknownFlow
      | Inr packet \<Rightarrow>
          let c = qp_connection packet in
          (case oc_protocol c of
             Tcp \<Rightarrow> UnrelatedFlow
           | Any \<Rightarrow> UnknownFlow
           | _ \<Rightarrow>
               (case oc_source_port c of
                  None \<Rightarrow> UnknownFlow
                | Some local_port \<Rightarrow>
                    if oc_protocol c = Udp \<and> oc_destination_port c = None then UnknownFlow
                    else ReplyFlow \<lparr>rk_local = oc_source_address c, rk_local_port = local_port,
                           rk_remote = oc_destination_address c,
                           rk_remote_port = oc_destination_port c,
                           rk_protocol = oc_protocol c\<rparr>)))"

section \<open>Progress\<close>

definition SERIAL_HALF_RANGE :: u32 where "SERIAL_HALF_RANGE = 0x80000000"
definition MAX_TRACKED_OUTGOING :: nat where "MAX_TRACKED_OUTGOING = 1024"

record queue_identity =
  qi_port_id :: u32
  qi_epoch :: nat

record read_through_barrier =
  rb_identity :: queue_identity
  rb_sequence :: u32

record packet_progress =
  pg_flow :: outgoing_flow
  pg_completed :: bool

record queue_progress =
  pq_identity :: queue_identity
  pq_completed :: u32
  pq_last_admitted :: u32
  pq_order :: "u32 list"
  pq_verdicts :: "(u32, packet_progress) omap"

datatype progress_error =
    NoPortId
  | AdmissionBoundExceeded
  | AmbiguousPacketIds
  | UnadmittedVerdict
  | DuplicateCompletion

definition queue_progress_new :: "nat \<Rightarrow> u32 \<Rightarrow> progress_error + queue_progress" where
  "queue_progress_new epoch port_id =
     (if port_id = 0 then Inl NoPortId
      else Inr \<lparr>pq_identity = \<lparr>qi_port_id = port_id, qi_epoch = epoch\<rparr>, pq_completed = 0,
             pq_last_admitted = 0, pq_order = [], pq_verdicts = []\<rparr>)"

definition remaining_capacity :: "queue_progress \<Rightarrow> nat" where
  "remaining_capacity p = MAX_TRACKED_OUTGOING - length (pq_order p)"

text \<open>The first loop of \<open>admit_classified\<close> validates the whole batch.\<close>

fun admit_check ::
    "queue_progress \<Rightarrow> u32 \<Rightarrow> (u32 \<times> outgoing_flow) list \<Rightarrow> progress_error + u32" where
  "admit_check p previous [] = Inr previous"
| "admit_check p previous ((packet_id, flow) # packets) =
     (let advance = packet_id - previous;
          outstanding_span = packet_id - pq_completed p
      in if advance \<noteq> 0 \<and> advance < SERIAL_HALF_RANGE
            \<and> outstanding_span \<noteq> 0 \<and> outstanding_span < SERIAL_HALF_RANGE
            \<and> omap_get (pq_verdicts p) packet_id = None
         then admit_check p packet_id packets
         else Inl AmbiguousPacketIds)"

definition admit_packet :: "u32 \<times> outgoing_flow \<Rightarrow> queue_progress \<Rightarrow> queue_progress" where
  "admit_packet entry p =
     p\<lparr>pq_order := pq_order p @ [fst entry],
       pq_verdicts := omap_insert (fst entry) \<lparr>pg_flow = snd entry, pg_completed = False\<rparr>
         (pq_verdicts p)\<rparr>"

definition admit_classified ::
    "(u32 \<times> outgoing_flow) list \<Rightarrow> queue_progress \<Rightarrow> (progress_error + unit) \<times> queue_progress" where
  "admit_classified packets p =
     tryS (fail_if (remaining_capacity p < length packets) AdmissionBoundExceeded) p (\<lambda>_.
     tryS (admit_check p (pq_last_admitted p) packets) p (\<lambda>previous.
     (Inr (), (fold admit_packet packets p)\<lparr>pq_last_admitted := previous\<rparr>)))"

text \<open>The loop of \<open>complete\<close> that retires the completed prefix.\<close>

fun retire ::
    "u32 list \<Rightarrow> (u32, packet_progress) omap \<Rightarrow> u32 \<Rightarrow> u32 list \<times> (u32, packet_progress) omap \<times> u32"
  where
  "retire [] verdicts completed = ([], verdicts, completed)"
| "retire (first # order) verdicts completed =
     (if is_some_and (omap_get verdicts first) pg_completed
      then retire order (omap_remove first verdicts) first
      else (first # order, verdicts, completed))"

definition complete_packet ::
    "u32 \<Rightarrow> queue_progress \<Rightarrow> (progress_error + unit) \<times> queue_progress" where
  "complete_packet packet_id p =
     tryS (ok_or UnadmittedVerdict (omap_get (pq_verdicts p) packet_id)) p (\<lambda>packet.
     tryS (fail_if (pg_completed packet) DuplicateCompletion) p (\<lambda>_.
     let verdicts = omap_insert packet_id (packet\<lparr>pg_completed := True\<rparr>) (pq_verdicts p);
         (order, verdicts', completed) = retire (pq_order p) verdicts (pq_completed p)
     in (Inr (), p\<lparr>pq_order := order, pq_verdicts := verdicts', pq_completed := completed\<rparr>)))"

definition same_queue :: "queue_progress \<Rightarrow> read_through_barrier \<Rightarrow> bool" where
  "same_queue p b \<longleftrightarrow>
     qi_port_id (pq_identity p) = qi_port_id (rb_identity b)
     \<and> qi_epoch (pq_identity p) = qi_epoch (rb_identity b)"

definition barrier_reached :: "queue_progress \<Rightarrow> read_through_barrier \<Rightarrow> bool" where
  "barrier_reached p b \<longleftrightarrow>
     same_queue p b \<and> pq_completed p - rb_sequence b < SERIAL_HALF_RANGE"

fun blocks_flow :: "reply_flow_key \<Rightarrow> outgoing_flow \<Rightarrow> bool" where
  "blocks_flow key (ReplyFlow flow) \<longleftrightarrow> flow = key"
| "blocks_flow key UnrelatedFlow \<longleftrightarrow> False"
| "blocks_flow key UnknownFlow \<longleftrightarrow> True"

definition barrier_reached_for_flow ::
    "queue_progress \<Rightarrow> read_through_barrier \<Rightarrow> reply_flow_key \<Rightarrow> bool" where
  "barrier_reached_for_flow p b key \<longleftrightarrow>
     (if barrier_reached p b then True
      else if \<not> same_queue p b \<or> SERIAL_HALF_RANGE \<le> pq_last_admitted p - rb_sequence b then False
      else list_all (\<lambda>i. is_some_and (omap_get (pq_verdicts p) i)
               (\<lambda>packet. pg_completed packet \<or> \<not> blocks_flow key (pg_flow packet)))
             (takeWhile (\<lambda>i. rb_sequence b - i < SERIAL_HALF_RANGE) (pq_order p)))"

section \<open>The specification without wrap-around\<close>

text \<open>Packets are numbered by naturals: the number of the last packet of the completed
  prefix, and the admitted packets after it in order, each with its flow and whether its
  verdict was sent.\<close>

record log_entry =
  lg_number :: nat
  lg_flow :: outgoing_flow
  lg_done :: bool

record packet_log =
  pl_completed :: nat
  pl_entries :: "log_entry list"

definition log_last :: "packet_log \<Rightarrow> nat" where
  "log_last l = (if pl_entries l = [] then pl_completed l else lg_number (last (pl_entries l)))"

fun retire_log :: "nat \<Rightarrow> log_entry list \<Rightarrow> packet_log" where
  "retire_log c [] = \<lparr>pl_completed = c, pl_entries = []\<rparr>"
| "retire_log c (e # es) =
     (if lg_done e then retire_log (lg_number e) es
      else \<lparr>pl_completed = c, pl_entries = e # es\<rparr>)"

definition log_admit :: "(nat \<times> outgoing_flow) list \<Rightarrow> packet_log \<Rightarrow> packet_log" where
  "log_admit ps l =
     l\<lparr>pl_entries := pl_entries l
         @ map (\<lambda>(n, f). \<lparr>lg_number = n, lg_flow = f, lg_done = False\<rparr>) ps\<rparr>"

definition mark_done :: "nat \<Rightarrow> log_entry \<Rightarrow> log_entry" where
  "mark_done n e = (if lg_number e = n then e\<lparr>lg_done := True\<rparr> else e)"

definition log_complete :: "nat \<Rightarrow> packet_log \<Rightarrow> packet_log" where
  "log_complete n l =
     retire_log (pl_completed l) (map (mark_done n) (pl_entries l))"

text \<open>A reply for \<open>key\<close> may be repeated past the boundary \<open>b\<close> when every packet up to \<open>b\<close>
  has been admitted and none of those still without a verdict can belong to its flow.\<close>

definition log_reached :: "packet_log \<Rightarrow> nat \<Rightarrow> bool" where
  "log_reached l b \<longleftrightarrow> b \<le> pl_completed l"

definition log_reached_for_flow :: "packet_log \<Rightarrow> nat \<Rightarrow> reply_flow_key \<Rightarrow> bool" where
  "log_reached_for_flow l b key \<longleftrightarrow>
     b \<le> pl_completed l
     \<or> b \<le> log_last l
       \<and> list_all (\<lambda>e. lg_number e \<le> b \<longrightarrow> lg_done e \<or> \<not> blocks_flow key (lg_flow e)) (pl_entries l)"

text \<open>An admission is accepted when the batch fits, every packet lies after the previous one
  and within half of the serial range of it and of the completed prefix; a completion is
  accepted for an admitted packet without a verdict.\<close>

fun number_from :: "nat \<Rightarrow> (u32 \<times> outgoing_flow) list \<Rightarrow> (nat \<times> outgoing_flow) list" where
  "number_from previous [] = []"
| "number_from previous ((w, f) # ps) =
     (let n = previous + unat (w - of_nat previous) in (n, f) # number_from n ps)"

fun log_admissible :: "nat \<Rightarrow> nat \<Rightarrow> nat list \<Rightarrow> bool" where
  "log_admissible c previous [] \<longleftrightarrow> True"
| "log_admissible c previous (n # ns) \<longleftrightarrow>
     previous < n \<and> n < previous + 2 ^ 31 \<and> n < c + 2 ^ 31 \<and> log_admissible c n ns"

definition log_find :: "u32 \<Rightarrow> packet_log \<Rightarrow> log_entry option" where
  "log_find w l = find (\<lambda>e. of_nat (lg_number e) = w) (pl_entries l)"

section \<open>Sequences of operations\<close>

datatype progress_op = AdmitOp "(u32 \<times> outgoing_flow) list" | CompleteOp u32

fun progress_step :: "progress_op \<Rightarrow> queue_progress \<Rightarrow> (progress_error + unit) \<times> queue_progress" where
  "progress_step (AdmitOp packets) p = admit_classified packets p"
| "progress_step (CompleteOp packet_id) p = complete_packet packet_id p"

fun log_accepts :: "progress_op \<Rightarrow> packet_log \<Rightarrow> bool" where
  "log_accepts (AdmitOp ps) l \<longleftrightarrow>
     length (pl_entries l) + length ps \<le> MAX_TRACKED_OUTGOING
     \<and> log_admissible (pl_completed l) (log_last l) (map fst (number_from (log_last l) ps))"
| "log_accepts (CompleteOp w) l \<longleftrightarrow> is_some_and (log_find w l) (\<lambda>e. \<not> lg_done e)"

fun log_effect :: "progress_op \<Rightarrow> packet_log \<Rightarrow> packet_log" where
  "log_effect (AdmitOp ps) l = log_admit (number_from (log_last l) ps) l"
| "log_effect (CompleteOp w) l =
     (case log_find w l of None \<Rightarrow> l | Some e \<Rightarrow> log_complete (lg_number e) l)"

definition log_step :: "progress_op \<Rightarrow> packet_log \<Rightarrow> packet_log" where
  "log_step x l = (if log_accepts x l then log_effect x l else l)"

definition progress_run :: "progress_op list \<Rightarrow> queue_progress \<Rightarrow> queue_progress" where
  "progress_run = fold (\<lambda>x p. snd (progress_step x p))"

definition log_run :: "progress_op list \<Rightarrow> packet_log \<Rightarrow> packet_log" where
  "log_run = fold log_step"

definition empty_log :: packet_log where
  "empty_log = \<lparr>pl_completed = 0, pl_entries = []\<rparr>"

end
