(* ===== verification/Netlink.thy ===== *)
theory Netlink
  imports Connection
begin

text \<open>
  The netlink layer of \<open>src/crates/openshield-daemon/src/nfqueue.rs\<close>: building of messages
  and attributes, and the iterators over the messages of a datagram and the attributes of a
  message. A byte slice is a list of \<open>u8\<close>; reading a byte out of range is the error
  \<open>IndexPanic\<close>, so that the absence of panics can be stated. The byte order of the host
  (\<open>from_ne_bytes\<close>) is a parameter.
\<close>

unbundle bit_operations_syntax

section \<open>Bytes\<close>

datatype endian = LittleEndian | BigEndian

fun be_value :: "u8 list \<Rightarrow> nat" where
  "be_value [] = 0"
| "be_value (b # bs) = unat b * 256 ^ length bs + be_value bs"

fun be_bytes :: "nat \<Rightarrow> nat \<Rightarrow> u8 list" where
  "be_bytes 0 n = []"
| "be_bytes (Suc k) n = of_nat (n div 256 ^ k) # be_bytes k n"

definition ne_value :: "endian \<Rightarrow> u8 list \<Rightarrow> nat" where
  "ne_value e bs = (case e of BigEndian \<Rightarrow> be_value bs | LittleEndian \<Rightarrow> be_value (rev bs))"

definition ne_bytes :: "endian \<Rightarrow> nat \<Rightarrow> nat \<Rightarrow> u8 list" where
  "ne_bytes e k n = (case e of BigEndian \<Rightarrow> be_bytes k n | LittleEndian \<Rightarrow> rev (be_bytes k n))"

definition subslice :: "nat \<Rightarrow> nat \<Rightarrow> 'a list \<Rightarrow> 'a list" where
  "subslice i j xs = take (j - i) (drop i xs)"

text \<open>An error carries the head of the source's message; a panic is an error of its own.\<close>

datatype packet_error = IndexPanic | Refused string

text \<open>\<open>xs[i]\<close> and \<open>xs[i..j]\<close>.\<close>

definition byte_at :: "u8 list \<Rightarrow> nat \<Rightarrow> packet_error + u8" where
  "byte_at xs i = (if i < length xs then Inr (xs ! i) else Inl IndexPanic)"

definition range_at :: "u8 list \<Rightarrow> nat \<Rightarrow> nat \<Rightarrow> packet_error + u8 list" where
  "range_at xs i j = (if i \<le> j \<and> j \<le> length xs then Inr (subslice i j xs) else Inl IndexPanic)"

definition be_u16_at :: "u8 list \<Rightarrow> nat \<Rightarrow> packet_error + u16" where
  "be_u16_at xs i =
     bindE (byte_at xs i) (\<lambda>a. bindE (byte_at xs (i + 1)) (\<lambda>b. Inr (of_nat (be_value [a, b]))))"

section \<open>Constants\<close>

definition NFNL_SUBSYS_QUEUE :: u16 where "NFNL_SUBSYS_QUEUE = 3"
definition NFQNL_MSG_PACKET :: u16 where "NFQNL_MSG_PACKET = 0"
definition NFQNL_MSG_VERDICT :: u16 where "NFQNL_MSG_VERDICT = 1"
definition NFQA_PACKET_HDR :: u16 where "NFQA_PACKET_HDR = 1"
definition NFQA_VERDICT_HDR :: u16 where "NFQA_VERDICT_HDR = 2"
definition NFQA_MARK :: u16 where "NFQA_MARK = 3"
definition NFQA_IFINDEX_OUTDEV :: u16 where "NFQA_IFINDEX_OUTDEV = 6"
definition NFQA_PAYLOAD :: u16 where "NFQA_PAYLOAD = 10"
definition NFQA_CAP_LEN :: u16 where "NFQA_CAP_LEN = 13"
definition NFQA_SKB_INFO :: u16 where "NFQA_SKB_INFO = 14"
definition NFQA_UID :: u16 where "NFQA_UID = 16"
definition NFQA_CFG_F_FAIL_OPEN :: u32 where "NFQA_CFG_F_FAIL_OPEN = 1"
definition NFQA_CFG_F_GSO :: u32 where "NFQA_CFG_F_GSO = 4"
definition NFQA_CFG_F_UID_GID :: u32 where "NFQA_CFG_F_UID_GID = 8"
definition NFQA_SKB_GSO :: u32 where "NFQA_SKB_GSO = 2"
definition NLM_F_REQUEST :: u16 where "NLM_F_REQUEST = 1"
definition NETLINK_HEADER_BYTES :: nat where "NETLINK_HEADER_BYTES = 16"
definition NFGENMSG_BYTES :: nat where "NFGENMSG_BYTES = 4"
definition ATTRIBUTE_HEADER_BYTES :: nat where "ATTRIBUTE_HEADER_BYTES = 4"
definition PACKET_HEADER_BYTES :: nat where "PACKET_HEADER_BYTES = 7"
definition COPY_RANGE :: u32 where "COPY_RANGE = 512"
definition NFNETLINK_FAMILY_UNSPEC :: u8 where "NFNETLINK_FAMILY_UNSPEC = 0"

lemmas netlink_sizes = NETLINK_HEADER_BYTES_def NFGENMSG_BYTES_def ATTRIBUTE_HEADER_BYTES_def
  PACKET_HEADER_BYTES_def

section \<open>Building messages\<close>

definition align4 :: "nat \<Rightarrow> packet_error + nat" where
  "align4 v = ok_or (Refused ''netlink alignment overflow'') (map_option (\<lambda>v. v div 4 * 4) (checked_add_usize v 3))"

definition queue_message_type :: "u16 \<Rightarrow> u16" where
  "queue_message_type operation = push_bit 8 NFNL_SUBSYS_QUEUE OR operation"

definition append_attribute :: "endian \<Rightarrow> u8 list \<Rightarrow> u16 \<Rightarrow> u8 list \<Rightarrow> packet_error + u8 list" where
  "append_attribute e message kind payload =
     bindE (ok_or (Refused ''netlink attribute size overflow'') (checked_add_usize ATTRIBUTE_HEADER_BYTES (length payload))) (\<lambda>len.
     bindE (fail_if (2 ^ 16 \<le> len) (Refused ''netlink attribute is oversized'')) (\<lambda>_.
     let message = message @ ne_bytes e 2 len @ ne_bytes e 2 (unat kind) @ payload in
     bindE (align4 len) (\<lambda>aligned.
     bindE (ok_or (Refused ''netlink padding overflow'') (checked_add_usize (length message) (aligned - len))) (\<lambda>_.
     Inr (message @ replicate (aligned - len) 0)))))"

fun append_attributes ::
    "endian \<Rightarrow> u8 list \<Rightarrow> (u16 \<times> u8 list) list \<Rightarrow> packet_error + u8 list" where
  "append_attributes e payload [] = Inr payload"
| "append_attributes e payload ((kind, v) # attributes) =
     bindE (append_attribute e payload kind v) (\<lambda>payload. append_attributes e payload attributes)"

definition build_message ::
    "endian \<Rightarrow> u16 \<Rightarrow> u16 \<Rightarrow> u32 \<Rightarrow> u8 \<Rightarrow> u16 \<Rightarrow> (u16 \<times> u8 list) list \<Rightarrow> packet_error + u8 list" where
  "build_message e message_type flags sequence family resource_id attributes =
     bindE (append_attributes e ([family, 0] @ be_bytes 2 (unat resource_id)) attributes) (\<lambda>payload.
     bindE (ok_or (Refused ''netlink message size overflow'') (checked_add_usize NETLINK_HEADER_BYTES (length payload))) (\<lambda>len.
     bindE (fail_if (2 ^ 32 \<le> len) (Refused ''netlink message is oversized'')) (\<lambda>_.
     Inr (ne_bytes e 4 len @ ne_bytes e 2 (unat message_type) @ ne_bytes e 2 (unat flags)
          @ ne_bytes e 4 (unat sequence) @ ne_bytes e 4 0 @ payload))))"

definition build_verdict_message ::
    "endian \<Rightarrow> u32 \<Rightarrow> u16 \<Rightarrow> u32 \<Rightarrow> u32 \<Rightarrow> u32 option \<Rightarrow> packet_error + u8 list" where
  "build_verdict_message e sequence queue_number packet_id verdict mark =
     (let verdict_header = be_bytes 4 (unat verdict) @ be_bytes 4 (unat packet_id) in
      case mark of
        Some mark \<Rightarrow>
          build_message e (queue_message_type NFQNL_MSG_VERDICT) NLM_F_REQUEST sequence
            NFNETLINK_FAMILY_UNSPEC queue_number
            [(NFQA_VERDICT_HDR, verdict_header), (NFQA_MARK, be_bytes 4 (unat mark))]
      | None \<Rightarrow>
          build_message e (queue_message_type NFQNL_MSG_VERDICT) NLM_F_REQUEST sequence
            NFNETLINK_FAMILY_UNSPEC queue_number [(NFQA_VERDICT_HDR, verdict_header)])"

definition queue_configuration_flags :: "bool \<Rightarrow> u32 \<times> u32" where
  "queue_configuration_flags fail_open =
     (NFQA_CFG_F_UID_GID OR NFQA_CFG_F_GSO OR (if fail_open then NFQA_CFG_F_FAIL_OPEN else 0),
      NFQA_CFG_F_UID_GID OR NFQA_CFG_F_GSO OR NFQA_CFG_F_FAIL_OPEN)"

definition advance_netlink_sequence :: "u32 \<Rightarrow> u32" where
  "advance_netlink_sequence sequence = (if sequence + 1 = 0 then 1 else sequence + 1)"

section \<open>Iterating over a datagram\<close>

record netlink_message =
  nm_message_type :: u16
  nm_sequence :: u32
  nm_payload :: "u8 list"

record netlink_attribute =
  at_kind :: u16
  at_payload :: "u8 list"

text \<open>One call of \<open>next\<close> on the bytes and the offset: the item, if any, and the new offset.\<close>

definition aligned_length :: "nat \<Rightarrow> nat \<Rightarrow> nat option" where
  "aligned_length len remaining =
     (case align4 len of
        Inr aligned \<Rightarrow>
          if aligned \<le> remaining then Some aligned
          else if len = remaining then Some len else None
      | Inl _ \<Rightarrow> None)"

definition messages_next ::
    "endian \<Rightarrow> u8 list \<Rightarrow> nat \<Rightarrow> (packet_error + netlink_message) option \<times> nat" where
  "messages_next e bytes offset =
     (if offset = length bytes then (None, offset)
      else if length bytes < offset then (Some (Inl (Refused ''netlink offset is outside the datagram'')), offset)
      else let remaining = drop offset bytes in
        if length remaining < NETLINK_HEADER_BYTES
        then (Some (Inl (Refused ''netlink header is truncated'')), length bytes)
        else let len = ne_value e (take 4 remaining) in
          if len < NETLINK_HEADER_BYTES \<or> length remaining < len
          then (Some (Inl (Refused ''netlink message length is invalid'')), length bytes)
          else case aligned_length len (length remaining) of
              None \<Rightarrow> (Some (Inl (Refused ''netlink message alignment is invalid'')), length bytes)
            | Some aligned \<Rightarrow>
                (Some (Inr \<lparr>nm_message_type = of_nat (ne_value e (subslice 4 6 remaining)),
                         nm_sequence = of_nat (ne_value e (subslice 8 12 remaining)),
                         nm_payload = subslice NETLINK_HEADER_BYTES len remaining\<rparr>), offset + aligned))"

definition attributes_next ::
    "endian \<Rightarrow> u8 list \<Rightarrow> nat \<Rightarrow> (packet_error + netlink_attribute) option \<times> nat" where
  "attributes_next e bytes offset =
     (if offset = length bytes then (None, offset)
      else if length bytes < offset then (Some (Inl (Refused ''attribute offset is invalid'')), offset)
      else let remaining = drop offset bytes in
        if length remaining < ATTRIBUTE_HEADER_BYTES
        then (Some (Inl (Refused ''netlink attribute header is truncated'')), length bytes)
        else let len = ne_value e (subslice 0 2 remaining);
                 kind = of_nat (ne_value e (subslice 2 4 remaining)) AND 0x3fff in
          if len < ATTRIBUTE_HEADER_BYTES \<or> length remaining < len
          then (Some (Inl (Refused ''netlink attribute length is invalid'')), length bytes)
          else case aligned_length len (length remaining) of
              None \<Rightarrow> (Some (Inl (Refused ''netlink attribute alignment is invalid'')), length bytes)
            | Some aligned \<Rightarrow>
                (Some (Inr \<lparr>at_kind = kind,
                         at_payload = subslice ATTRIBUTE_HEADER_BYTES len remaining\<rparr>), offset + aligned))"

lemma aligned_length_bounds:
  "aligned_length len remaining = Some n \<Longrightarrow> len \<le> remaining \<Longrightarrow> len \<le> n \<and> n \<le> remaining"
  by (auto simp: aligned_length_def align4_def ok_or_def split: if_splits sum.splits option.splits)

lemma attributes_next_progress:
  assumes "attributes_next e bytes offset = (Some (Inr a), offset')"
  shows "offset + 4 \<le> offset' \<and> offset' \<le> length bytes"
  using assms aligned_length_bounds
  by (fastforce simp: attributes_next_def Let_def netlink_sizes split: if_splits option.splits)

lemma attributes_next_decreases:
  "(Some (Inr a), offset') = attributes_next e bytes offset \<Longrightarrow> length bytes - offset' < length bytes - offset"
  using attributes_next_progress [of e bytes offset a offset'] by (simp, linarith)

lemma messages_next_progress:
  assumes "messages_next e bytes offset = (Some (Inr a), offset')"
  shows "offset + 16 \<le> offset' \<and> offset' \<le> length bytes"
  using assms aligned_length_bounds
  by (fastforce simp: messages_next_def Let_def netlink_sizes split: if_splits option.splits)

lemma messages_next_decreases:
  "(Some (Inr a), offset') = messages_next e bytes offset \<Longrightarrow> length bytes - offset' < length bytes - offset"
  using messages_next_progress [of e bytes offset a offset'] by (simp, linarith)

text \<open>The loops \<open>for attribute in Attributes::new(bytes) { let attribute = attribute?; .. }\<close> and
  the same over messages: the body may fail and threads the mutable locals. An item that is an
  error ends the loop, and every other item advances, so the loops end.\<close>

function for_attributes ::
    "endian \<Rightarrow> u8 list \<Rightarrow> nat \<Rightarrow> ('s \<Rightarrow> netlink_attribute \<Rightarrow> packet_error + 's) \<Rightarrow> 's \<Rightarrow> packet_error + 's"
  where
  "for_attributes e bytes offset body s =
     (case attributes_next e bytes offset of
        (None, _) \<Rightarrow> Inr s
      | (Some (Inl err), _) \<Rightarrow> Inl err
      | (Some (Inr a), offset') \<Rightarrow>
          bindE (body s a) (\<lambda>s'. for_attributes e bytes offset' body s'))"
  by auto
termination
  by (relation "measure (\<lambda>(e, bytes, offset, body, s). length bytes - offset)")
    (auto intro: attributes_next_decreases)

function for_messages ::
    "endian \<Rightarrow> u8 list \<Rightarrow> nat \<Rightarrow> ('s \<Rightarrow> netlink_message \<Rightarrow> packet_error + 's) \<Rightarrow> 's \<Rightarrow> packet_error + 's"
  where
  "for_messages e bytes offset body s =
     (case messages_next e bytes offset of
        (None, _) \<Rightarrow> Inr s
      | (Some (Inl err), _) \<Rightarrow> Inl err
      | (Some (Inr m), offset') \<Rightarrow>
          bindE (body s m) (\<lambda>s'. for_messages e bytes offset' body s'))"
  by auto
termination
  by (relation "measure (\<lambda>(e, bytes, offset, body, s). length bytes - offset)")
    (auto intro: messages_next_decreases)

declare for_attributes.simps [simp del] for_messages.simps [simp del]

definition network_u32 :: "u8 list \<Rightarrow> packet_error + u32" where
  "network_u32 bytes =
     bindE (fail_if (length bytes \<noteq> 4) (Refused ''network u32 attribute has an invalid size'')) (\<lambda>_. Inr (of_nat (be_value bytes)))"

text \<open>\<open>packet_id\<close> flattens the iterator: errors are skipped, and the loop goes on until the
  iterator is exhausted. Not returning is \<open>None\<close> here.\<close>

partial_function (option) packet_id_loop :: "endian \<Rightarrow> u8 list \<Rightarrow> nat \<Rightarrow> u32 option option" where
  "packet_id_loop e bytes offset =
     (case attributes_next e bytes offset of
        (None, _) \<Rightarrow> Some None
      | (Some (Inl _), offset') \<Rightarrow> packet_id_loop e bytes offset'
      | (Some (Inr a), offset') \<Rightarrow>
          if at_kind a = NFQA_PACKET_HDR \<and> PACKET_HEADER_BYTES \<le> length (at_payload a)
          then Some (Some (of_nat (be_value (take 4 (at_payload a)))))
          else packet_id_loop e bytes offset')"

definition packet_id :: "endian \<Rightarrow> u8 list \<Rightarrow> u32 option option" where
  "packet_id e payload =
     (if length payload < NFGENMSG_BYTES then Some None
      else packet_id_loop e (drop NFGENMSG_BYTES payload) 0)"

end
