(* ===== verification/Packet.thy ===== *)
theory Packet
  imports Netlink
begin

text \<open>
  The packet parser of \<open>src/crates/openshield-daemon/src/nfqueue.rs\<close>: the captured prefix of a
  queued packet, IPv4 and IPv6 headers with the bounded walk over IPv6 extension headers, the
  transport headers, and the queued packet with the kernel's socket metadata. The interface
  name of an index (\<open>if_indextoname\<close> of the C library) is a parameter: no such interface, a name
  that is not UTF-8, or the name.
\<close>

unbundle bit_operations_syntax

section \<open>Data\<close>

record parsed_ip_packet =
  ip_source_address :: ip_addr
  ip_source_port :: "u16 option"
  ip_destination_address :: ip_addr
  ip_destination_port :: "u16 option"
  ip_protocol :: transport_protocol
  ip_initial_observation :: bool
  ip_transport_offset :: nat
  ip_tcp_flags :: "u8 option"
  ip_icmp_type :: "u8 option"

record packet_capture =
  pc_payload :: "u8 list"
  pc_original_length :: u32
  pc_skb_info :: u32

datatype ip_packet_direction = OutboundPacket | ReplyDirection

definition is_gso :: "packet_capture \<Rightarrow> bool" where
  "is_gso capture \<longleftrightarrow> pc_skb_info capture AND NFQA_SKB_GSO \<noteq> 0"

text \<open>\<open>slice.get(i)\<close> and \<open>u16::trailing_zeros\<close>.\<close>

definition get_byte :: "u8 list \<Rightarrow> nat \<Rightarrow> u8 option" where
  "get_byte xs i = (if i < length xs then Some (xs ! i) else None)"

definition trailing_zeros :: "'a::len word \<Rightarrow> nat" where
  "trailing_zeros w = length (takeWhile (\<lambda>i. \<not> bit w i) [0..<LENGTH('a)])"

section \<open>Transport headers\<close>

definition parse_transport_ports :: "u8 \<Rightarrow> u8 list \<Rightarrow> nat \<Rightarrow> packet_error + (u16 \<times> u16)" where
  "parse_transport_ports protocol_number packet offset =
     bindE (if protocol_number = 6
        then bindE (fail_if (length packet < offset + 20) (Refused ''TCP header is truncated'')) (\<lambda>_.
             bindE (byte_at packet (offset + 12)) (\<lambda>b.
             let header_length = unat (drop_bit 4 b) * 4 in
             fail_if (\<not> (20 \<le> header_length \<and> offset + header_length \<le> length packet))
               (Refused ''TCP data offset is invalid or its options are truncated'')))
        else bindE (fail_if (length packet < offset + 8) (Refused ''UDP header is truncated'')) (\<lambda>_.
             bindE (be_u16_at packet (offset + 4)) (\<lambda>len.
             fail_if (len < 8) (Refused ''UDP length is smaller than its header'')))) (\<lambda>_.
     bindE (be_u16_at packet offset) (\<lambda>source.
     bindE (be_u16_at packet (offset + 2)) (\<lambda>destination.
     bindE (fail_if (\<not> (source \<noteq> 0 \<and> destination \<noteq> 0)) (Refused ''transport port is zero'')) (\<lambda>_.
     Inr (source, destination)))))"

definition parse_echo :: "u8 \<Rightarrow> u8 list \<Rightarrow> nat \<Rightarrow> packet_error + u16" where
  "parse_echo expected packet offset =
     bindE (fail_if (length packet < offset + 8) (Refused ''ICMP header is truncated'')) (\<lambda>_.
     bindE (byte_at packet offset) (\<lambda>kind.
     bindE (byte_at packet (offset + 1)) (\<lambda>code.
     bindE (fail_if (\<not> (kind = expected \<and> code = 0)) (Refused ''ICMP echo type/code does not match the queue direction'')) (\<lambda>_.
     be_u16_at packet (offset + 4)))))"

definition transport_of ::
    "ip_addr \<Rightarrow> u8 \<Rightarrow> u8 list \<Rightarrow> nat \<Rightarrow> ip_packet_direction
      \<Rightarrow> packet_error + (transport_protocol \<times> u16 option \<times> u16 option)" where
  "transport_of source_address protocol_number packet offset direction =
     (if protocol_number = 6 \<or> protocol_number = 17
      then bindE (parse_transport_ports protocol_number packet offset) (\<lambda>(source, destination).
           Inr (if protocol_number = 6 then Tcp else Udp, Some source, Some destination))
      else if protocol_number = 1 \<and> is_ipv4 source_address
      then bindE (parse_echo (if direction = OutboundPacket then 8 else 0) packet offset) (\<lambda>identifier.
           Inr (Icmp, Some identifier, None))
      else if protocol_number = 58 \<and> \<not> is_ipv4 source_address
      then bindE (parse_echo (if direction = OutboundPacket then 128 else 129) packet offset) (\<lambda>identifier.
           Inr (IcmpV6, Some identifier, None))
      else Inl (Refused ''queued packet uses an unsupported transport protocol''))"

definition finish_transport ::
    "ip_addr \<Rightarrow> ip_addr \<Rightarrow> u8 \<Rightarrow> u8 list \<Rightarrow> nat \<Rightarrow> ip_packet_direction
      \<Rightarrow> packet_error + parsed_ip_packet" where
  "finish_transport source_address destination_address protocol_number packet offset direction =
     bindE (transport_of source_address protocol_number packet offset direction)
       (\<lambda>(protocol, source_port, destination_port).
     Inr \<lparr>ip_source_address = source_address, ip_source_port = source_port,
          ip_destination_address = destination_address, ip_destination_port = destination_port,
          ip_protocol = protocol,
          ip_initial_observation = (protocol \<noteq> Tcp
            \<or> is_some_and (get_byte packet (offset + 13)) (\<lambda>flags. flags AND 0x17 = 0x02)),
          ip_transport_offset = offset,
          ip_tcp_flags = (if protocol = Tcp then get_byte packet (offset + 13) else None),
          ip_icmp_type = (if protocol = Icmp \<or> protocol = IcmpV6 then get_byte packet offset
                          else None)\<rparr>)"

section \<open>IP headers\<close>

definition parse_ipv4_packet :: "packet_capture \<Rightarrow> ip_packet_direction \<Rightarrow> packet_error + parsed_ip_packet"
  where
  "parse_ipv4_packet capture direction =
     (let packet = pc_payload capture in
     bindE (fail_if (length packet < 20) (Refused ''IPv4 header is truncated'')) (\<lambda>_.
     bindE (byte_at packet 0) (\<lambda>b0.
     let header_length = unat (b0 AND 0x0f) * 4 in
     bindE (fail_if (\<not> (20 \<le> header_length \<and> header_length \<le> length packet)) (Refused ''invalid IPv4 IHL'')) (\<lambda>_.
     bindE (be_u16_at packet 2) (\<lambda>total.
     let total_length = (ucast total :: u32) in
     bindE (fail_if (\<not> (total_length = pc_original_length capture
              \<or> total_length = 0 \<and> is_gso capture \<and> 0xffff < pc_original_length capture))
              (Refused ''IPv4 total length does not match the kernel capture length'')) (\<lambda>_.
     bindE (be_u16_at packet 6) (\<lambda>fragment.
     bindE (fail_if (\<not> 13 \<le> trailing_zeros fragment) (Refused ''non-initial fragment is not attributable'')) (\<lambda>_.
     bindE (range_at packet 12 16) (\<lambda>source.
     bindE (range_at packet 16 20) (\<lambda>destination.
     bindE (byte_at packet 9) (\<lambda>protocol_number.
     finish_transport (IpV4 (of_nat (be_value source))) (IpV4 (of_nat (be_value destination)))
       protocol_number packet header_length direction)))))))))))"

text \<open>The loop over IPv6 extension headers runs at most eight times.\<close>

fun ipv6_extensions ::
    "nat \<Rightarrow> ip_addr \<Rightarrow> ip_addr \<Rightarrow> u8 list \<Rightarrow> ip_packet_direction \<Rightarrow> u8 \<Rightarrow> nat
      \<Rightarrow> packet_error + parsed_ip_packet" where
  "ipv6_extensions 0 source destination packet direction next_header offset = Inl (Refused ''IPv6 extension-header bound exceeded'')"
| "ipv6_extensions (Suc n) source destination packet direction next_header offset =
     (if next_header = 0 \<or> next_header = 43 \<or> next_header = 60
      then bindE (fail_if (length packet < offset + 2) (Refused ''IPv6 extension header is truncated'')) (\<lambda>_.
           bindE (byte_at packet offset) (\<lambda>next.
           bindE (byte_at packet (offset + 1)) (\<lambda>b.
           bindE (ok_or (Refused ''IPv6 extension offset overflow'') (checked_add_usize offset ((unat b + 1) * 8))) (\<lambda>offset'.
           bindE (fail_if (length packet < offset') (Refused ''IPv6 extension header is truncated'')) (\<lambda>_.
           ipv6_extensions n source destination packet direction next offset')))))
      else if next_header = 44
      then bindE (fail_if (length packet < offset + 8) (Refused ''IPv6 extension header is truncated'')) (\<lambda>_.
           bindE (be_u16_at packet (offset + 2)) (\<lambda>fragment.
           bindE (fail_if (fragment AND 0xfff8 \<noteq> 0) (Refused ''non-initial fragment is not attributable'')) (\<lambda>_.
           bindE (byte_at packet offset) (\<lambda>next.
           ipv6_extensions n source destination packet direction next (offset + 8)))))
      else if next_header = 51
      then bindE (fail_if (length packet < offset + 2) (Refused ''IPv6 extension header is truncated'')) (\<lambda>_.
           bindE (byte_at packet offset) (\<lambda>next.
           bindE (byte_at packet (offset + 1)) (\<lambda>b.
           bindE (ok_or (Refused ''IPv6 extension offset overflow'') (checked_add_usize offset ((unat b + 2) * 4))) (\<lambda>offset'.
           bindE (fail_if (length packet < offset') (Refused ''IPv6 extension header is truncated'')) (\<lambda>_.
           ipv6_extensions n source destination packet direction next offset')))))
      else finish_transport source destination next_header packet offset direction)"

definition parse_ipv6_packet :: "packet_capture \<Rightarrow> ip_packet_direction \<Rightarrow> packet_error + parsed_ip_packet"
  where
  "parse_ipv6_packet capture direction =
     (let packet = pc_payload capture in
     bindE (fail_if (length packet < 40) (Refused ''IPv6 header is truncated'')) (\<lambda>_.
     bindE (be_u16_at packet 4) (\<lambda>len.
     let payload_length = (ucast len :: u32) in
     bindE (fail_if (\<not> (payload_length + 40 = pc_original_length capture
              \<or> payload_length = 0 \<and> is_gso capture \<and> 0xffff + 40 < pc_original_length capture))
              (Refused ''IPv6 payload length does not match the kernel capture length'')) (\<lambda>_.
     bindE (range_at packet 8 24) (\<lambda>source.
     bindE (range_at packet 24 40) (\<lambda>destination.
     bindE (byte_at packet 6) (\<lambda>next_header.
     ipv6_extensions 8 (IpV6 (of_nat (be_value source))) (IpV6 (of_nat (be_value destination)))
       packet direction next_header 40)))))))"

definition capture_parse :: "packet_capture \<Rightarrow> ip_packet_direction \<Rightarrow> packet_error + parsed_ip_packet" where
  "capture_parse capture direction =
     bindE (ok_or (Refused ''queued IP packet is empty'') (map_option (drop_bit 4) (get_byte (pc_payload capture) 0))) (\<lambda>version.
     bindE (if version = 4 then parse_ipv4_packet capture direction
            else if version = 6 then parse_ipv6_packet capture direction
            else Inl (Refused ''queued payload is not IPv4 or IPv6'')) (\<lambda>parsed.
     bindE (if ip_protocol parsed = Udp
        then bindE (be_u16_at (pc_payload capture) (ip_transport_offset parsed + 4)) (\<lambda>len.
             bindE (fail_if (2 ^ 32 \<le> ip_transport_offset parsed) (Refused ''out of range integral type conversion attempted'')) (\<lambda>_.
             fail_if (\<not> of_nat (ip_transport_offset parsed) + (ucast len :: u32)
                        \<le> pc_original_length capture) (Refused ''UDP length exceeds the kernel packet length'')))
        else Inr ()) (\<lambda>_.
     Inr parsed)))"

section \<open>Captures and queued packets\<close>

record capture_locals =
  cl_payload :: "u8 list option"
  cl_original_length :: "u32 option"
  cl_skb_info :: "u32 option"

definition capture_attribute ::
    "capture_locals \<Rightarrow> netlink_attribute \<Rightarrow> packet_error + capture_locals" where
  "capture_attribute s a =
     (if at_kind a = NFQA_PAYLOAD
      then bindE (fail_if (cl_payload s \<noteq> None) (Refused ''duplicate queued packet payload'')) (\<lambda>_.
           Inr (s\<lparr>cl_payload := Some (at_payload a)\<rparr>))
      else if at_kind a = NFQA_CAP_LEN
      then bindE (fail_if (cl_original_length s \<noteq> None) (Refused ''duplicate queued packet capture length'')) (\<lambda>_.
           bindE (network_u32 (at_payload a)) (\<lambda>v. Inr (s\<lparr>cl_original_length := Some v\<rparr>)))
      else if at_kind a = NFQA_SKB_INFO
      then bindE (fail_if (cl_skb_info s \<noteq> None) (Refused ''duplicate queued packet skb information'')) (\<lambda>_.
           bindE (network_u32 (at_payload a)) (\<lambda>v. Inr (s\<lparr>cl_skb_info := Some v\<rparr>)))
      else Inr s)"

definition unwrap_or :: "'a \<Rightarrow> 'a option \<Rightarrow> 'a" where
  "unwrap_or d x = (case x of None \<Rightarrow> d | Some v \<Rightarrow> v)"

definition parse_packet_capture :: "endian \<Rightarrow> u8 list \<Rightarrow> packet_error + packet_capture" where
  "parse_packet_capture e attributes =
     bindE (for_attributes e attributes 0 capture_attribute
              \<lparr>cl_payload = None, cl_original_length = None, cl_skb_info = None\<rparr>) (\<lambda>s.
     bindE (ok_or (Refused ''queued packet has no payload'') (cl_payload s)) (\<lambda>payload.
     bindE (fail_if (2 ^ 32 \<le> length payload) (Refused ''out of range integral type conversion attempted'')) (\<lambda>_.
     let copied_length = (of_nat (length payload) :: u32) in
     bindE (fail_if (\<not> (0 < copied_length \<and> copied_length \<le> COPY_RANGE)) (Refused ''queued packet capture exceeds the configured prefix bound or is empty'')) (\<lambda>_.
     let original_length = unwrap_or copied_length (cl_original_length s) in
     bindE (fail_if (original_length < copied_length) (Refused ''queued packet capture length is smaller than its payload'')) (\<lambda>_.
     Inr \<lparr>pc_payload = payload, pc_original_length = original_length,
          pc_skb_info = unwrap_or 0 (cl_skb_info s)\<rparr>)))))"

record queued_locals =
  ql_uid :: "u32 option"
  ql_output_index :: "u32 option"
  ql_mark :: "u32 option"

definition queued_attribute :: "queued_locals \<Rightarrow> netlink_attribute \<Rightarrow> packet_error + queued_locals" where
  "queued_attribute s a =
     (if at_kind a = NFQA_UID
      then bindE (network_u32 (at_payload a)) (\<lambda>v. Inr (s\<lparr>ql_uid := Some v\<rparr>))
      else if at_kind a = NFQA_IFINDEX_OUTDEV
      then bindE (network_u32 (at_payload a)) (\<lambda>v. Inr (s\<lparr>ql_output_index := Some v\<rparr>))
      else if at_kind a = NFQA_MARK
      then bindE (network_u32 (at_payload a)) (\<lambda>v. Inr (s\<lparr>ql_mark := Some v\<rparr>))
      else Inr s)"

type_synonym if_names = "u32 \<Rightarrow> ustring option option"

definition interface_for_index :: "if_names \<Rightarrow> u32 \<Rightarrow> packet_error + interface_name" where
  "interface_for_index names index =
     bindE (fail_if (index = 0) (Refused ''output interface index is zero'')) (\<lambda>_.
     bindE (ok_or (Refused ''output interface index does not exist'') (names index)) (\<lambda>name.
     bindE (ok_or (Refused ''interface name is not UTF-8'') name) (\<lambda>name.
     map_err (\<lambda>_. Refused ''output interface name is invalid'') (interface_name_new name))))"

definition parse_queued_packet :: "endian \<Rightarrow> if_names \<Rightarrow> u8 list \<Rightarrow> packet_error + queued_packet" where
  "parse_queued_packet e names payload =
     bindE (fail_if (length payload < NFGENMSG_BYTES) (Refused ''queued packet netlink payload is truncated'')) (\<lambda>_.
     bindE (for_attributes e (drop NFGENMSG_BYTES payload) 0 queued_attribute
              \<lparr>ql_uid = None, ql_output_index = None, ql_mark = None\<rparr>) (\<lambda>s.
     bindE (parse_packet_capture e (drop NFGENMSG_BYTES payload)) (\<lambda>capture.
     bindE (capture_parse capture OutboundPacket) (\<lambda>parsed.
     bindE (ok_or (Refused ''queued packet has no kernel socket uid'') (ql_uid s)) (\<lambda>socket_uid.
     bindE (ok_or (Refused ''queued packet has no output interface'') (ql_output_index s)) (\<lambda>output_index.
     bindE (interface_for_index names output_index) (\<lambda>output_interface.
     let connection = \<lparr>oc_source_address = ip_source_address parsed,
           oc_source_port = ip_source_port parsed,
           oc_destination_address = ip_destination_address parsed,
           oc_destination_port = ip_destination_port parsed, oc_protocol = ip_protocol parsed,
           oc_output_interface = output_interface, oc_socket_uid = socket_uid\<rparr> in
     bindE (map_err (\<lambda>_. Refused ''invalid connection'') (outbound_connection_validate connection)) (\<lambda>_.
     Inr \<lparr>qp_connection = connection, qp_packet_mark = unwrap_or 0 (ql_mark s),
          qp_initial_observation = ip_initial_observation parsed\<rparr>))))))))"

end
