(* ===== verification/Marks.thy ===== *)
theory Marks
  imports Policy_State
begin

text \<open>
  The packet and connection marks of \<open>src/crates/openshield-core/src/nftables.rs\<close>: the two
  reserved high bits carry a private domain, or on the reply path the number of retries, and
  the low thirty bits of the host's own mark are kept.
\<close>

unbundle bit_operations_syntax

definition APPLICATION_QUEUE_NUMBER :: u16 where "APPLICATION_QUEUE_NUMBER = 1337"
definition APPLICATION_LEARNING_QUEUE_NUMBER :: u16 where "APPLICATION_LEARNING_QUEUE_NUMBER = 1338"
definition APPLICATION_REPLY_QUEUE_NUMBER :: u16 where "APPLICATION_REPLY_QUEUE_NUMBER = 1339"
definition APPLICATION_MARK_GENERATION_MASK :: u32 where
  "APPLICATION_MARK_GENERATION_MASK = MAX_FLOW_GENERATION"
definition APPLICATION_MARK_DOMAIN_MASK :: u32 where "APPLICATION_MARK_DOMAIN_MASK = 0xc0000000"
definition APPLICATION_MARK_PAYLOAD_MASK :: u32 where "APPLICATION_MARK_PAYLOAD_MASK = 0x3fffffff"
definition APPLICATION_PENDING_DOMAIN :: u32 where "APPLICATION_PENDING_DOMAIN = 0x80000000"
definition APPLICATION_HANDOFF_DOMAIN :: u32 where "APPLICATION_HANDOFF_DOMAIN = 0xc0000000"
definition APPLICATION_REJECT_DOMAIN :: u32 where "APPLICATION_REJECT_DOMAIN = 0x40000000"
definition APPLICATION_FLOW_DOMAIN :: u32 where "APPLICATION_FLOW_DOMAIN = 0x40000000"

definition application_pending_mark :: "u32 \<Rightarrow> u32" where
  "application_pending_mark packet_mark =
     APPLICATION_PENDING_DOMAIN OR (packet_mark AND APPLICATION_MARK_PAYLOAD_MASK)"

definition application_handoff_mark :: "u32 \<Rightarrow> u32" where
  "application_handoff_mark packet_mark =
     APPLICATION_HANDOFF_DOMAIN OR (packet_mark AND APPLICATION_MARK_PAYLOAD_MASK)"

definition application_reject_mark :: "u32 \<Rightarrow> u32" where
  "application_reject_mark packet_mark =
     APPLICATION_REJECT_DOMAIN OR (packet_mark AND APPLICATION_MARK_PAYLOAD_MASK)"

definition application_reply_retry_mark :: "u32 \<Rightarrow> u32" where
  "application_reply_retry_mark packet_mark =
     (let attempts = drop_bit 30 packet_mark;
          next_attempt = if attempts < 3 then attempts + 1 else 3
      in push_bit 30 next_attempt OR (packet_mark AND APPLICATION_MARK_PAYLOAD_MASK))"

definition application_flow_mark :: "u32 \<Rightarrow> u32" where
  "application_flow_mark flow_generation =
     APPLICATION_FLOW_DOMAIN OR (flow_generation AND APPLICATION_MARK_GENERATION_MASK)"

definition application_reject_connmark :: "u32 \<Rightarrow> u32" where
  "application_reject_connmark flow_generation = flow_generation AND APPLICATION_MARK_GENERATION_MASK"

section \<open>Domains and payloads\<close>

lemma payload_mask: "APPLICATION_MARK_PAYLOAD_MASK = mask 30"
  by (simp add: APPLICATION_MARK_PAYLOAD_MASK_def mask_eq_exp_minus_1)

lemma domain_of_join:
  fixes m d :: u32
  assumes "d < 4"
  shows "drop_bit 30 (push_bit 30 d OR (m AND mask 30)) = d"
    "(push_bit 30 d OR (m AND mask 30)) AND mask 30 = m AND mask 30"
proof -
  have high: "\<not> bit d i" if "2 \<le> i" for i
  proof -
    have "unat d < 2 ^ 2" using assms by (simp add: word_less_nat_alt)
    then have "take_bit 2 d = d"
      by (metis take_bit_nat_eq_self unsigned_take_bit_eq word_unat_eq_iff)
    then show ?thesis using that by (metis bit_take_bit_iff linorder_not_less)
  qed
  show "drop_bit 30 (push_bit 30 d OR (m AND mask 30)) = d"
  proof (rule bit_word_eqI)
    fix n assume "n < LENGTH(32)"
    then show "bit (drop_bit 30 (push_bit 30 d OR (m AND mask 30))) n \<longleftrightarrow> bit d n"
      using high [of n] by (cases "2 \<le> n") (auto simp: bit_simps)
  qed
  show "(push_bit 30 d OR (m AND mask 30)) AND mask 30 = m AND mask 30"
    by (rule bit_word_eqI) (auto simp: bit_simps)
qed

lemma attempts_small: "drop_bit 30 (m :: u32) < 4"
proof -
  have "unat (drop_bit 30 m) = unat m div 2 ^ 30" by (simp add: drop_bit_eq_div unat_div_distrib)
  also have "\<dots> < 4" using unsigned_less [of m, where 'a = nat] by (simp add: div_less_iff_less_mult less_mult_imp_div_less)
  finally show ?thesis by (simp add: word_less_nat_alt)
qed

text \<open>A retry adds one to the attempts until three, and keeps the host's bits; the mark is
  terminal exactly when three attempts were made.\<close>

lemma retry_mark:
  "drop_bit 30 (application_reply_retry_mark m) =
     (if drop_bit 30 m < 3 then drop_bit 30 m + 1 else 3)"
  "application_reply_retry_mark m AND mask 30 = m AND mask 30"
proof -
  let ?a = "if drop_bit 30 m < 3 then drop_bit 30 m + 1 else 3"
  have "?a < 4"
  proof (cases "drop_bit 30 m < 3")
    case True
    then have "unat (drop_bit 30 m + 1) = unat (drop_bit 30 m) + 1"
      by (subst unat_word_add_one) auto
    then show ?thesis using True by (simp add: word_less_nat_alt)
  qed simp
  then show "drop_bit 30 (application_reply_retry_mark m) = ?a"
    "application_reply_retry_mark m AND mask 30 = m AND mask 30"
    unfolding application_reply_retry_mark_def payload_mask Let_def by (fact domain_of_join)+
qed

lemma word_split_30: "(x :: u32) = y \<longleftrightarrow> drop_bit 30 x = drop_bit 30 y \<and> x AND mask 30 = y AND mask 30"
  by (metis bits_ident take_bit_eq_mask)

lemma retry_terminal: "m = application_reply_retry_mark m \<longleftrightarrow> \<not> drop_bit 30 m < 3"
proof -
  have "drop_bit 30 m = 3" if "\<not> drop_bit 30 m < 3"
    using that attempts_small [of m] by (simp add: word_less_nat_alt word_unat_eq_iff)
  moreover have "drop_bit 30 m \<noteq> drop_bit 30 m + 1" by simp
  ultimately show ?thesis
    by (subst word_split_30) (auto simp: retry_mark)
qed

end
