(* ===== verification/Reply.thy ===== *)
theory Reply
  imports Queue_Progress Packet Marks "HOL-Library.FSet" "HOL-Library.AList"
begin

text \<open>
  The reply readiness registry and the reply retry worker of
  \<open>src/crates/openshield-daemon/src/nfqueue_reply.rs\<close>. Tickets count the originals of a flow
  whose verdict is outstanding; a reply waits until the originals before it have their verdicts
  and is then repeated or dropped. A hash map is an association list whose order stands for the
  unspecified iteration order. What other threads do between two steps (the policy, the clock,
  the shutdown flag, results of the sockets) is an argument of the step.
\<close>

definition CAPACITY :: nat where "CAPACITY = 128"
definition LIFETIME :: nat where "LIFETIME = 2000000000"
definition RETRY_BACKOFF :: nat where "RETRY_BACKOFF = 5000000"
definition PENDING_POLL_MILLIS :: u16 where "PENDING_POLL_MILLIS = 5"
definition RECEIVE_POLL_MILLIS :: u16 where "RECEIVE_POLL_MILLIS = 100"

text \<open>\<open>Instant::checked_add\<close>: instants hold 64-bit signed seconds and nanoseconds.\<close>

definition instant_checked_add :: "instant \<Rightarrow> nat \<Rightarrow> instant option" where
  "instant_checked_add t d = (if t + d < 2 ^ 63 * 10 ^ 9 then Some (t + d) else None)"

datatype reply_error = ReplyRefused string | ReplyPacketError packet_error | ReplyProgress progress_error

section \<open>The registry\<close>

record outgoing_ticket =
  tk_key :: reply_flow_key
  tk_generation :: u32
  tk_wave :: u64
  tk_serial :: u64

record wave =
  wv_serial :: u64
  wv_active :: "u64 fset"
  wv_failed :: bool
  wv_updated :: instant

record registry =
  rg_generation :: "u32 option"
  rg_next_serial :: u64
  rg_flows :: "(reply_flow_key \<times> wave) list"
  rg_progress :: queue_progress

definition registry_new :: "nat \<Rightarrow> u32 \<Rightarrow> progress_error + registry" where
  "registry_new epoch queue_port_id =
     bindE (queue_progress_new epoch queue_port_id) (\<lambda>progress.
     Inr \<lparr>rg_generation = None, rg_next_serial = 0, rg_flows = [], rg_progress = progress\<rparr>)"

definition wave_live :: "instant \<Rightarrow> wave \<Rightarrow> bool" where
  "wave_live now w \<longleftrightarrow> wv_active w \<noteq> {||} \<or> now - wv_updated w < LIFETIME"

definition prune :: "instant \<Rightarrow> registry \<Rightarrow> registry" where
  "prune now r = r\<lparr>rg_flows := filter (\<lambda>(_, w). wave_live now w) (rg_flows r)\<rparr>"

definition active_tickets :: "registry \<Rightarrow> nat" where
  "active_tickets r = sum_list (map (\<lambda>(_, w). fcard (wv_active w)) (rg_flows r))"

definition oldest_settled :: "(reply_flow_key \<times> wave) list \<Rightarrow> reply_flow_key option" where
  "oldest_settled flows =
     (let settled = filter (\<lambda>(_, w). wv_active w = {||}) flows in
      if settled = [] then None else Some (fst (arg_min_list (\<lambda>(_, w). wv_updated w) settled)))"

definition evict_oldest :: "reply_flow_key \<Rightarrow> registry \<Rightarrow> registry" where
  "evict_oldest key r =
     (if map_of (rg_flows r) key = None \<and> CAPACITY \<le> length (rg_flows r)
      then (case oldest_settled (rg_flows r) of
              Some oldest \<Rightarrow> r\<lparr>rg_flows := AList.delete oldest (rg_flows r)\<rparr>
            | None \<Rightarrow> r)
      else r)"

definition begin_wave :: "u64 \<Rightarrow> instant \<Rightarrow> wave option \<Rightarrow> wave" where
  "begin_wave serial now existing =
     (let w = (case existing of
                 Some w \<Rightarrow> w
               | None \<Rightarrow> \<lparr>wv_serial = serial, wv_active = {||}, wv_failed = False, wv_updated = now\<rparr>);
          w = (if wv_active w = {||} then w\<lparr>wv_serial := serial, wv_failed := False\<rparr> else w)
      in w\<lparr>wv_active := finsert serial (wv_active w), wv_updated := now\<rparr>)"

definition registry_begin ::
    "reply_flow_key \<Rightarrow> u32 \<Rightarrow> instant \<Rightarrow> registry \<Rightarrow> (reply_error + outgoing_ticket) \<times> registry" where
  "registry_begin key generation now r =
     (let r = (if rg_generation r \<noteq> Some generation
               then r\<lparr>rg_flows := [], rg_generation := Some generation\<rparr> else r);
          r = prune now r in
      tryS (fail_if (\<not> active_tickets r < CAPACITY)
              (ReplyRefused ''reply readiness active ticket bound exceeded'')) r (\<lambda>_.
      let r = evict_oldest key r in
      tryS (fail_if (\<not> (map_of (rg_flows r) key \<noteq> None \<or> length (rg_flows r) < CAPACITY))
              (ReplyRefused ''reply readiness flow bound exceeded'')) r (\<lambda>_.
      tryS (fail_if (rg_next_serial r = -1)
              (ReplyRefused ''reply readiness ticket space exhausted'')) r (\<lambda>_.
      let serial = rg_next_serial r + 1;
          w = begin_wave serial now (map_of (rg_flows r) key)
      in (Inr \<lparr>tk_key = key, tk_generation = generation, tk_wave = wv_serial w, tk_serial = serial\<rparr>,
          r\<lparr>rg_next_serial := serial, rg_flows := AList.update key w (rg_flows r)\<rparr>)))))"

definition registry_complete ::
    "outgoing_ticket \<Rightarrow> bool \<Rightarrow> instant \<Rightarrow> registry \<Rightarrow> bool \<times> registry" where
  "registry_complete ticket succeeded now r =
     (if rg_generation r \<noteq> Some (tk_generation ticket) then (False, r)
      else case map_of (rg_flows r) (tk_key ticket) of
          None \<Rightarrow> (False, r)
        | Some w \<Rightarrow>
            if wv_serial w \<noteq> tk_wave ticket \<or> tk_serial ticket |\<notin>| wv_active w then (False, r)
            else (True, r\<lparr>rg_flows := AList.update (tk_key ticket)
                    (w\<lparr>wv_active := wv_active w |-| {|tk_serial ticket|},
                       wv_failed := (wv_failed w \<or> \<not> succeeded), wv_updated := now\<rparr>) (rg_flows r)\<rparr>))"

section \<open>Pending replies\<close>

record reply_packet =
  rp_key :: reply_flow_key
  rp_packet_mark :: u32

record pending_reply =
  pr_packet :: reply_packet
  pr_generation :: u32
  pr_started :: instant
  pr_not_before :: instant
  pr_read_through :: read_through_barrier

datatype disposition = WaitReply | DropReply | RepeatReply

definition registry_readiness :: "pending_reply \<Rightarrow> instant \<Rightarrow> registry \<Rightarrow> disposition \<times> registry" where
  "registry_readiness pending now r =
     (let r = prune now r in
      if rg_generation r \<noteq> Some (pr_generation pending) then (WaitReply, r)
      else case map_of (rg_flows r) (rp_key (pr_packet pending)) of
          None \<Rightarrow> (WaitReply, r)
        | Some w \<Rightarrow> (if wv_failed w then DropReply else RepeatReply, r))"

definition reply_disposition ::
    "pending_reply \<Rightarrow> mode \<Rightarrow> u32 \<Rightarrow> bool \<Rightarrow> instant \<Rightarrow> registry \<Rightarrow> disposition \<times> registry" where
  "reply_disposition pending mode generation stopping now r =
     (if stopping \<or> mode \<noteq> Enforcing \<or> generation \<noteq> pr_generation pending
         \<or> LIFETIME \<le> now - pr_started pending
      then (DropReply, r)
      else if now < pr_not_before pending then (WaitReply, r)
      else if \<not> barrier_reached_for_flow (rg_progress r) (pr_read_through pending)
                 (rp_key (pr_packet pending))
      then (WaitReply, r)
      else registry_readiness pending now r)"

type_synonym pending_replies = "(u32 \<times> pending_reply) list"

definition pending_insert ::
    "u32 \<Rightarrow> reply_packet \<Rightarrow> u32 \<Rightarrow> instant \<Rightarrow> read_through_barrier \<Rightarrow> pending_replies
      \<Rightarrow> (reply_error + bool) \<times> pending_replies" where
  "pending_insert i packet generation now read_through pending =
     tryS (fail_if (map_of pending i \<noteq> None)
             (ReplyRefused ''reply queue reused an outstanding packet id'')) pending (\<lambda>_.
     if CAPACITY \<le> length pending then (Inr False, pending)
     else tryS (if drop_bit 30 (rp_packet_mark packet) = 0 then Inr now
                else ok_or (ReplyRefused ''reply retry backoff deadline overflowed'')
                       (instant_checked_add now RETRY_BACKOFF)) pending (\<lambda>not_before.
          (Inr True, AList.update i \<lparr>pr_packet = packet, pr_generation = generation, pr_started = now,
             pr_not_before = not_before, pr_read_through = read_through\<rparr> pending)))"

definition poll_millis :: "pending_replies \<Rightarrow> u16" where
  "poll_millis pending = (if pending = [] then RECEIVE_POLL_MILLIS else PENDING_POLL_MILLIS)"

section \<open>Registration and completion of originals\<close>

definition register_outgoing_packets ::
    "queued_packet_work list \<Rightarrow> registry \<Rightarrow> (progress_error + unit) \<times> registry" where
  "register_outgoing_packets packets r =
     (let (res, progress) = admit_classified (map (\<lambda>work. (qw_packet_id work, classify_outgoing work)) packets)
            (rg_progress r)
      in (res, r\<lparr>rg_progress := progress\<rparr>))"

definition outgoing_packet_capacity :: "registry \<Rightarrow> nat" where
  "outgoing_packet_capacity r = remaining_capacity (rg_progress r)"

definition register_outgoing ::
    "mode \<Rightarrow> u32 \<Rightarrow> instant \<Rightarrow> queued_packet_work \<Rightarrow> registry
      \<Rightarrow> (reply_error + outgoing_ticket option) \<times> registry" where
  "register_outgoing mode generation now work r =
     (case qw_packet work of
        Inl _ \<Rightarrow> (Inr None, r)
      | Inr packet \<Rightarrow>
          if mode \<noteq> Enforcing then (Inr None, r)
          else let c = qp_connection packet in
            if oc_protocol c \<notin> {Udp, Icmp, IcmpV6} then (Inr None, r)
            else tryS (ok_or (ReplyRefused ''outgoing reply key has no local port/identifier'')
                         (oc_source_port c)) r (\<lambda>local_port.
              thenS (registry_begin \<lparr>rk_local = oc_source_address c, rk_local_port = local_port,
                        rk_remote = oc_destination_address c, rk_remote_port = oc_destination_port c,
                        rk_protocol = oc_protocol c\<rparr> generation now r) (\<lambda>ticket r.
              (Inr (Some ticket), r))))"

text \<open>\<open>iter().map(..).collect()\<close> stops at the first error; every original is registered at an
  instant of its own.\<close>

fun register_outgoing_batch ::
    "mode \<Rightarrow> u32 \<Rightarrow> (queued_packet_work \<times> instant) list \<Rightarrow> registry
      \<Rightarrow> (reply_error + outgoing_ticket option list) \<times> registry" where
  "register_outgoing_batch mode generation [] r = (Inr [], r)"
| "register_outgoing_batch mode generation ((work, now) # batch) r =
     thenS (register_outgoing mode generation now work r) (\<lambda>ticket r.
     thenS (register_outgoing_batch mode generation batch r) (\<lambda>tickets r.
     (Inr (ticket # tickets), r)))"

definition complete_outgoing ::
    "outgoing_ticket option \<Rightarrow> bool \<Rightarrow> instant \<Rightarrow> registry \<Rightarrow> registry" where
  "complete_outgoing ticket succeeded now r =
     (case ticket of None \<Rightarrow> r | Some t \<Rightarrow> snd (registry_complete t succeeded now r))"

definition record_outgoing_verdict :: "u32 \<Rightarrow> registry \<Rightarrow> (progress_error + unit) \<times> registry" where
  "record_outgoing_verdict i r =
     (let (res, progress) = complete_packet i (rg_progress r) in (res, r\<lparr>rg_progress := progress\<rparr>))"

section \<open>Parsing replies\<close>

definition mark_attribute :: "u32 option \<Rightarrow> netlink_attribute \<Rightarrow> packet_error + u32 option" where
  "mark_attribute m a =
     (if at_kind a = NFQA_MARK
      then bindE (fail_if (m \<noteq> None) (Refused ''reply has duplicate mark'')) (\<lambda>_.
           bindE (network_u32 (at_payload a)) (\<lambda>v. Inr (Some v)))
      else Inr m)"

definition reply_ports :: "parsed_ip_packet \<Rightarrow> packet_error + (u16 \<times> u16 option)" where
  "reply_ports parsed =
     (if ip_protocol parsed = Udp
      then bindE (ok_or (Refused ''UDP reply has no destination port'') (ip_destination_port parsed))
             (\<lambda>local_port. Inr (local_port, ip_source_port parsed))
      else bindE (ok_or (Refused ''echo reply has no identifier'') (ip_source_port parsed))
             (\<lambda>identifier. Inr (identifier, None)))"

definition parse_reply :: "endian \<Rightarrow> u8 list \<Rightarrow> packet_error + reply_packet" where
  "parse_reply e payload =
     bindE (fail_if (length payload < NFGENMSG_BYTES) (Refused ''reply netlink payload is truncated'')) (\<lambda>_.
     bindE (be_u16_at payload 2) (\<lambda>queue.
     bindE (fail_if (queue \<noteq> APPLICATION_REPLY_QUEUE_NUMBER)
              (Refused ''reply message came from an unexpected queue'')) (\<lambda>_.
     bindE (parse_packet_capture e (drop NFGENMSG_BYTES payload)) (\<lambda>capture.
     bindE (for_attributes e (drop NFGENMSG_BYTES payload) 0 mark_attribute None) (\<lambda>mark.
     let packet_mark = unwrap_or 0 mark in
     bindE (fail_if (packet_mark = application_reply_retry_mark packet_mark)
              (Refused ''terminal reply retry budget reached its queue again'')) (\<lambda>_.
     bindE (capture_parse capture ReplyDirection) (\<lambda>parsed.
     bindE (fail_if (ip_protocol parsed \<notin> {Udp, Icmp, IcmpV6})
              (Refused ''reply retry only supports UDP and ICMP echo replies'')) (\<lambda>_.
     bindE (fail_if (length (pc_payload capture) < ip_transport_offset parsed + 8)
              (Refused ''reply transport header is truncated'')) (\<lambda>_.
     bindE (reply_ports parsed) (\<lambda>(local_port, remote_port).
     Inr \<lparr>rp_key = \<lparr>rk_local = ip_destination_address parsed, rk_local_port = local_port,
             rk_remote = ip_source_address parsed, rk_remote_port = remote_port,
             rk_protocol = ip_protocol parsed\<rparr>,
          rp_packet_mark = packet_mark\<rparr>))))))))))"

section \<open>The retry worker\<close>

text \<open>The verdicts of the worker in the order sent; a verdict that cannot be sent ends it. The
  environment of one step: the policy identity under the engine lock, the shutdown flag, the
  clock, whether sending succeeds, and the registry as other threads left it.\<close>

datatype reply_verdict = SentDrop u32 | SentRepeat u32 u32

record release_env =
  re_identity :: "reply_error + (mode \<times> u32)"
  re_stopping :: bool
  re_now :: instant
  re_sends :: bool
  re_others :: "registry \<Rightarrow> registry"

record reply_worker =
  rw_pending :: pending_replies
  rw_registry :: registry
  rw_sent :: "reply_verdict list"
  rw_denied :: nat

definition send_reply :: "bool \<Rightarrow> reply_verdict \<Rightarrow> reply_worker \<Rightarrow> (reply_error + unit) \<times> reply_worker" where
  "send_reply ok v w =
     (if ok then (Inr (), w\<lparr>rw_sent := rw_sent w @ [v]\<rparr>)
      else (Inl (ReplyRefused ''cannot send NFQUEUE verdict''), w))"

definition drop_reply :: "bool \<Rightarrow> u32 \<Rightarrow> reply_worker \<Rightarrow> (reply_error + unit) \<times> reply_worker" where
  "drop_reply ok i w =
     thenS (send_reply ok (SentDrop i) w) (\<lambda>_ w. (Inr (), w\<lparr>rw_denied := Suc (rw_denied w)\<rparr>))"

definition release_one ::
    "release_env \<Rightarrow> u32 \<Rightarrow> reply_worker \<Rightarrow> (reply_error + unit) \<times> reply_worker" where
  "release_one env i w =
     (let w = w\<lparr>rw_registry := re_others env (rw_registry w)\<rparr> in
      tryS (re_identity env) w (\<lambda>(mode, generation).
      tryS (ok_or (ReplyRefused ''pending reply disappeared'') (map_of (rw_pending w) i)) w (\<lambda>packet.
      let (d, r) = reply_disposition packet mode generation (re_stopping env) (re_now env) (rw_registry w);
          w = w\<lparr>rw_registry := r\<rparr>;
          remove = (\<lambda>_ w. (Inr (), w\<lparr>rw_pending := AList.delete i (rw_pending w)\<rparr>))
      in case d of
           WaitReply \<Rightarrow> (Inr (), w)
         | DropReply \<Rightarrow> thenS (drop_reply (re_sends env) i w) remove
         | RepeatReply \<Rightarrow>
             thenS (send_reply (re_sends env)
                      (SentRepeat i (application_reply_retry_mark (rp_packet_mark (pr_packet packet)))) w)
               remove)))"

fun release_loop ::
    "(u32 \<times> release_env) list \<Rightarrow> reply_worker \<Rightarrow> (reply_error + unit) \<times> reply_worker" where
  "release_loop [] w = (Inr (), w)"
| "release_loop ((i, env) # steps) w =
     thenS (release_one env i w) (\<lambda>_ w. release_loop steps w)"

text \<open>The loop takes the keys of the pending map at its start.\<close>

definition release_pending ::
    "release_env list \<Rightarrow> reply_worker \<Rightarrow> (reply_error + unit) \<times> reply_worker" where
  "release_pending envs w = release_loop (zip (map fst (rw_pending w)) envs) w"

record admission_env =
  ae_barrier :: "reply_error + read_through_barrier"
  ae_identity :: "reply_error + (mode \<times> u32)"
  ae_stopping :: bool
  ae_now :: instant
  ae_sends :: bool

text \<open>One message of a received datagram in \<open>run_inner\<close>.\<close>

definition admit_reply ::
    "endian \<Rightarrow> admission_env \<Rightarrow> netlink_message \<Rightarrow> reply_worker \<Rightarrow> (reply_error + unit) \<times> reply_worker" where
  "admit_reply e env message w =
     (if nm_message_type message \<noteq> queue_message_type NFQNL_MSG_PACKET then (Inr (), w)
      else tryS (ok_or (ReplyRefused ''reply has no packet identifier'')
                   (Option.bind (packet_id e (nm_payload message)) (\<lambda>i. i))) w (\<lambda>i.
        tryS (fail_if (map_of (rw_pending w) i \<noteq> None)
                (ReplyRefused ''reply queue reused an outstanding packet id'')) w (\<lambda>_.
        case parse_reply e (nm_payload message) of
          Inl _ \<Rightarrow> drop_reply (ae_sends env) i w
        | Inr packet \<Rightarrow>
            (case ae_barrier env of
               Inl _ \<Rightarrow> drop_reply (ae_sends env) i w
             | Inr read_through \<Rightarrow>
                 tryS (ae_identity env) w (\<lambda>(mode, generation).
                 if mode \<noteq> Enforcing \<or> ae_stopping env then drop_reply (ae_sends env) i w
                 else let (res, pending) = pending_insert i packet generation (ae_now env) read_through
                             (rw_pending w);
                          w = w\<lparr>rw_pending := pending\<rparr>
                      in tryS res w (\<lambda>inserted.
                         if \<not> inserted then drop_reply (ae_sends env) i w else (Inr (), w)))))))"

text \<open>What \<open>run_inner\<close> does with the replies left when it shuts down.\<close>

fun drop_all :: "u32 list \<Rightarrow> reply_worker \<Rightarrow> (reply_error + unit) \<times> reply_worker" where
  "drop_all [] w = (Inr (), w)"
| "drop_all (i # is) w = thenS (drop_reply True i w) (\<lambda>_ w. drop_all is w)"

end
