(* ===== verification/Netlink_Properties.thy ===== *)
theory Netlink_Properties
  imports Netlink
begin

text \<open>
  Laws of the netlink layer: bytes read back as the number they were written from, the
  iterators read back the messages and attributes that the builder wrote, and the loop that
  looks for a packet identifier ends on every input.
\<close>

section \<open>Bytes\<close>

lemma length_be_bytes [simp]: "length (be_bytes k n) = k"
  by (induction k) auto

lemma length_ne_bytes [simp]: "length (ne_bytes e k n) = k"
  by (simp add: ne_bytes_def split: endian.split)

lemma be_value_bytes [simp]: "be_value (be_bytes k n) = n mod 256 ^ k"
proof (induction k)
  case (Suc k)
  have "unat (of_nat (n div 256 ^ k) :: u8) = n div 256 ^ k mod 256" by (simp add: unat_of_nat)
  then show ?case
    using Suc mod_mult2_eq [of n "256 ^ k" 256] by (simp add: mult.commute)
qed simp

lemma ne_value_bytes [simp]: "ne_value e (ne_bytes e k n) = n mod 256 ^ k"
  by (simp add: ne_value_def ne_bytes_def split: endian.split)

lemma unat_mod [simp]: "unat (w :: u16) mod 65536 = unat w" "unat (v :: u32) mod 4294967296 = unat v"
  using unsigned_less [of w, where 'a = nat] unsigned_less [of v, where 'a = nat] by simp_all

lemma subslice_append [simp]:
  "i = length xs \<Longrightarrow> j = length xs + length ys \<Longrightarrow> subslice i j (xs @ ys @ zs) = ys"
  "j = length xs \<Longrightarrow> subslice 0 j (xs @ zs) = xs"
  by (simp_all add: subslice_def)

lemma align4_le: "n + 3 \<le> usize_max \<Longrightarrow> align4 n = Inr ((n + 3) div 4 * 4)"
  by (simp add: align4_def checked_add_usize_def)

section \<open>Attributes\<close>

definition attribute_bytes :: "endian \<Rightarrow> u16 \<times> u8 list \<Rightarrow> u8 list" where
  "attribute_bytes e a =
     ne_bytes e 2 (length (snd a) + 4) @ ne_bytes e 2 (unat (fst a)) @ snd a
     @ replicate ((length (snd a) + 7) div 4 * 4 - (length (snd a) + 4)) 0"

lemma length_attribute_bytes [simp]: "length (attribute_bytes e a) = (length (snd a) + 7) div 4 * 4"
  by (simp add: attribute_bytes_def)

lemma append_attribute_eq:
  assumes "append_attribute e message kind v = Inr message'"
  shows "message' = message @ attribute_bytes e (kind, v)" "length v + 4 < 2 ^ 16"
proof -
  have len: "length v + 4 < 2 ^ 16"
    using assms by (auto simp: append_attribute_def res_simps netlink_sizes)
  moreover have "align4 (length v + 4) = Inr ((length v + 7) div 4 * 4)"
    using len by (subst align4_le) (simp_all add: add.commute add.left_commute)
  ultimately show "message' = message @ attribute_bytes e (kind, v)"
    using assms by (auto simp: append_attribute_def res_simps netlink_sizes Let_def attribute_bytes_def
        add.commute)
  show "length v + 4 < 2 ^ 16" by (rule len)
qed

lemma append_attribute_ok:
  assumes "length v + 4 < 2 ^ 16" "length message < 2 ^ 32"
  shows "append_attribute e message kind v = Inr (message @ attribute_bytes e (kind, v))"
proof -
  have "align4 (length v + 4) = Inr ((length v + 7) div 4 * 4)"
    using assms by (subst align4_le) (simp_all add: add.commute add.left_commute)
  moreover have "(length v + 7) div 4 * 4 - (length v + 4) \<le> 3" by linarith
  ultimately show ?thesis
    using assms by (simp add: append_attribute_def checked_add_usize_def netlink_sizes attribute_bytes_def
        add.commute)
qed

lemma append_attributes_eq:
  assumes "append_attributes e message attrs = Inr message'"
  shows "message' = message @ concat (map (attribute_bytes e) attrs)
    \<and> (\<forall>a\<in>set attrs. length (snd a) + 4 < 2 ^ 16)"
  using assms
proof (induction attrs arbitrary: message)
  case (Cons a attrs)
  then obtain m where "append_attribute e message (fst a) (snd a) = Inr m" "append_attributes e m attrs = Inr message'"
    by (cases a) (auto simp: res_simps)
  then show ?case using append_attribute_eq [of e message "fst a" "snd a" m] Cons.IH [of m] by simp
qed simp

lemma attributes_next_bytes:
  assumes "length v + 4 < 2 ^ 16"
  shows "attributes_next e (pre @ attribute_bytes e (k, v) @ rest) (length pre) =
    (Some (Inr \<lparr>at_kind = k AND 0x3fff, at_payload = v\<rparr>), length (pre @ attribute_bytes e (k, v)))"
proof -
  let ?b = "attribute_bytes e (k, v) @ rest"
  have len: "ne_value e (subslice 0 2 ?b) = length v + 4"
    using assms by (simp add: attribute_bytes_def)
  have kind: "ne_value e (subslice 2 4 ?b) = unat k"
    by (simp add: attribute_bytes_def)
  have payload: "subslice 4 (length v + 4) ?b = v"
    using subslice_append(1) [of 4 "ne_bytes e 2 (length v + 4) @ ne_bytes e 2 (unat k)" "length v + 4" v]
    by (simp add: attribute_bytes_def)
  have "aligned_length (length v + 4) (length ?b) = Some ((length v + 7) div 4 * 4)"
    using assms align4_le [of "length v + 4"] by (simp add: aligned_length_def add.commute)
  moreover have "length v + 4 \<le> length ?b" "0 < (length v + 7) div 4" by simp_all
  ultimately show ?thesis
    using len kind payload by (simp add: attributes_next_def Let_def netlink_sizes)
qed

text \<open>A loop over what the builder wrote is a fold over the attributes that it was given.\<close>

fun fold_res :: "('s \<Rightarrow> 'a \<Rightarrow> 'e + 's) \<Rightarrow> 's \<Rightarrow> 'a list \<Rightarrow> 'e + 's" where
  "fold_res body s [] = Inr s"
| "fold_res body s (x # xs) = bindE (body s x) (\<lambda>s. fold_res body s xs)"

definition read_attribute :: "u16 \<times> u8 list \<Rightarrow> netlink_attribute" where
  "read_attribute a = \<lparr>at_kind = fst a AND 0x3fff, at_payload = snd a\<rparr>"

lemma for_attributes_bytes:
  assumes "\<forall>a\<in>set attrs. length (snd a) + 4 < 2 ^ 16"
  shows "for_attributes e (pre @ concat (map (attribute_bytes e) attrs)) (length pre) body s =
    fold_res body s (map read_attribute attrs)"
  using assms
proof (induction attrs arbitrary: pre s)
  case Nil
  then show ?case by (subst for_attributes.simps) (simp add: attributes_next_def)
next
  case (Cons a attrs)
  obtain k v where a: "a = (k, v)" by (cases a)
  have "attributes_next e (pre @ concat (map (attribute_bytes e) (a # attrs))) (length pre) =
      (Some (Inr (read_attribute a)), length (pre @ attribute_bytes e a))"
    using attributes_next_bytes [of v e pre k] Cons.prems by (simp add: a read_attribute_def)
  moreover have "for_attributes e (pre @ concat (map (attribute_bytes e) (a # attrs)))
      (length (pre @ attribute_bytes e a)) body = (\<lambda>s'. fold_res body s' (map read_attribute attrs))"
    using Cons.IH [of "pre @ attribute_bytes e a"] Cons.prems by (intro ext) simp
  ultimately show ?case by (subst for_attributes.simps) simp
qed

section \<open>Messages\<close>

definition collect :: "'a list \<Rightarrow> 'a \<Rightarrow> packet_error + 'a list" where
  "collect xs x = Inr (xs @ [x])"

lemma fold_collect: "fold_res collect xs ys = Inr (xs @ ys)"
  by (induction ys arbitrary: xs) (simp_all add: collect_def)

lemma for_messages_single:
  assumes "length payload + 16 < 2 ^ 32" "length payload mod 4 = 0"
  shows "for_messages e (ne_bytes e 4 (length payload + 16) @ ne_bytes e 2 (unat t) @ ne_bytes e 2 f
      @ ne_bytes e 4 (unat q) @ ne_bytes e 4 p @ payload) 0 collect [] =
    Inr [\<lparr>nm_message_type = t, nm_sequence = q, nm_payload = payload\<rparr>]" (is "for_messages e ?m 0 collect [] = _")
proof -
  have len: "ne_value e (take 4 ?m) = length payload + 16" using assms(1) by simp
  have t: "subslice 4 6 ?m = ne_bytes e 2 (unat t)" by simp
  have q: "subslice 8 12 ?m = ne_bytes e 4 (unat q)"
    using subslice_append(1) [of 8 "ne_bytes e 4 (length payload + 16) @ ne_bytes e 2 (unat t) @ ne_bytes e 2 f"
        12 "ne_bytes e 4 (unat q)" "ne_bytes e 4 p @ payload"] by simp
  have p: "subslice 16 (length payload + 16) ?m = payload"
    using subslice_append(1) [of 16 "ne_bytes e 4 (length payload + 16) @ ne_bytes e 2 (unat t) @ ne_bytes e 2 f
        @ ne_bytes e 4 (unat q) @ ne_bytes e 4 p" "length payload + 16" payload "[]"] by simp
  have "aligned_length (length payload + 16) (length ?m) = Some (length payload + 16)"
    using assms align4_le [of "length payload + 16"]
    by (simp add: aligned_length_def) presburger
  then have "messages_next e ?m 0 =
      (Some (Inr \<lparr>nm_message_type = t, nm_sequence = q, nm_payload = payload\<rparr>), length ?m)"
    using len t q p by (simp add: messages_next_def Let_def netlink_sizes)
  moreover have "messages_next e ?m (length ?m) = (None, length ?m)" by (simp add: messages_next_def)
  ultimately show ?thesis
    by (subst for_messages.simps) (simp add: collect_def for_messages.simps)
qed

lemma concat_attributes_mod4: "length (concat (map (attribute_bytes e) attrs)) mod 4 = 0"
  by (induction attrs) auto

lemma build_message_round_trip:
  assumes "build_message e t f q family rid attrs = Inr message"
  shows "\<exists>payload. for_messages e message 0 collect [] =
      Inr [\<lparr>nm_message_type = t, nm_sequence = q, nm_payload = payload\<rparr>]
    \<and> take 4 payload = [family, 0] @ be_bytes 2 (unat rid)
    \<and> for_attributes e (drop 4 payload) 0 body s = fold_res body s (map read_attribute attrs)"
proof -
  let ?hdr = "[family, 0] @ be_bytes 2 (unat rid)"
  let ?p = "?hdr @ concat (map (attribute_bytes e) attrs)"
  obtain p where p: "append_attributes e ?hdr attrs = Inr p" and small: "length p + 16 < 2 ^ 32"
    and m: "message = ne_bytes e 4 (length p + 16) @ ne_bytes e 2 (unat t) @ ne_bytes e 2 (unat f)
        @ ne_bytes e 4 (unat q) @ ne_bytes e 4 0 @ p"
    using assms by (auto simp: build_message_def res_simps netlink_sizes add.commute not_le)
  note app = append_attributes_eq [OF p]
  then have "length p mod 4 = 0" using concat_attributes_mod4 [of e attrs] by simp
  then have "for_messages e message 0 collect [] = Inr [\<lparr>nm_message_type = t, nm_sequence = q, nm_payload = p\<rparr>]"
    unfolding m by (rule for_messages_single [OF small])
  moreover have "for_attributes e (drop 4 p) 0 body s = fold_res body s (map read_attribute attrs)"
    using for_attributes_bytes [of attrs e "[]" body s] app by simp
  moreover have "take 4 p = ?hdr" using app by simp
  ultimately show ?thesis by blast
qed

section \<open>The search for a packet identifier\<close>

lemma attributes_next_error:
  "attributes_next e bytes offset = (Some (Inl err), offset') \<Longrightarrow> offset \<le> length bytes
    \<Longrightarrow> offset < length bytes \<and> offset' = length bytes"
  by (auto simp: attributes_next_def Let_def split: if_splits option.splits)

lemma packet_id_loop_end: "packet_id_loop e bytes (length bytes) = Some None"
  by (subst packet_id_loop.simps) (simp add: attributes_next_def)

lemma packet_id_loop_total: "offset \<le> length bytes \<Longrightarrow> \<exists>r. packet_id_loop e bytes offset = Some r"
proof (induction "length bytes - offset" arbitrary: offset rule: less_induct)
  case less
  obtain item offset' where step: "attributes_next e bytes offset = (item, offset')" by fastforce
  consider "item = None" | err where "item = Some (Inl err)" | a where "item = Some (Inr a)"
    by (metis option.exhaust sumE)
  then show ?case
  proof cases
    case 1
    then show ?thesis using step by (subst packet_id_loop.simps) simp
  next
    case 2
    then have "offset' = length bytes" using attributes_next_error step less.prems by blast
    then show ?thesis using step 2 packet_id_loop_end by (subst packet_id_loop.simps) simp
  next
    case 3
    then have "offset + 4 \<le> offset' \<and> offset' \<le> length bytes"
      using attributes_next_progress step by blast
    then have "\<exists>r. packet_id_loop e bytes offset' = Some r" by (intro less.hyps) linarith+
    then show ?thesis using step 3 by (subst packet_id_loop.simps) simp
  qed
qed

section \<open>Properties\<close>

text \<open>C32: The search for the packet identifier of a queued message returns on every payload: errors
  that the flattened iterator skips cannot make it run forever, even though the offset only
  moves on well-formed attributes.\<close>
theorem packet_id_terminates: "\<exists>r. packet_id e payload = Some r"
  by (simp add: packet_id_def packet_id_loop_total)

text \<open>Every verdict message can be built, and reading it back with the daemon's own iterators
  gives one message of the verdict type with the same sequence number, the unspecified family
  and the queue number, whose attributes are exactly the verdict header with the verdict and the
  packet identifier in network order and, when a mark is set, the mark.\<close>
theorem verdict_message_round_trip:
  "\<exists>message payload. build_verdict_message e q queue i verdict mark = Inr message
    \<and> for_messages e message 0 collect [] =
        Inr [\<lparr>nm_message_type = 0x301, nm_sequence = q, nm_payload = payload\<rparr>]
    \<and> take 4 payload = [0, 0] @ be_bytes 2 (unat queue)
    \<and> for_attributes e (drop 4 payload) 0 collect [] =
        Inr (\<lparr>at_kind = NFQA_VERDICT_HDR, at_payload = be_bytes 4 (unat verdict) @ be_bytes 4 (unat i)\<rparr>
             # (case mark of None \<Rightarrow> [] | Some m \<Rightarrow> [\<lparr>at_kind = NFQA_MARK, at_payload = be_bytes 4 (unat m)\<rparr>]))"
proof -
  define attrs where "attrs = (NFQA_VERDICT_HDR, be_bytes 4 (unat verdict) @ be_bytes 4 (unat i))
    # (case mark of None \<Rightarrow> [] | Some m \<Rightarrow> [(NFQA_MARK, be_bytes 4 (unat m))])"
  have t: "queue_message_type NFQNL_MSG_VERDICT = 0x301"
    by (simp add: queue_message_type_def NFNL_SUBSYS_QUEUE_def NFQNL_MSG_VERDICT_def)
  have build: "build_verdict_message e q queue i verdict mark = build_message e 0x301 NLM_F_REQUEST q 0 queue attrs"
    by (simp add: build_verdict_message_def attrs_def t NFNETLINK_FAMILY_UNSPEC_def split: option.split)
  have "\<exists>p. append_attributes e ([0, 0] @ be_bytes 2 (unat queue)) attrs = Inr p \<and> length p < 100"
    by (simp add: attrs_def append_attribute_ok split: option.split)
  then have "is_ok (build_message e 0x301 NLM_F_REQUEST q 0 queue attrs)"
    by (auto simp: build_message_def netlink_sizes checked_add_usize_def)
  then obtain message where m: "build_message e 0x301 NLM_F_REQUEST q 0 queue attrs = Inr message"
    unfolding is_ok_iff by blast
  have "map read_attribute attrs =
      \<lparr>at_kind = NFQA_VERDICT_HDR, at_payload = be_bytes 4 (unat verdict) @ be_bytes 4 (unat i)\<rparr>
      # (case mark of None \<Rightarrow> [] | Some m \<Rightarrow> [\<lparr>at_kind = NFQA_MARK, at_payload = be_bytes 4 (unat m)\<rparr>])"
    by (simp add: attrs_def read_attribute_def NFQA_VERDICT_HDR_def NFQA_MARK_def split: option.split)
  then show ?thesis
    using build_message_round_trip [OF m, of collect "[]"] unfolding build m fold_collect by auto
qed

end
