(* ===== verification/Packet_Properties.thy ===== *)
theory Packet_Properties
  imports Packet Netlink_Properties
begin

text \<open>
  The packet parser reads no byte out of range, whatever the kernel or the network supplies;
  what it accepts lies inside the captured prefix and is a well-formed connection tuple, so that
  the validation after it cannot fail.
\<close>

section \<open>Reading bytes\<close>

lemma byte_at_iff [res_simps]:
  "byte_at xs i = Inr b \<longleftrightarrow> i < length xs \<and> b = xs ! i"
  "byte_at xs i = Inl e \<longleftrightarrow> length xs \<le> i \<and> e = IndexPanic"
  by (auto simp: byte_at_def)

lemma be_u16_at_iff [res_simps]:
  "be_u16_at xs i = Inr w \<longleftrightarrow> i + 1 < length xs \<and> w = of_nat (be_value [xs ! i, xs ! (i + 1)])"
  "be_u16_at xs i = Inl e \<longleftrightarrow> length xs \<le> i + 1 \<and> e = IndexPanic"
  by (auto simp: be_u16_at_def res_simps)

lemma range_at_iff [res_simps]:
  "range_at xs i j = Inr ys \<longleftrightarrow> i \<le> j \<and> j \<le> length xs \<and> ys = subslice i j xs"
  "range_at xs i j = Inl e \<longleftrightarrow> \<not> (i \<le> j \<and> j \<le> length xs) \<and> e = IndexPanic"
  by (auto simp: range_at_def)

lemma get_byte_Some: "get_byte xs i = Some b \<longleftrightarrow> i < length xs \<and> b = xs ! i"
  by (auto simp: get_byte_def)

section \<open>Transport headers\<close>

definition header_bytes :: "transport_protocol \<Rightarrow> nat" where
  "header_bytes protocol = (if protocol = Tcp then 20 else 8)"

text \<open>What an accepted transport header guarantees of the tuple.\<close>

definition tuple_ok :: "bool \<Rightarrow> transport_protocol \<Rightarrow> u16 option \<Rightarrow> u16 option \<Rightarrow> bool" where
  "tuple_ok ipv4 protocol source_port destination_port \<longleftrightarrow>
     (case protocol of
        Tcp \<Rightarrow> is_some_and source_port (\<lambda>p. p \<noteq> 0) \<and> is_some_and destination_port (\<lambda>p. p \<noteq> 0)
      | Udp \<Rightarrow> is_some_and source_port (\<lambda>p. p \<noteq> 0) \<and> is_some_and destination_port (\<lambda>p. p \<noteq> 0)
      | Icmp \<Rightarrow> ipv4 \<and> source_port \<noteq> None \<and> destination_port = None
      | IcmpV6 \<Rightarrow> \<not> ipv4 \<and> source_port \<noteq> None \<and> destination_port = None
      | Any \<Rightarrow> False)"

lemma parse_transport_ports_ok:
  assumes "parse_transport_ports n packet offset = Inr (s, d)"
  shows "s \<noteq> 0 \<and> d \<noteq> 0 \<and> offset + (if n = 6 then 20 else 8) \<le> length packet"
  using assms by (auto simp: parse_transport_ports_def res_simps Let_def split: if_splits)

lemma parse_transport_ports_total: "parse_transport_ports n packet offset \<noteq> Inl IndexPanic"
  by (auto simp: parse_transport_ports_def res_simps Let_def)

lemma parse_echo_ok: "parse_echo k packet offset = Inr i \<Longrightarrow> offset + 8 \<le> length packet"
  by (auto simp: parse_echo_def res_simps)

lemma parse_echo_total: "parse_echo k packet offset \<noteq> Inl IndexPanic"
  by (auto simp: parse_echo_def res_simps)

lemma transport_of_ok:
  assumes "transport_of a n packet offset dir = Inr (protocol, s, d)"
  shows "tuple_ok (is_ipv4 a) protocol s d \<and> offset + header_bytes protocol \<le> length packet"
  using assms
  by (auto simp: transport_of_def res_simps tuple_ok_def header_bytes_def split: if_splits
      dest!: parse_transport_ports_ok parse_echo_ok)

lemma transport_of_total: "transport_of a n packet offset dir \<noteq> Inl IndexPanic"
  using parse_transport_ports_total [of n packet offset] parse_echo_total [of _ packet offset]
  by (auto simp: transport_of_def res_simps)

definition parsed_ok :: "bool \<Rightarrow> u8 list \<Rightarrow> parsed_ip_packet \<Rightarrow> bool" where
  "parsed_ok ipv4 packet p \<longleftrightarrow>
     is_ipv4 (ip_source_address p) = ipv4 \<and> is_ipv4 (ip_destination_address p) = ipv4
     \<and> tuple_ok ipv4 (ip_protocol p) (ip_source_port p) (ip_destination_port p)
     \<and> ip_transport_offset p + header_bytes (ip_protocol p) \<le> length packet"

lemma finish_transport_ok:
  assumes "finish_transport s d n packet offset dir = Inr p" "is_ipv4 d = is_ipv4 s"
  shows "parsed_ok (is_ipv4 s) packet p"
  using assms by (auto simp: finish_transport_def res_simps parsed_ok_def dest!: transport_of_ok)

lemma finish_transport_total: "finish_transport s d n packet offset dir \<noteq> Inl IndexPanic"
  using transport_of_total by (auto simp: finish_transport_def res_simps)

section \<open>IP headers\<close>

lemma parse_ipv4_ok: "parse_ipv4_packet c dir = Inr p \<Longrightarrow> parsed_ok True (pc_payload c) p"
  by (auto simp: parse_ipv4_packet_def res_simps Let_def dest!: finish_transport_ok)

lemma parse_ipv4_total: "parse_ipv4_packet c dir \<noteq> Inl IndexPanic"
  using finish_transport_total by (auto simp: parse_ipv4_packet_def res_simps Let_def)

lemma ipv6_extensions_ok:
  assumes "ipv6_extensions n s d packet dir nh offset = Inr p" "\<not> is_ipv4 s" "\<not> is_ipv4 d"
  shows "parsed_ok False packet p"
  using assms
proof (induction n arbitrary: nh offset)
  case (Suc n)
  from Suc.prems(1) show ?case
    using Suc.IH Suc.prems(2,3) finish_transport_ok [of s d nh packet offset dir p]
    by (auto simp: res_simps split: if_splits)
qed simp

lemma ipv6_extensions_total: "ipv6_extensions n s d packet dir nh offset \<noteq> Inl IndexPanic"
  using finish_transport_total
  by (induction n arbitrary: nh offset) (auto simp: res_simps)

lemma parse_ipv6_ok: "parse_ipv6_packet c dir = Inr p \<Longrightarrow> parsed_ok False (pc_payload c) p"
  by (auto simp: parse_ipv6_packet_def res_simps Let_def dest!: ipv6_extensions_ok)

lemma parse_ipv6_total: "parse_ipv6_packet c dir \<noteq> Inl IndexPanic"
  using ipv6_extensions_total by (auto simp: parse_ipv6_packet_def res_simps Let_def simp del: ipv6_extensions.simps)

lemma capture_parse_ok:
  "capture_parse c dir = Inr p \<Longrightarrow> parsed_ok (is_ipv4 (ip_source_address p)) (pc_payload c) p"
  by (auto simp: capture_parse_def res_simps parsed_ok_def split: if_splits
      dest!: parse_ipv4_ok parse_ipv6_ok)

lemma capture_parse_total: "capture_parse c dir \<noteq> Inl IndexPanic"
proof -
  have "ip_transport_offset p + 8 \<le> length (pc_payload c)"
    if "(if v = (4 :: u8) then parse_ipv4_packet c dir else if v = 6 then parse_ipv6_packet c dir
         else Inl (Refused m)) = Inr p" "ip_protocol p = Udp" for v m p
    using that by (auto split: if_splits dest!: parse_ipv4_ok parse_ipv6_ok simp: parsed_ok_def header_bytes_def)
  then show ?thesis
    using parse_ipv4_total [of c dir] parse_ipv6_total [of c dir]
    by (fastforce simp: capture_parse_def res_simps split: if_splits)
qed

section \<open>Captures and queued packets\<close>

lemma for_attributes_total:
  assumes "\<And>s a. body s a \<noteq> Inl IndexPanic"
  shows "for_attributes e bytes offset body s \<noteq> Inl IndexPanic"
  using assms
proof (induction e bytes offset body s rule: for_attributes.induct)
  case (1 e bytes offset body s)
  obtain item offset' where step: "attributes_next e bytes offset = (item, offset')" by fastforce
  have "item \<noteq> Some (Inl IndexPanic)"
    using step by (auto simp: attributes_next_def Let_def split: if_splits option.splits)
  then show ?case
    using 1 step by (subst for_attributes.simps) (auto simp: res_simps split: option.splits sum.splits)
qed

lemma network_u32_total: "network_u32 bytes \<noteq> Inl IndexPanic"
  by (auto simp: network_u32_def res_simps)

lemma capture_attribute_total: "capture_attribute s a \<noteq> Inl IndexPanic"
  using network_u32_total by (auto simp: capture_attribute_def res_simps)

lemma queued_attribute_total: "queued_attribute s a \<noteq> Inl IndexPanic"
  using network_u32_total by (auto simp: queued_attribute_def res_simps)

lemma parse_packet_capture_total: "parse_packet_capture e bytes \<noteq> Inl IndexPanic"
  using for_attributes_total [of capture_attribute] capture_attribute_total
  by (auto simp: parse_packet_capture_def res_simps Let_def)

lemma parse_packet_capture_ok:
  assumes "parse_packet_capture e bytes = Inr c"
  shows "0 < length (pc_payload c) \<and> length (pc_payload c) \<le> 512
    \<and> length (pc_payload c) \<le> unat (pc_original_length c)"
proof -
  let ?n = "length (pc_payload c)"
  have "?n < 2 ^ 32" "(of_nat ?n :: u32) \<noteq> 0" "(of_nat ?n :: u32) \<le> 512" "of_nat ?n \<le> pc_original_length c"
    using assms by (auto simp: parse_packet_capture_def res_simps Let_def COPY_RANGE_def not_less)
  then show ?thesis by (auto simp: word_le_nat_alt unat_of_nat)
qed

section \<open>A sample packet\<close>

text \<open>A UDP datagram from 10.0.0.1 port 53 to 10.0.0.2 port 12345 with no data, as an attribute.\<close>

definition sample_packet :: "u8 list" where
  "sample_packet = [0x45, 0, 0, 28, 0, 0, 0, 0, 64, 17, 0, 0, 10, 0, 0, 1, 10, 0, 0, 2,
     0, 53, 48, 57, 0, 8, 0, 0]"

definition sample_capture :: packet_capture where
  "sample_capture = \<lparr>pc_payload = sample_packet, pc_original_length = 28, pc_skb_info = 0\<rparr>"

definition sample_parsed :: parsed_ip_packet where
  "sample_parsed = \<lparr>ip_source_address = IpV4 0x0a000001, ip_source_port = Some 53,
     ip_destination_address = IpV4 0x0a000002, ip_destination_port = Some 12345, ip_protocol = Udp,
     ip_initial_observation = True, ip_transport_offset = 20, ip_tcp_flags = None, ip_icmp_type = None\<rparr>"

lemma sample_captured:
  "parse_packet_capture e (attribute_bytes e (NFQA_PAYLOAD, sample_packet)) = Inr sample_capture"
proof -
  have "for_attributes e (attribute_bytes e (NFQA_PAYLOAD, sample_packet)) 0 body s =
      fold_res body s [read_attribute (NFQA_PAYLOAD, sample_packet)]" for body :: "capture_locals \<Rightarrow> _" and s
    using for_attributes_bytes [of "[(NFQA_PAYLOAD, sample_packet)]" e "[]" body s]
    by (simp add: sample_packet_def)
  then show ?thesis
    by (simp add: parse_packet_capture_def capture_attribute_def read_attribute_def NFQA_PAYLOAD_def
        sample_capture_def sample_packet_def COPY_RANGE_def unwrap_or_def)
qed

lemma trailing_zeros_0 [simp]: "trailing_zeros (0 :: 'a::len word) = LENGTH('a)"
  by (simp add: trailing_zeros_def takeWhile_eq_all_conv [THEN iffD2])

lemma sample_parses: "capture_parse sample_capture dir = Inr sample_parsed"
  by (simp add: capture_parse_def get_byte_def parse_ipv4_packet_def sample_capture_def sample_packet_def
      byte_at_def be_u16_at_def range_at_def subslice_def finish_transport_def
      transport_of_def parse_transport_ports_def sample_parsed_def)

section \<open>Properties\<close>


text \<open>C31: An accepted packet was decided from the bounded prefix alone: at most 512 captured bytes,
  with the whole fixed transport header inside them, the prefix no longer than the kernel's
  packet, and a UDP datagram that ends within the kernel's packet.\<close>
theorem accepted_packets_lie_in_prefix:
  assumes "parse_packet_capture e bytes = Inr c" "capture_parse c dir = Inr p"
  shows "ip_transport_offset p + (if ip_protocol p = Tcp then 20 else 8) \<le> length (pc_payload c)
    \<and> length (pc_payload c) \<le> min 512 (unat (pc_original_length c))
    \<and> (ip_protocol p = Udp \<longrightarrow>
        ip_transport_offset p
          + be_value [pc_payload c ! (ip_transport_offset p + 4), pc_payload c ! (ip_transport_offset p + 5)]
        \<le> unat (pc_original_length c))"
proof -
  have off: "ip_transport_offset p + (if ip_protocol p = Tcp then 20 else 8) \<le> length (pc_payload c)"
    using capture_parse_ok [OF assms(2)] by (simp add: parsed_ok_def header_bytes_def)
  have small: "length (pc_payload c) \<le> 512" "length (pc_payload c) \<le> unat (pc_original_length c)"
    using parse_packet_capture_ok [OF assms(1)] by auto
  have "ip_transport_offset p + be_value [a, b] \<le> unat (pc_original_length c)"
    if "ip_protocol p = Udp" "a = pc_payload c ! (ip_transport_offset p + 4)"
      "b = pc_payload c ! (ip_transport_offset p + 5)" for a b
  proof -
    let ?len = "ucast (of_nat (be_value [a, b]) :: u16) :: u32"
    have "unat a < 256" "unat b < 256"
      using unsigned_less [of a, where 'a = nat] unsigned_less [of b, where 'a = nat] by simp_all
    then have v: "be_value [a, b] < 65536" by simp
    then have len: "unat ?len = be_value [a, b]"
      by (simp add: unsigned_ucast_eq unsigned_of_nat take_bit_nat_eq_self del: be_value.simps)
    have "of_nat (ip_transport_offset p) + ?len \<le> pc_original_length c"
      using assms(2) that by (auto simp: capture_parse_def res_simps add.commute [of 5] simp del: be_value.simps)
    moreover have "unat (of_nat (ip_transport_offset p) + ?len) = ip_transport_offset p + be_value [a, b]"
      using len v off small by (subst unat_word_ariths) (simp add: unat_of_nat del: be_value.simps)
    ultimately show ?thesis by (simp add: word_le_nat_alt del: be_value.simps)
  qed
  then show ?thesis using off small by simp
qed

theorem accepted_packets_lie_in_prefix_witness:
  "parse_packet_capture LittleEndian (attribute_bytes LittleEndian (NFQA_PAYLOAD, sample_packet)) = Inr sample_capture
    \<and> ip_transport_offset sample_parsed + 8 \<le> length (pc_payload sample_capture)"
  using accepted_packets_lie_in_prefix [OF sample_captured [of LittleEndian] sample_parses [of OutboundPacket]]
    sample_captured [of LittleEndian] by (simp add: sample_parsed_def)

text \<open>C30: A parsed packet is always a well-typed connection: both addresses of one family, non-zero
  ports for TCP and UDP, an identifier and no port for the echo of the matching family. The
  validation of the connection after parsing therefore never refuses a packet.\<close>
theorem parsed_connections_are_valid:
  assumes "capture_parse c dir = Inr p"
  shows "outbound_connection_validate
    \<lparr>oc_source_address = ip_source_address p, oc_source_port = ip_source_port p,
     oc_destination_address = ip_destination_address p, oc_destination_port = ip_destination_port p,
     oc_protocol = ip_protocol p, oc_output_interface = i, oc_socket_uid = uid\<rparr> = Inr ()"
  using capture_parse_ok [OF assms]
  by (cases "ip_protocol p") (auto simp: outbound_connection_validate_def parsed_ok_def tuple_ok_def)

theorem parsed_connections_are_valid_witness:
  "capture_parse sample_capture OutboundPacket = Inr sample_parsed
    \<and> outbound_connection_validate
        \<lparr>oc_source_address = IpV4 0x0a000001, oc_source_port = Some 53,
         oc_destination_address = IpV4 0x0a000002, oc_destination_port = Some 12345,
         oc_protocol = Udp, oc_output_interface = InterfaceName [101], oc_socket_uid = 0\<rparr> = Inr ()"
  using parsed_connections_are_valid [OF sample_parses [of OutboundPacket], of "InterfaceName [101]" 0]
    sample_parses [of OutboundPacket] by (simp add: sample_parsed_def)

end
