(* ===== verification/Queue_Progress_Properties.thy ===== *)
theory Queue_Progress_Properties
  imports Queue_Progress
begin

text \<open>
  The 32-bit progress refines the numbering without wrap-around: admission, completion and
  both barrier tests agree with it as long as a barrier lies within half of the serial
  range, and a barrier once reached for a flow stays reached whatever is admitted later.
\<close>

section \<open>Serial numbers\<close>

lemma unat_serial: "k < 2 ^ 32 \<Longrightarrow> unat (of_nat k :: u32) = k"
  by (simp add: unat_of_nat)

lemma serial_distance:
  assumes "m \<le> n" "n < m + 2 ^ 32"
  shows "unat (of_nat n - of_nat m :: u32) = n - m"
proof -
  have e: "(of_nat n - of_nat m :: u32) = of_nat (n - m)" using assms(1) by (simp add: of_nat_diff)
  show ?thesis unfolding e using assms by (intro unat_serial) linarith
qed

lemma serial_distance_back:
  assumes "n < m" "m < n + 2 ^ 32"
  shows "unat (of_nat n - of_nat m :: u32) = 2 ^ 32 - (m - n)"
proof -
  have e: "(of_nat n - of_nat m :: u32) = of_nat (n + 2 ^ 32) - of_nat m" by simp
  have "unat (of_nat (n + 2 ^ 32) - of_nat m :: u32) = n + 2 ^ 32 - m"
    using assms by (intro serial_distance) linarith+
  then show ?thesis unfolding e using assms by linarith
qed

text \<open>The half-range test is the order of the numbers within the window.\<close>

lemma serial_half:
  assumes "n < m + 2 ^ 31" "m \<le> n + 2 ^ 31"
  shows "(of_nat n - of_nat m :: u32) < SERIAL_HALF_RANGE \<longleftrightarrow> m \<le> n"
proof (cases "m \<le> n")
  case True
  then show ?thesis
    using assms serial_distance [of m n] by (simp add: word_less_nat_alt SERIAL_HALF_RANGE_def)
next
  case False
  then have "unat (of_nat n - of_nat m :: u32) = 2 ^ 32 - (m - n)"
    using assms by (intro serial_distance_back) auto
  then show ?thesis using False assms by (simp add: word_less_nat_alt SERIAL_HALF_RANGE_def)
qed

lemma serial_inject:
  assumes "m < n + 2 ^ 32" "n < m + 2 ^ 32"
  shows "(of_nat n :: u32) = of_nat m \<longleftrightarrow> n = m"
proof (cases "m \<le> n")
  case True
  then show ?thesis using serial_distance [of m n] assms by auto
next
  case False
  then show ?thesis using serial_distance [of n m] assms by auto
qed

section \<open>The refinement relation\<close>

definition log_wf :: "packet_log \<Rightarrow> bool" where
  "log_wf l \<longleftrightarrow>
     sorted_wrt (<) (pl_completed l # map lg_number (pl_entries l))
     \<and> log_last l < pl_completed l + 2 ^ 31 \<and> length (pl_entries l) \<le> MAX_TRACKED_OUTGOING"

definition entry_verdict :: "log_entry \<Rightarrow> u32 \<times> packet_progress" where
  "entry_verdict e =
     (of_nat (lg_number e), \<lparr>pg_flow = lg_flow e, pg_completed = lg_done e\<rparr>)"

definition verdicts_rel :: "(u32, packet_progress) omap \<Rightarrow> log_entry list \<Rightarrow> bool" where
  "verdicts_rel m es \<longleftrightarrow> omap_wf m \<and> set m = entry_verdict ` set es"

definition progress_rel :: "queue_progress \<Rightarrow> packet_log \<Rightarrow> bool" where
  "progress_rel p l \<longleftrightarrow>
     pq_completed p = of_nat (pl_completed l) \<and> pq_last_admitted p = of_nat (log_last l)
     \<and> pq_order p = map (\<lambda>e. of_nat (lg_number e)) (pl_entries l)
     \<and> verdicts_rel (pq_verdicts p) (pl_entries l) \<and> log_wf l"

lemma log_wf_number:
  assumes "log_wf l" "e \<in> set (pl_entries l)"
  shows "pl_completed l < lg_number e" "lg_number e \<le> log_last l"
proof -
  show "pl_completed l < lg_number e" using assms by (auto simp: log_wf_def)
  have "sorted (map lg_number (pl_entries l))"
    using assms(1) by (simp add: log_wf_def strict_sorted_imp_sorted)
  then show "lg_number e \<le> log_last l"
    using assms(2) by (cases "pl_entries l" rule: rev_cases) (auto simp: log_last_def sorted_append)
qed

lemma log_last_ge: "log_wf l \<Longrightarrow> pl_completed l \<le> log_last l"
  using log_wf_number(1) [of l "last (pl_entries l)"] by (auto simp: log_last_def less_imp_le)

lemma log_numbers_inject:
  assumes "log_wf l" "e \<in> set (pl_entries l)" "e' \<in> set (pl_entries l)"
    and "(of_nat (lg_number e) :: u32) = of_nat (lg_number e')"
  shows "e = e'"
proof -
  have bounds: "pl_completed l < lg_number x" "lg_number x < pl_completed l + 2 ^ 31"
    if "x \<in> set (pl_entries l)" for x
    using log_wf_number [OF assms(1) that] assms(1) by (auto simp: log_wf_def)
  have "lg_number e = lg_number e'"
    using serial_inject [of "lg_number e'" "lg_number e"] assms(4) bounds [OF assms(2)] bounds [OF assms(3)]
    by auto
  moreover have "distinct (map lg_number (pl_entries l))"
    using assms(1) by (auto simp: log_wf_def strict_sorted_iff)
  ultimately show ?thesis using assms(2,3) by (auto simp: distinct_map inj_on_def)
qed

lemma verdicts_get:
  assumes "verdicts_rel m es" "e \<in> set es"
  shows "omap_get m (of_nat (lg_number e)) = Some \<lparr>pg_flow = lg_flow e, pg_completed = lg_done e\<rparr>"
  using assms by (auto simp: verdicts_rel_def btree.get_iff entry_verdict_def)

lemma verdicts_get_Some:
  assumes "verdicts_rel m es" "omap_get m w = Some v"
  obtains e where "e \<in> set es" "w = of_nat (lg_number e)" "v = \<lparr>pg_flow = lg_flow e, pg_completed = lg_done e\<rparr>"
  using assms by (auto simp: verdicts_rel_def btree.get_iff entry_verdict_def)

section \<open>Admission\<close>

lemma log_admit_simps:
  "log_admit [] l = l"
  "log_admit ((n, f) # ps) l = log_admit ps (log_admit [(n, f)] l)"
  by (simp_all add: log_admit_def)

lemma log_last_admit: "log_last (log_admit [(n, f)] l) = n"
  by (simp add: log_admit_def log_last_def)

lemma admit_one:
  assumes rel: "progress_rel (p\<lparr>pq_last_admitted := prev\<rparr>) l"
    and room: "length (pl_entries l) < MAX_TRACKED_OUTGOING"
    and adv: "w - prev \<noteq> 0" "w - prev < SERIAL_HALF_RANGE"
    and span: "w - pq_completed p < SERIAL_HALF_RANGE"
    and n: "n = log_last l + unat (w - of_nat (log_last l))"
  shows "progress_rel ((admit_packet (w, f) p)\<lparr>pq_last_admitted := w\<rparr>) (log_admit [(n, f)] l)"
    "(of_nat n :: u32) = w"
proof -
  have prev: "prev = of_nat (log_last l)" and c: "pq_completed p = of_nat (pl_completed l)"
    and wf: "log_wf l" and ver: "verdicts_rel (pq_verdicts p) (pl_entries l)"
    and order: "pq_order p = map (\<lambda>e. of_nat (lg_number e)) (pl_entries l)"
    using rel by (simp_all add: progress_rel_def)
  show w: "(of_nat n :: u32) = w" by (simp add: n)
  have step: "0 < unat (w - of_nat (log_last l))" "unat (w - of_nat (log_last l)) < 2 ^ 31"
    using adv prev by (auto simp: word_less_nat_alt SERIAL_HALF_RANGE_def unat_gt_0)
  have "unat (of_nat n - of_nat (pl_completed l) :: u32) = n - pl_completed l"
    using step wf log_last_ge [OF wf] by (intro serial_distance) (auto simp: n log_wf_def)
  then have bound: "n < pl_completed l + 2 ^ 31"
    using span c w by (simp add: word_less_nat_alt SERIAL_HALF_RANGE_def)
  have above: "log_last l < n" using step by (simp add: n)
  have fresh: "(of_nat (lg_number e) :: u32) \<noteq> w" if "e \<in> set (pl_entries l)" for e
    using serial_inject [of n "lg_number e"] log_wf_number [OF wf that] above bound w by auto
  have "omap_get (pq_verdicts p) w = None"
    using fresh verdicts_get_Some [OF ver] by (metis not_None_eq)
  then have "{q \<in> set (pq_verdicts p). fst q \<noteq> w} = set (pq_verdicts p)"
    using ver by (auto simp: verdicts_rel_def btree.get_entries map_of_eq_None_iff)
  then have "verdicts_rel (omap_insert w \<lparr>pg_flow = f, pg_completed = False\<rparr> (pq_verdicts p))
      (pl_entries (log_admit [(n, f)] l))"
    using ver w by (simp add: verdicts_rel_def omap_wf_insert btree.set_put log_admit_def entry_verdict_def)
  moreover have "log_wf (log_admit [(n, f)] l)"
    using wf above bound room log_wf_number [OF wf] log_last_ge [OF wf]
    by (fastforce simp: log_wf_def log_admit_def log_last_def sorted_wrt_append)
  ultimately show "progress_rel ((admit_packet (w, f) p)\<lparr>pq_last_admitted := w\<rparr>) (log_admit [(n, f)] l)"
    using c w order log_last_admit [of n f l] by (simp add: progress_rel_def admit_packet_def log_admit_def)
qed

lemma admit_loop:
  assumes "progress_rel (q\<lparr>pq_last_admitted := prev\<rparr>) l" "admit_check p prev ps = Inr prev'"
    and "pq_completed q = pq_completed p" "length (pl_entries l) + length ps \<le> MAX_TRACKED_OUTGOING"
  shows "progress_rel ((fold admit_packet ps q)\<lparr>pq_last_admitted := prev'\<rparr>)
    (log_admit (number_from (log_last l) ps) l)"
  using assms
proof (induction ps arbitrary: prev q l)
  case Nil
  then show ?case by (simp add: log_admit_simps)
next
  case (Cons wf ps)
  obtain w f where wf: "wf = (w, f)" by (cases wf)
  define n where "n = log_last l + unat (w - of_nat (log_last l))"
  have check: "w - prev \<noteq> 0" "w - prev < SERIAL_HALF_RANGE" "w - pq_completed q < SERIAL_HALF_RANGE"
    "admit_check p w ps = Inr prev'"
    using Cons.prems(2,3) wf by (auto simp: Let_def split: if_splits)
  have one: "progress_rel ((admit_packet (w, f) q)\<lparr>pq_last_admitted := w\<rparr>) (log_admit [(n, f)] l)"
    using admit_one [OF Cons.prems(1) _ check(1-3) n_def] Cons.prems(4) by simp
  have "length (pl_entries (log_admit [(n, f)] l)) + length ps \<le> MAX_TRACKED_OUTGOING"
    using Cons.prems(4) by (simp add: log_admit_def)
  moreover have "pq_completed (admit_packet (w, f) q) = pq_completed p"
    using Cons.prems(3) by (simp add: admit_packet_def)
  ultimately show ?case
    using Cons.IH [OF one check(4)] wf
    by (simp add: log_admit_simps(2) [of n f "number_from n ps"] log_last_admit n_def [symmetric] Let_def)
qed

lemma admit_refines:
  assumes "progress_rel p l" "admit_classified ps p = (Inr u, p')"
  shows "progress_rel p' (log_admit (number_from (log_last l) ps) l)"
proof -
  obtain prev' where "admit_check p (pq_last_admitted p) ps = Inr prev'"
    and p': "p' = (fold admit_packet ps p)\<lparr>pq_last_admitted := prev'\<rparr>"
    and "length ps \<le> remaining_capacity p"
    using assms(2) by (auto simp: admit_classified_def res_simps)
  moreover have "length (pl_entries l) \<le> MAX_TRACKED_OUTGOING" "length (pq_order p) = length (pl_entries l)"
    using assms(1) by (auto simp: progress_rel_def log_wf_def)
  ultimately show ?thesis
    using admit_loop [where q = p and prev = "pq_last_admitted p" and p = p and ps = ps and l = l] assms(1)
    by (simp add: remaining_capacity_def)
qed

lemma admit_atomic: "admit_classified ps p = (Inl e, p') \<Longrightarrow> p' = p"
  by (auto simp: admit_classified_def res_simps)

section \<open>Completion\<close>

lemma log_wf_tail:
  assumes "log_wf \<lparr>pl_completed = c, pl_entries = e # es\<rparr>"
  shows "log_wf \<lparr>pl_completed = lg_number e, pl_entries = es\<rparr>"
    "log_last \<lparr>pl_completed = lg_number e, pl_entries = es\<rparr> = log_last \<lparr>pl_completed = c, pl_entries = e # es\<rparr>"
  using assms by (auto simp: log_wf_def log_last_def)

lemma verdicts_rel_remove:
  assumes "log_wf \<lparr>pl_completed = c, pl_entries = e # es\<rparr>" "verdicts_rel m (e # es)"
  shows "verdicts_rel (omap_remove (of_nat (lg_number e)) m) es"
proof -
  let ?l = "\<lparr>pl_completed = c, pl_entries = e # es\<rparr>"
  have dist: "e \<notin> set es" using assms(1) by (auto simp: log_wf_def)
  have "of_nat (lg_number x) \<noteq> (of_nat (lg_number e) :: u32)" if "x \<in> set es" for x
    using log_numbers_inject [OF assms(1), of x e] that dist by auto
  then have "{q \<in> entry_verdict ` set (e # es). fst q \<noteq> of_nat (lg_number e)} = entry_verdict ` set es"
    by (auto simp: entry_verdict_def)
  then show ?thesis
    using assms(2) by (simp add: verdicts_rel_def btree.wf_del btree.set_del)
qed

lemma retire_refines:
  assumes "log_wf \<lparr>pl_completed = c, pl_entries = es\<rparr>" "verdicts_rel m es"
    and "retire (map (\<lambda>e. of_nat (lg_number e)) es) m (of_nat c) = (order, m', c')"
  shows "c' = of_nat (pl_completed (retire_log c es))
    \<and> order = map (\<lambda>e. of_nat (lg_number e)) (pl_entries (retire_log c es))
    \<and> verdicts_rel m' (pl_entries (retire_log c es)) \<and> log_wf (retire_log c es)
    \<and> log_last (retire_log c es) = log_last \<lparr>pl_completed = c, pl_entries = es\<rparr>"
  using assms
proof (induction es arbitrary: c m)
  case (Cons e es)
  have get: "omap_get m (of_nat (lg_number e)) = Some \<lparr>pg_flow = lg_flow e, pg_completed = lg_done e\<rparr>"
    using verdicts_get [OF Cons.prems(2), of e] by simp
  show ?case
  proof (cases "lg_done e")
    case True
    then show ?thesis
      using Cons.IH [OF log_wf_tail(1) [OF Cons.prems(1)] verdicts_rel_remove [OF Cons.prems(1,2)]]
        Cons.prems(3) get log_wf_tail(2) [OF Cons.prems(1)] by simp
  next
    case False
    then show ?thesis using Cons.prems get by auto
  qed
qed auto

lemma mark_done_simps [simp]:
  "lg_number (mark_done n e) = lg_number e" "lg_flow (mark_done n e) = lg_flow e"
  "lg_done (mark_done n e) \<longleftrightarrow> lg_done e \<or> lg_number e = n"
  by (auto simp: mark_done_def)

lemma mark_done_wf:
  "log_wf \<lparr>pl_completed = c, pl_entries = map (mark_done n) es\<rparr> \<longleftrightarrow> log_wf \<lparr>pl_completed = c, pl_entries = es\<rparr>"
  "log_last \<lparr>pl_completed = c, pl_entries = map (mark_done n) es\<rparr> = log_last \<lparr>pl_completed = c, pl_entries = es\<rparr>"
  by (auto simp: log_wf_def log_last_def last_map comp_def)

lemma mark_done_verdicts:
  assumes "log_wf l" "verdicts_rel m (pl_entries l)" "e \<in> set (pl_entries l)"
  shows "verdicts_rel (omap_insert (of_nat (lg_number e)) \<lparr>pg_flow = lg_flow e, pg_completed = True\<rparr> m)
    (map (mark_done (lg_number e)) (pl_entries l))"
proof -
  let ?S = "set (pl_entries l)"
  let ?new = "(of_nat (lg_number e) :: u32, \<lparr>pg_flow = lg_flow e, pg_completed = True\<rparr>)"
  have same: "(of_nat (lg_number x) :: u32) = of_nat (lg_number e) \<longleftrightarrow> x = e" if "x \<in> ?S" for x
    using log_numbers_inject [OF assms(1) that assms(3)] by blast
  have other: "fst (entry_verdict x) \<noteq> of_nat (lg_number e) \<longleftrightarrow> x \<noteq> e" if "x \<in> ?S" for x
    using same [OF that] by (simp add: entry_verdict_def)
  then have keep: "{q \<in> entry_verdict ` ?S. fst q \<noteq> of_nat (lg_number e)} = entry_verdict ` (?S - {e})"
    by blast
  have same_entry: "mark_done (lg_number e) x = x" if "x \<in> ?S - {e}" for x
    using that same [of x] unfolding mark_done_def by (metis DiffD1 DiffD2 singletonI)
  have S: "?S = insert e (?S - {e})" using assms(3) by blast
  have "entry_verdict ` mark_done (lg_number e) ` ?S =
      insert (entry_verdict (mark_done (lg_number e) e))
        (entry_verdict ` mark_done (lg_number e) ` (?S - {e}))"
    by (subst S) (simp only: image_insert)
  moreover have "mark_done (lg_number e) ` (?S - {e}) = (\<lambda>x. x) ` (?S - {e})"
    by (rule image_cong [OF refl same_entry])
  moreover have "entry_verdict (mark_done (lg_number e) e) = ?new" by (simp add: entry_verdict_def)
  ultimately have "entry_verdict ` mark_done (lg_number e) ` ?S = insert ?new (entry_verdict ` (?S - {e}))"
    by simp
  then show ?thesis
    using assms(2) keep by (simp add: verdicts_rel_def omap_wf_insert btree.set_put)
qed

lemma complete_refines:
  assumes rel: "progress_rel p l" and ok: "complete_packet w p = (Inr u, p')"
  shows "\<exists>e\<in>set (pl_entries l). w = of_nat (lg_number e) \<and> \<not> lg_done e
    \<and> progress_rel p' (log_complete (lg_number e) l)"
proof -
  have wf: "log_wf l" and ver: "verdicts_rel (pq_verdicts p) (pl_entries l)"
    and order: "pq_order p = map (\<lambda>e. of_nat (lg_number e)) (pl_entries l)"
    and c: "pq_completed p = of_nat (pl_completed l)" "pq_last_admitted p = of_nat (log_last l)"
    using rel by (simp_all add: progress_rel_def)
  obtain v where v: "omap_get (pq_verdicts p) w = Some v" "\<not> pg_completed v"
    using ok by (auto simp: complete_packet_def res_simps)
  obtain e where e: "e \<in> set (pl_entries l)" "w = of_nat (lg_number e)"
    "v = \<lparr>pg_flow = lg_flow e, pg_completed = lg_done e\<rparr>"
    using verdicts_get_Some [OF ver v(1)] .
  let ?es = "map (mark_done (lg_number e)) (pl_entries l)"
  let ?m = "omap_insert w \<lparr>pg_flow = lg_flow e, pg_completed = True\<rparr> (pq_verdicts p)"
  have wf': "log_wf \<lparr>pl_completed = pl_completed l, pl_entries = ?es\<rparr>"
    "log_last \<lparr>pl_completed = pl_completed l, pl_entries = ?es\<rparr> = log_last l"
    using wf by (simp_all add: mark_done_wf) (auto simp: log_wf_def log_last_def split: if_splits)
  have nums: "map (\<lambda>x. of_nat (lg_number x) :: u32) ?es = pq_order p"
    by (simp add: order)
  obtain order' m' c' where run: "retire (pq_order p) ?m (pq_completed p) = (order', m', c')"
    by (metis prod_cases3)
  have p': "p' = p\<lparr>pq_order := order', pq_verdicts := m', pq_completed := c'\<rparr>"
    using ok v run e(3) by (simp add: complete_packet_def)
  have "progress_rel p' (log_complete (lg_number e) l)"
    using retire_refines [OF wf'(1) mark_done_verdicts [OF wf ver e(1)], of order' m' c'] run c nums e(2)
      wf'(2) by (simp add: progress_rel_def p' log_complete_def)
  then show ?thesis using e v by auto
qed

lemma complete_atomic: "complete_packet w p = (Inl e, p') \<Longrightarrow> p' = p"
  by (auto simp: complete_packet_def res_simps Let_def case_prod_beta)

section \<open>Barriers\<close>

text \<open>A barrier with number \<open>b\<close> is current when it is within half of the serial range of
  the packets that are still tracked.\<close>

definition barrier_current :: "packet_log \<Rightarrow> nat \<Rightarrow> bool" where
  "barrier_current l b \<longleftrightarrow> b \<le> pl_completed l + 2 ^ 31 \<and> log_last l < b + 2 ^ 31"

lemma reached_refines:
  assumes "progress_rel p l" "barrier_current l n" "rb_sequence b = of_nat n" "same_queue p b"
  shows "barrier_reached p b \<longleftrightarrow> log_reached l n"
proof -
  have "pl_completed l \<le> log_last l" using assms(1) log_last_ge by (simp add: progress_rel_def)
  then have "(of_nat (pl_completed l) - of_nat n :: u32) < SERIAL_HALF_RANGE \<longleftrightarrow> n \<le> pl_completed l"
    using assms(2) by (intro serial_half) (auto simp: barrier_current_def)
  then show ?thesis
    using assms by (simp add: barrier_reached_def log_reached_def progress_rel_def)
qed

lemma takeWhile_sorted:
  "sorted_wrt (<) (map f xs) \<Longrightarrow> takeWhile (\<lambda>x. f x \<le> (b :: nat)) xs = filter (\<lambda>x. f x \<le> b) xs"
  by (induction xs) (auto intro!: filter_False [symmetric])

lemma reached_for_flow_refines:
  assumes rel: "progress_rel p l" and cur: "barrier_current l n"
    and b: "rb_sequence b = of_nat n" "same_queue p b"
  shows "barrier_reached_for_flow p b key \<longleftrightarrow> log_reached_for_flow l n key"
proof (cases "n \<le> pl_completed l")
  case True
  then show ?thesis
    using reached_refines [OF rel cur b]
    by (simp add: barrier_reached_for_flow_def log_reached_for_flow_def log_reached_def)
next
  case False
  have wf: "log_wf l" and ver: "verdicts_rel (pq_verdicts p) (pl_entries l)"
    and order: "pq_order p = map (\<lambda>e. of_nat (lg_number e)) (pl_entries l)"
    and last: "pq_last_admitted p = of_nat (log_last l)"
    using rel by (simp_all add: progress_rel_def)
  have "(of_nat (log_last l) - of_nat n :: u32) < SERIAL_HALF_RANGE \<longleftrightarrow> n \<le> log_last l"
    using cur log_last_ge [OF wf] by (intro serial_half) (auto simp: barrier_current_def)
  then have seen: "SERIAL_HALF_RANGE \<le> pq_last_admitted p - rb_sequence b \<longleftrightarrow> \<not> n \<le> log_last l"
    using last b(1) by (simp add: not_less [symmetric])
  have before: "rb_sequence b - of_nat (lg_number e) < SERIAL_HALF_RANGE \<longleftrightarrow> lg_number e \<le> n"
    if "e \<in> set (pl_entries l)" for e
    unfolding b(1) using log_wf_number [OF wf that] cur
    by (intro serial_half) (auto simp: barrier_current_def)
  have "takeWhile (\<lambda>i. rb_sequence b - i < SERIAL_HALF_RANGE) (pq_order p) =
      map (\<lambda>e. of_nat (lg_number e)) (filter (\<lambda>e. lg_number e \<le> n) (pl_entries l))"
    using wf takeWhile_sorted [of lg_number "pl_entries l" n]
      takeWhile_cong [of "pl_entries l" "pl_entries l" "\<lambda>e. rb_sequence b - of_nat (lg_number e) < SERIAL_HALF_RANGE"
        "\<lambda>e. lg_number e \<le> n"] before
    by (simp add: order takeWhile_map comp_def log_wf_def)
  then have "list_all (\<lambda>i. is_some_and (omap_get (pq_verdicts p) i)
        (\<lambda>packet. pg_completed packet \<or> \<not> blocks_flow key (pg_flow packet)))
      (takeWhile (\<lambda>i. rb_sequence b - i < SERIAL_HALF_RANGE) (pq_order p)) \<longleftrightarrow>
      list_all (\<lambda>e. lg_number e \<le> n \<longrightarrow> lg_done e \<or> \<not> blocks_flow key (lg_flow e)) (pl_entries l)"
    using verdicts_get [OF ver] by (auto simp: list_all_iff)
  then show ?thesis
    using False seen reached_refines [OF rel cur b] b(2)
    by (simp add: barrier_reached_for_flow_def log_reached_for_flow_def log_reached_def)
qed

section \<open>Simulation of sequences\<close>

lemma verdicts_fresh:
  assumes "progress_rel p l" "log_last l < n" "n < pl_completed l + 2 ^ 31"
  shows "omap_get (pq_verdicts p) (of_nat n) = None"
proof (rule ccontr)
  assume "\<not> ?thesis"
  then obtain v where "omap_get (pq_verdicts p) (of_nat n) = Some v" by auto
  then obtain e where e: "e \<in> set (pl_entries l)" "(of_nat n :: u32) = of_nat (lg_number e)"
    using verdicts_get_Some assms(1) by (metis progress_rel_def)
  have "pl_completed l < lg_number e" "lg_number e \<le> log_last l"
    using log_wf_number e(1) assms(1) by (auto simp: progress_rel_def)
  then show False using serial_inject [of "lg_number e" n] e(2) assms(2,3) by simp
qed

lemma admit_check_iff:
  assumes rel: "progress_rel p l" and "log_last l \<le> prev" "prev < pl_completed l + 2 ^ 31"
  shows "is_ok (admit_check p (of_nat prev) ps) \<longleftrightarrow>
    log_admissible (pl_completed l) prev (map fst (number_from prev ps))"
  using assms(2,3)
proof (induction ps arbitrary: prev)
  case (Cons wf ps)
  obtain w f where wf: "wf = (w, f)" by (cases wf)
  define d where "d = unat (w - of_nat prev)"
  have w: "(of_nat (prev + d) :: u32) = w" by (simp add: d_def)
  have c: "pq_completed p = of_nat (pl_completed l)" "pl_completed l \<le> log_last l"
    using rel log_last_ge by (auto simp: progress_rel_def)
  have adv: "w - of_nat prev \<noteq> 0 \<and> w - of_nat prev < SERIAL_HALF_RANGE \<longleftrightarrow> 0 < d \<and> d < 2 ^ 31"
    by (auto simp: d_def word_less_nat_alt SERIAL_HALF_RANGE_def unat_gt_0)
  have span: "w - pq_completed p \<noteq> 0 \<and> w - pq_completed p < SERIAL_HALF_RANGE \<longleftrightarrow>
      prev + d < pl_completed l + 2 ^ 31" if "0 < d" "d < 2 ^ 31"
  proof -
    have "unat (of_nat (prev + d) - of_nat (pl_completed l) :: u32) = prev + d - pl_completed l"
      using that Cons.prems c(2) by (intro serial_distance) auto
    then have "unat (w - pq_completed p) = prev + d - pl_completed l" by (simp only: w c(1))
    moreover have "w - pq_completed p \<noteq> 0 \<longleftrightarrow> 0 < unat (w - pq_completed p)" by (simp only: unat_gt_0)
    ultimately show ?thesis
      using that Cons.prems c(2) by (auto simp: word_less_nat_alt SERIAL_HALF_RANGE_def simp del: right_minus_eq)
  qed
  show ?case
  proof (cases "0 < d \<and> d < 2 ^ 31 \<and> prev + d < pl_completed l + 2 ^ 31")
    case True
    then have "omap_get (pq_verdicts p) w = None"
      using verdicts_fresh [OF rel, of "prev + d"] Cons.prems w by simp
    moreover have "is_ok (admit_check p w ps) \<longleftrightarrow>
        log_admissible (pl_completed l) (prev + d) (map fst (number_from (prev + d) ps))"
      using Cons.IH [of "prev + d"] True Cons.prems by (simp only: w)
    ultimately show ?thesis using True adv span by (simp add: wf Let_def d_def [symmetric])
  next
    case False
    then have "\<not> is_ok (admit_check p (of_nat prev) (wf # ps))"
      using adv span by (auto simp: wf Let_def)
    then show ?thesis using False by (auto simp: wf Let_def d_def [symmetric])
  qed
qed simp

lemma admit_accepts:
  assumes "progress_rel p l"
  shows "is_ok (fst (admit_classified ps p)) \<longleftrightarrow> log_accepts (AdmitOp ps) l"
proof -
  have "length (pq_order p) = length (pl_entries l)" "length (pl_entries l) \<le> MAX_TRACKED_OUTGOING"
    "pq_last_admitted p = of_nat (log_last l)" "log_last l < pl_completed l + 2 ^ 31"
    using assms by (auto simp: progress_rel_def log_wf_def)
  then show ?thesis
    using admit_check_iff [OF assms, of "log_last l" ps]
    by (cases "admit_check p (pq_last_admitted p) ps")
      (auto simp: admit_classified_def remaining_capacity_def tryS_def fail_if_def)
qed

lemma log_find_get:
  assumes "progress_rel p l"
  shows "omap_get (pq_verdicts p) w =
    map_option (\<lambda>e. \<lparr>pg_flow = lg_flow e, pg_completed = lg_done e\<rparr>) (log_find w l)"
proof (cases "log_find w l")
  case None
  then have "omap_get (pq_verdicts p) w = None"
    using verdicts_get_Some assms unfolding log_find_def find_None_iff progress_rel_def
    by (metis not_None_eq)
  with None show ?thesis by simp
next
  case (Some e)
  then have "e \<in> set (pl_entries l)" "of_nat (lg_number e) = w"
    by (auto simp: log_find_def find_Some_iff)
  then show ?thesis using Some verdicts_get [of "pq_verdicts p" "pl_entries l" e] assms
    by (simp add: progress_rel_def)
qed

lemma complete_accepts:
  assumes "progress_rel p l"
  shows "is_ok (fst (complete_packet w p)) \<longleftrightarrow> log_accepts (CompleteOp w) l"
  using log_find_get [OF assms, of w]
  by (cases "log_find w l") (auto simp: complete_packet_def res_simps Let_def case_prod_beta)

lemma log_find_of:
  assumes "log_wf l" "e \<in> set (pl_entries l)"
  shows "log_find (of_nat (lg_number e)) l = Some e"
proof (cases "log_find (of_nat (lg_number e)) l")
  case None
  then show ?thesis using assms(2) by (auto simp: log_find_def find_None_iff)
next
  case (Some x)
  then have "x \<in> set (pl_entries l)" "(of_nat (lg_number x) :: u32) = of_nat (lg_number e)"
    by (auto simp: log_find_def find_Some_iff)
  then show ?thesis using Some log_numbers_inject [OF assms(1) _ assms(2)] by blast
qed

lemma step_refines:
  assumes rel: "progress_rel p l"
  shows "progress_rel (snd (progress_step x p)) (log_step x l)"
    "is_ok (fst (progress_step x p)) \<longleftrightarrow> log_accepts x l"
proof -
  show acc: "is_ok (fst (progress_step x p)) \<longleftrightarrow> log_accepts x l"
    using admit_accepts [OF rel] complete_accepts [OF rel] by (cases x) simp_all
  obtain r p' where run: "progress_step x p = (r, p')" by fastforce
  show "progress_rel (snd (progress_step x p)) (log_step x l)"
  proof (cases r)
    case (Inl e)
    then have "p' = p" using run admit_atomic complete_atomic by (cases x) auto
    then show ?thesis using Inl run acc rel by (simp add: log_step_def)
  next
    case (Inr u)
    then have ok: "log_accepts x l" using run acc by simp
    have "progress_rel p' (log_effect x l)"
    proof (cases x)
      case (AdmitOp ps)
      then show ?thesis using admit_refines [OF rel, of ps u p'] run Inr by simp
    next
      case (CompleteOp w)
      then obtain e where "e \<in> set (pl_entries l)" "w = of_nat (lg_number e)"
        "progress_rel p' (log_complete (lg_number e) l)"
        using complete_refines [OF rel, of w u p'] run Inr by auto
      then show ?thesis using CompleteOp log_find_of rel by (simp add: progress_rel_def)
    qed
    then show ?thesis using ok run by (simp add: log_step_def)
  qed
qed

lemma run_refines: "progress_rel p l \<Longrightarrow> progress_rel (progress_run xs p) (log_run xs l)"
  by (induction xs arbitrary: p l) (simp_all add: progress_run_def log_run_def step_refines(1))

lemma new_refines: "queue_progress_new epoch port = Inr p \<Longrightarrow> progress_rel p empty_log"
  by (auto simp: queue_progress_new_def progress_rel_def empty_log_def log_wf_def log_last_def
      verdicts_rel_def split: if_splits)

lemma step_identity: "pq_identity (snd (progress_step x p)) = pq_identity p"
proof -
  have "pq_identity (fold admit_packet ps p) = pq_identity p" for ps p
    by (induction ps arbitrary: p) (simp_all add: admit_packet_def)
  then show ?thesis
    by (cases x) (auto simp: admit_classified_def complete_packet_def tryS_def Let_def
        split: sum.splits prod.splits)
qed

lemma run_identity: "pq_identity (progress_run xs p) = pq_identity p"
  by (induction xs arbitrary: p) (simp_all add: progress_run_def step_identity)

text \<open>Once a barrier is reached for a flow it stays reached, and completing packets never
  removes anything but what has its verdict.\<close>

definition pending_ids :: "packet_log \<Rightarrow> u32 set" where
  "pending_ids l = (\<lambda>e. of_nat (lg_number e)) ` {e \<in> set (pl_entries l). \<not> lg_done e}"

definition log_normal :: "packet_log \<Rightarrow> bool" where
  "log_normal l \<longleftrightarrow> pl_entries l \<noteq> [] \<longrightarrow> \<not> lg_done (hd (pl_entries l))"

lemma retire_log_normal: "log_normal (retire_log c es)"
  by (induction es arbitrary: c) (auto simp: log_normal_def)

lemma retire_log_open:
  "{e \<in> set (pl_entries (retire_log c es)). \<not> lg_done e} = {e \<in> set es. \<not> lg_done e}"
  by (induction es arbitrary: c) auto

lemma retire_log_subset: "e \<in> set (pl_entries (retire_log c es)) \<Longrightarrow> e \<in> set es"
  by (induction es arbitrary: c) (auto split: if_splits)

lemma retire_log_progress: "sorted_wrt (<) (c # map lg_number es) \<Longrightarrow> c \<le> pl_completed (retire_log c es)"
proof (induction es arbitrary: c)
  case (Cons e es)
  then have "lg_number e \<le> pl_completed (retire_log (lg_number e) es)" by simp
  then show ?case using Cons.prems by auto
qed simp

lemma retire_log_last: "log_last (retire_log c es) = log_last \<lparr>pl_completed = c, pl_entries = es\<rparr>"
proof (induction es arbitrary: c)
  case (Cons e es)
  have "log_last \<lparr>pl_completed = lg_number e, pl_entries = es\<rparr> = log_last \<lparr>pl_completed = c, pl_entries = e # es\<rparr>"
    by (simp add: log_last_def)
  then show ?case using Cons.IH [of "lg_number e"] by simp
qed simp

lemma log_complete_last: "log_last (log_complete n l) = log_last l"
  by (cases l) (simp add: log_complete_def retire_log_last mark_done_wf(2))

lemma log_complete_progress: "log_wf l \<Longrightarrow> pl_completed l \<le> pl_completed (log_complete n l)"
  unfolding log_complete_def by (rule retire_log_progress) (simp add: log_wf_def comp_def)

lemma admissible_above: "log_admissible c prev ns \<Longrightarrow> n \<in> set ns \<Longrightarrow> prev < n"
  by (induction ns arbitrary: prev) fastforce+

lemma log_step_normal: "log_normal l \<Longrightarrow> log_normal (log_step x l)"
proof (cases x)
  case (AdmitOp ps)
  assume "log_normal l"
  then show ?thesis
    using AdmitOp by (cases "pl_entries l"; cases "number_from (log_last l) ps")
      (auto simp: log_step_def log_admit_def log_normal_def)
next
  case (CompleteOp w)
  assume "log_normal l"
  then show ?thesis
    using CompleteOp retire_log_normal by (auto simp: log_step_def log_complete_def split: option.splits)
qed

lemma log_run_normal: "log_normal l \<Longrightarrow> log_normal (log_run xs l)"
  by (induction xs arbitrary: l) (simp_all add: log_run_def log_step_normal)

lemma complete_pending:
  assumes "log_wf l"
  shows "pending_ids (log_step (CompleteOp w) l) = pending_ids l - {w}"
proof (cases "log_accepts (CompleteOp w) l")
  case True
  then obtain e where e: "log_find w l = Some e" by (cases "log_find w l") auto
  then have mem: "e \<in> set (pl_entries l)" and w: "w = of_nat (lg_number e)"
    by (auto simp: log_find_def find_Some_iff)
  have inj: "lg_number x = lg_number e \<longleftrightarrow> (of_nat (lg_number x) :: u32) = w" if "x \<in> set (pl_entries l)" for x
    using log_numbers_inject [OF assms that mem] w by metis
  have "pending_ids (log_complete (lg_number e) l) =
      (\<lambda>x. of_nat (lg_number x)) ` {y \<in> set (map (mark_done (lg_number e)) (pl_entries l)). \<not> lg_done y}"
    by (simp only: pending_ids_def log_complete_def retire_log_open)
  also have "\<dots> = (\<lambda>x. of_nat (lg_number x)) ` {y \<in> set (pl_entries l). \<not> lg_done y \<and> lg_number y \<noteq> lg_number e}"
    by (force simp: image_iff)
  also have "\<dots> = pending_ids l - {w}"
    using inj by (force simp: pending_ids_def)
  finally show ?thesis using True e by (simp add: log_step_def)
next
  case False
  then have "w \<notin> pending_ids l"
    using log_find_of [OF assms] by (auto simp: pending_ids_def)
  then show ?thesis using False by (simp add: log_step_def)
qed

lemma run_complete_pending:
  "progress_rel p l \<Longrightarrow> pending_ids (log_run (map CompleteOp ws) l) = pending_ids l - set ws"
proof (induction ws arbitrary: p l)
  case (Cons w ws)
  have "progress_rel (snd (progress_step (CompleteOp w) p)) (log_step (CompleteOp w) l)"
    using Cons.prems by (rule step_refines(1))
  from Cons.IH [OF this] show ?case
    using complete_pending Cons.prems by (auto simp: log_run_def progress_rel_def)
qed (simp add: log_run_def)

lemma log_step_reached:
  assumes wf: "log_wf l" and reached: "log_reached_for_flow l n key"
  shows "log_reached_for_flow (log_step x l) n key"
proof (cases "log_accepts x l")
  case acc: True
  show ?thesis
  proof (cases x)
    case (AdmitOp ps)
    let ?ps = "number_from (log_last l) ps"
    have above: "log_last l < m" if "(m, f) \<in> set ?ps" for m f
      using acc AdmitOp that by (force intro: admissible_above)
    then have "log_last l \<le> log_last (log_admit ?ps l)"
      by (cases ?ps rule: rev_cases) (fastforce simp: log_last_def log_admit_def less_imp_le)+
    then show ?thesis
      using reached acc AdmitOp above log_last_ge [OF wf]
      by (fastforce simp: log_reached_for_flow_def log_step_def log_admit_def list_all_iff)
  next
    case (CompleteOp w)
    then obtain e where "log_find w l = Some e"
      using acc by (cases "log_find w l") auto
    then have "log_step x l = log_complete (lg_number e) l"
      using acc CompleteOp by (simp add: log_step_def)
    moreover have "log_reached_for_flow (log_complete (lg_number e) l) n key"
      using reached log_complete_last [of "lg_number e" l] log_complete_progress [OF wf, of "lg_number e"]
      by (fastforce simp: log_reached_for_flow_def list_all_iff log_complete_def dest!: retire_log_subset)
    ultimately show ?thesis by simp
  qed
qed (use assms in \<open>simp add: log_step_def\<close>)

lemma log_run_reached:
  assumes "progress_rel p l" "log_reached_for_flow l n key"
  shows "log_reached_for_flow (log_run xs l) n key"
  using assms
proof (induction xs arbitrary: p l)
  case (Cons x xs)
  have "log_reached_for_flow (log_step x l) n key"
    using Cons.prems by (intro log_step_reached) (auto simp: progress_rel_def)
  then show ?case using Cons.IH [OF step_refines(1) [OF Cons.prems(1)]] by (simp add: log_run_def)
qed (simp add: log_run_def)

section \<open>Properties\<close>

text \<open>C25: Starting from a fresh queue, any sequence of admissions and completions behaves as
  the numbering without wrap-around: the next operation is accepted exactly when the log
  accepts it, the same number of packets is tracked, and both barrier tests answer what the log
  answers for every barrier of this queue within half of the serial range.\<close>
theorem progress_refines_log:
  assumes "queue_progress_new epoch port = Inr p0"
    and "p = progress_run xs p0" and "l = log_run xs empty_log"
  shows "(is_ok (fst (progress_step x p)) \<longleftrightarrow> log_accepts x l)
    \<and> length (pq_order p) = length (pl_entries l) \<and> length (pq_order p) \<le> MAX_TRACKED_OUTGOING
    \<and> (barrier_current l n \<longrightarrow>
        (let b = \<lparr>rb_identity = \<lparr>qi_port_id = port, qi_epoch = epoch\<rparr>, rb_sequence = of_nat n\<rparr> in
          (barrier_reached p b \<longleftrightarrow> log_reached l n)
          \<and> (barrier_reached_for_flow p b key \<longleftrightarrow> log_reached_for_flow l n key)))"
proof -
  have rel: "progress_rel p l" using assms new_refines run_refines by blast
  let ?b = "\<lparr>rb_identity = \<lparr>qi_port_id = port, qi_epoch = epoch\<rparr>, rb_sequence = of_nat n\<rparr>"
  have same: "same_queue p ?b"
    using assms run_identity [of xs p0] by (auto simp: same_queue_def queue_progress_new_def split: if_splits)
  have "length (pq_order p) = length (pl_entries l)" "length (pl_entries l) \<le> MAX_TRACKED_OUTGOING"
    using rel by (auto simp: progress_rel_def log_wf_def)
  moreover have "(barrier_reached p ?b \<longleftrightarrow> log_reached l n)
      \<and> (barrier_reached_for_flow p ?b key \<longleftrightarrow> log_reached_for_flow l n key)" if "barrier_current l n"
    using reached_refines [OF rel that _ same] reached_for_flow_refines [OF rel that _ same, of key] by simp
  ultimately show ?thesis using step_refines(2) [OF rel, of x] by (simp add: Let_def)
qed

definition sample_key :: reply_flow_key where
  "sample_key = \<lparr>rk_local = IpV4 1, rk_local_port = 53, rk_remote = IpV4 2, rk_remote_port = Some 53,
     rk_protocol = Udp\<rparr>"

definition sample_ops :: "progress_op list" where
  "sample_ops = [AdmitOp [(1, ReplyFlow sample_key), (2, UnrelatedFlow), (4, UnknownFlow)],
     CompleteOp 1]"

definition sample_progress :: queue_progress where
  "sample_progress = \<lparr>pq_identity = \<lparr>qi_port_id = 7, qi_epoch = 3\<rparr>, pq_completed = 0,
     pq_last_admitted = 0, pq_order = [], pq_verdicts = []\<rparr>"

lemma sample_log:
  "log_run sample_ops empty_log = \<lparr>pl_completed = 1, pl_entries =
     [\<lparr>lg_number = 2, lg_flow = UnrelatedFlow, lg_done = False\<rparr>,
      \<lparr>lg_number = 4, lg_flow = UnknownFlow, lg_done = False\<rparr>]\<rparr>"
  by (simp add: log_run_def sample_ops_def empty_log_def log_step_def log_last_def log_admit_def
      log_find_def log_complete_def mark_done_def MAX_TRACKED_OUTGOING_def Let_def)

lemma sample_run:
  "progress_run sample_ops sample_progress = sample_progress
     \<lparr>pq_completed := 1, pq_last_admitted := 4, pq_order := [2, 4], pq_verdicts :=
        [(2, \<lparr>pg_flow = UnrelatedFlow, pg_completed = False\<rparr>),
         (4, \<lparr>pg_flow = UnknownFlow, pg_completed = False\<rparr>)]\<rparr>"
proof -
  have "admit_classified [(1, ReplyFlow sample_key), (2, UnrelatedFlow), (4, UnknownFlow)] sample_progress =
      (Inr (), sample_progress\<lparr>pq_last_admitted := 4, pq_order := [1, 2, 4], pq_verdicts :=
        [(1, \<lparr>pg_flow = ReplyFlow sample_key, pg_completed = False\<rparr>),
         (2, \<lparr>pg_flow = UnrelatedFlow, pg_completed = False\<rparr>),
         (4, \<lparr>pg_flow = UnknownFlow, pg_completed = False\<rparr>)]\<rparr>)"
    by (simp add: admit_classified_def sample_progress_def remaining_capacity_def MAX_TRACKED_OUTGOING_def
        SERIAL_HALF_RANGE_def admit_packet_def omap_get_def tryS_def fail_if_def)
  then show ?thesis
    by (simp add: progress_run_def sample_ops_def complete_packet_def sample_progress_def omap_get_def
        omap_remove_def res_simps)
qed

lemma sample_new: "queue_progress_new 3 7 = Inr sample_progress"
  by (simp add: queue_progress_new_def sample_progress_def)

theorem progress_refines_log_witness:
  "queue_progress_new 3 7 = Inr sample_progress
    \<and> \<not> is_ok (fst (progress_step (CompleteOp 1) (progress_run sample_ops sample_progress)))
    \<and> barrier_reached_for_flow (progress_run sample_ops sample_progress)
         \<lparr>rb_identity = \<lparr>qi_port_id = 7, qi_epoch = 3\<rparr>, rb_sequence = 3\<rparr> sample_key"
proof -
  let ?l = "log_run sample_ops empty_log"
  have "barrier_current ?l 3" "log_reached_for_flow ?l 3 sample_key" "\<not> log_accepts (CompleteOp 1) ?l"
    by (simp_all add: sample_log barrier_current_def log_last_def log_reached_for_flow_def log_find_def)
  then show ?thesis
    using progress_refines_log [OF sample_new refl refl, of "CompleteOp 1" sample_ops 3 sample_key] sample_new
    by (simp add: Let_def)
qed

text \<open>Later traffic cannot extend a captured barrier: once it is reached for a flow it stays
  reached, whatever packets are admitted or completed afterwards, as long as the queue has not
  moved on by half of the serial range.\<close>
theorem reached_barrier_stays_reached:
  assumes "queue_progress_new epoch port = Inr p0"
    and "b = \<lparr>rb_identity = \<lparr>qi_port_id = port, qi_epoch = epoch\<rparr>, rb_sequence = of_nat n\<rparr>"
    and "barrier_current (log_run xs empty_log) n"
    and "barrier_reached_for_flow (progress_run xs p0) b key"
    and "barrier_current (log_run (xs @ ys) empty_log) n"
  shows "barrier_reached_for_flow (progress_run (xs @ ys) p0) b key"
proof -
  have rel: "progress_rel (progress_run zs p0) (log_run zs empty_log)" for zs
    using assms(1) new_refines run_refines by blast
  have same: "same_queue (progress_run zs p0) b" for zs
    using assms(1,2) run_identity [of zs p0]
    by (auto simp: same_queue_def queue_progress_new_def split: if_splits)
  have seq: "rb_sequence b = of_nat n" by (simp add: assms(2))
  have "log_reached_for_flow (log_run xs empty_log) n key"
    using reached_for_flow_refines [OF rel assms(3) seq same] assms(4) by simp
  then have "log_reached_for_flow (log_run (xs @ ys) empty_log) n key"
    using log_run_reached [OF rel [of xs], of n key ys] by (simp add: log_run_def)
  then show ?thesis using reached_for_flow_refines [OF rel assms(5) seq same] by simp
qed

theorem reached_barrier_stays_reached_witness:
  "barrier_reached_for_flow (progress_run (sample_ops @ [AdmitOp [(9, ReplyFlow sample_key)]]) sample_progress)
     \<lparr>rb_identity = \<lparr>qi_port_id = 7, qi_epoch = 3\<rparr>, rb_sequence = 3\<rparr> sample_key"
proof -
  let ?b = "\<lparr>rb_identity = \<lparr>qi_port_id = 7, qi_epoch = 3\<rparr>, rb_sequence = 3\<rparr>"
  have step: "log_run (sample_ops @ ys) empty_log = log_run ys (log_run sample_ops empty_log)" for ys
    by (simp add: log_run_def)
  have cur: "barrier_current (log_run sample_ops empty_log) 3"
    "barrier_current (log_run (sample_ops @ [AdmitOp [(9, ReplyFlow sample_key)]]) empty_log) 3"
    unfolding step sample_log
    by (simp_all add: barrier_current_def log_last_def log_run_def log_step_def log_admit_def
        MAX_TRACKED_OUTGOING_def Let_def)
  have "barrier_reached_for_flow (progress_run sample_ops sample_progress) ?b sample_key"
    unfolding sample_run
    by (simp add: sample_progress_def barrier_reached_for_flow_def barrier_reached_def same_queue_def
        SERIAL_HALF_RANGE_def omap_get_def word_le_nat_alt)
  then show ?thesis
    using reached_barrier_stays_reached [OF sample_new _ cur(1) _ cur(2)] by simp
qed

text \<open>C29: Verdicts may be sent in any order: once every outstanding packet has received one, the
  completed prefix reaches the last admitted packet, nothing is tracked any more and the whole
  capacity is available again.\<close>
theorem verdicts_in_any_order_drain:
  assumes "queue_progress_new epoch port = Inr p0"
    and "p = progress_run xs p0" and "p' = progress_run (map CompleteOp ws) p"
    and "set (pq_order p) \<subseteq> set ws"
  shows "pq_order p' = [] \<and> pq_verdicts p' = [] \<and> pq_completed p' = pq_last_admitted p'
    \<and> remaining_capacity p' = MAX_TRACKED_OUTGOING"
proof -
  let ?l = "log_run xs empty_log" and ?l' = "log_run (map CompleteOp ws) (log_run xs empty_log)"
  have rel: "progress_rel p ?l" using assms new_refines run_refines by blast
  then have rel': "progress_rel p' ?l'" using assms run_refines by blast
  have "pending_ids ?l \<subseteq> set ws" using assms(4) rel by (auto simp: pending_ids_def progress_rel_def)
  then have "pending_ids ?l' = {}" using run_complete_pending [OF rel] by simp
  moreover have "log_normal ?l'"
    by (intro log_run_normal) (simp add: log_normal_def empty_log_def)
  ultimately have "pl_entries ?l' = []"
    by (cases "pl_entries ?l'") (auto simp: pending_ids_def log_normal_def)
  then show ?thesis
    using rel' by (simp add: progress_rel_def remaining_capacity_def verdicts_rel_def log_last_def)
qed

theorem verdicts_in_any_order_drain_witness:
  "remaining_capacity (progress_run (map CompleteOp [4, 2]) (progress_run sample_ops sample_progress)) = 1024"
proof -
  have "pq_order (progress_run sample_ops sample_progress) = [2, 4]"
    by (simp add: sample_run)
  then show ?thesis
    using verdicts_in_any_order_drain [OF sample_new refl refl, of sample_ops "[4, 2]"]
    by (simp add: MAX_TRACKED_OUTGOING_def)
qed

end
