(* ===== verification/Reply_Properties.thy ===== *)
theory Reply_Properties
  imports Reply Packet_Properties Queue_Progress_Properties
begin

text \<open>
  The registry stays within its bounds and its tickets settle at most once; a reply is repeated
  only when every condition of the policy, the deadline, the barrier and the flow's outcome
  holds, expired replies always leave the worker, and a reply is retried at most three times.
\<close>

unbundle bit_operations_syntax

section \<open>The invariant of the registry\<close>

definition flows_inv :: "u64 \<Rightarrow> (reply_flow_key \<times> wave) list \<Rightarrow> bool" where
  "flows_inv next flows \<longleftrightarrow>
     distinct (map fst flows) \<and> length flows \<le> CAPACITY
     \<and> sum_list (map (\<lambda>(_, w). fcard (wv_active w)) flows) \<le> CAPACITY
     \<and> (\<forall>(k, w) \<in> set flows. \<forall>s. s |\<in>| wv_active w \<longrightarrow> s \<le> next)"

definition registry_inv :: "registry \<Rightarrow> bool" where
  "registry_inv r \<longleftrightarrow> flows_inv (rg_next_serial r) (rg_flows r)"

lemma sum_list_filter_le: "sum_list (map f (filter P xs)) \<le> sum_list (map (f :: 'a \<Rightarrow> nat) xs)"
  by (induction xs) auto

lemma flows_inv_filter: "flows_inv n flows \<Longrightarrow> flows_inv n (filter P flows)"
  using sum_list_filter_le [of "\<lambda>(_, w). fcard (wv_active w)" P flows] length_filter_le [of P flows]
  unfolding flows_inv_def by (auto simp: distinct_map inj_on_def simp del: length_filter_le)

lemma flows_inv_delete: "flows_inv n flows \<Longrightarrow> flows_inv n (AList.delete k flows)"
  by (simp add: AList.delete_eq flows_inv_filter)

lemma prune_inv: "registry_inv r \<Longrightarrow> registry_inv (prune now r)"
  by (simp add: registry_inv_def prune_def flows_inv_filter)

lemma update_mem: "x \<in> set (AList.update k v xs) \<Longrightarrow> x = (k, v) \<or> x \<in> set xs"
  by (induction xs) (auto split: if_splits)

lemma length_update: "length (AList.update k v xs) = (if map_of xs k = None then Suc (length xs) else length xs)"
  by (induction xs) auto

lemma sum_update:
  "distinct (map fst xs) \<Longrightarrow>
    sum_list (map (\<lambda>(_, w). f w) (AList.update k v xs)) + (case map_of xs k of None \<Rightarrow> 0 | Some w \<Rightarrow> f w) =
      sum_list (map (\<lambda>(_, w). f w) xs) + (f v :: nat)"
  by (induction xs) (auto split: option.splits simp: map_of_eq_None_iff)

lemma flows_inv_update:
  assumes "flows_inv n flows" "n \<le> n'" "map_of flows k \<noteq> None \<or> length flows < CAPACITY"
    and "sum_list (map (\<lambda>(_, w). fcard (wv_active w)) flows) + fcard (wv_active v)
      \<le> CAPACITY + (case map_of flows k of None \<Rightarrow> 0 | Some w \<Rightarrow> fcard (wv_active w))"
    and "\<And>s. s |\<in>| wv_active v \<Longrightarrow> s \<le> n'"
  shows "flows_inv n' (AList.update k v flows)"
proof -
  have "distinct (map fst flows)" using assms(1) by (simp add: flows_inv_def)
  then have "sum_list (map (\<lambda>(_, w). fcard (wv_active w)) (AList.update k v flows)) \<le> CAPACITY"
    using sum_update [of flows "\<lambda>w. fcard (wv_active w)" k v] assms(4) by linarith
  moreover have "length (AList.update k v flows) \<le> CAPACITY"
    using assms(1,3) by (auto simp: length_update flows_inv_def)
  moreover have "\<forall>(k', w) \<in> set (AList.update k v flows). \<forall>s. s |\<in>| wv_active w \<longrightarrow> s \<le> n'"
    using assms(1,2,5) by (fastforce simp: flows_inv_def dest: update_mem)
  ultimately show ?thesis
    using \<open>distinct (map fst flows)\<close> by (simp add: flows_inv_def distinct_update)
qed

lemma word_next: "(n :: u64) \<noteq> -1 \<Longrightarrow> n \<le> n + 1"
  using unat_word_add_one [of n] by (simp add: word_le_nat_alt)

lemma begin_wave_active:
  "wv_active (begin_wave serial now w) =
    finsert serial (case w of None \<Rightarrow> {||} | Some w \<Rightarrow> wv_active w)"
  by (simp add: begin_wave_def Let_def split: option.split)

lemma fcard_finsert_le: "fcard (finsert x A) \<le> Suc (fcard A)"
  by (simp add: fcard_finsert_if)

lemma evict_inv: "registry_inv r \<Longrightarrow> registry_inv (evict_oldest key r)"
  by (auto simp: registry_inv_def evict_oldest_def flows_inv_delete split: option.splits)

lemma evict_active: "active_tickets (evict_oldest key r) \<le> active_tickets r"
  using sum_list_filter_le
  by (auto simp: evict_oldest_def active_tickets_def AList.delete_eq split: option.splits)

definition begin_base :: "u32 \<Rightarrow> instant \<Rightarrow> registry \<Rightarrow> registry" where
  "begin_base g now r = prune now (if rg_generation r \<noteq> Some g
     then r\<lparr>rg_flows := [], rg_generation := Some g\<rparr> else r)"

lemma begin_base_inv: "registry_inv r \<Longrightarrow> registry_inv (begin_base g now r)"
  using prune_inv [of r now]
  by (simp add: begin_base_def) (simp add: registry_inv_def prune_def flows_inv_def)

lemma begin_inv:
  assumes inv: "registry_inv r" and run: "registry_begin key g now r = (res, r')"
  shows "registry_inv r'"
proof -
  define r0 where "r0 = begin_base g now r"
  define r1 where "r1 = evict_oldest key r0"
  have r0: "registry_inv r0" using inv by (simp add: r0_def begin_base_inv)
  then have r1: "registry_inv r1" by (simp add: r1_def evict_inv)
  let ?serial = "rg_next_serial r1 + 1"
  let ?w = "begin_wave ?serial now (map_of (rg_flows r1) key)"
  consider "r' = r0" | "r' = r1"
    | "active_tickets r0 < CAPACITY" "rg_next_serial r1 \<noteq> -1"
      "map_of (rg_flows r1) key \<noteq> None \<or> length (rg_flows r1) < CAPACITY"
      "r' = r1\<lparr>rg_next_serial := ?serial, rg_flows := AList.update key ?w (rg_flows r1)\<rparr>"
    using run unfolding registry_begin_def Let_def begin_base_def [symmetric] r0_def [symmetric] r1_def [symmetric]
    by (auto simp: tryS_def fail_if_def split: if_splits)
  then show ?thesis
  proof cases
    case 3
    have room: "active_tickets r1 < CAPACITY"
      using 3(1) evict_active [of key r0] by (simp add: r1_def)
    have "flows_inv ?serial (AList.update key ?w (rg_flows r1))"
    proof (rule flows_inv_update)
      show "flows_inv (rg_next_serial r1) (rg_flows r1)" using r1 by (simp add: registry_inv_def)
      show "rg_next_serial r1 \<le> ?serial" by (rule word_next [OF 3(2)])
      show "map_of (rg_flows r1) key \<noteq> None \<or> length (rg_flows r1) < CAPACITY" by (rule 3(3))
      show "sum_list (map (\<lambda>(_, w). fcard (wv_active w)) (rg_flows r1)) + fcard (wv_active ?w)
          \<le> CAPACITY + (case map_of (rg_flows r1) key of None \<Rightarrow> 0 | Some w \<Rightarrow> fcard (wv_active w))"
      proof -
        have "fcard (wv_active ?w)
            \<le> Suc (case map_of (rg_flows r1) key of None \<Rightarrow> 0 | Some w \<Rightarrow> fcard (wv_active w))"
          by (simp add: begin_wave_active fcard_finsert_if split: option.split)
        then show ?thesis using room by (simp only: active_tickets_def)
      qed
      show "s \<le> ?serial" if "s |\<in>| wv_active ?w" for s
        using that r1 word_next [OF 3(2)]
        by (fastforce simp: begin_wave_active registry_inv_def flows_inv_def split: option.splits
            dest!: map_of_SomeD)
    qed
    then show ?thesis using 3(4) by (simp add: registry_inv_def)
  qed (use r0 r1 in auto)
qed

lemma complete_inv:
  assumes inv: "registry_inv r" and run: "registry_complete t ok now r = (b, r')"
  shows "registry_inv r'"
proof (cases b)
  case True
  then obtain w where w: "map_of (rg_flows r) (tk_key t) = Some w" "tk_serial t |\<in>| wv_active w"
    and r': "r' = r\<lparr>rg_flows := AList.update (tk_key t)
      (w\<lparr>wv_active := wv_active w |-| {|tk_serial t|}, wv_failed := (wv_failed w \<or> \<not> ok),
         wv_updated := now\<rparr>) (rg_flows r)\<rparr>"
    using run by (auto simp: registry_complete_def split: if_splits option.splits)
  have "fcard (wv_active w |-| {|tk_serial t|}) \<le> fcard (wv_active w)"
    by (intro fcard_mono) auto
  moreover have "s \<le> rg_next_serial r" if "s |\<in>| wv_active w" for s
    using inv w that by (auto simp: registry_inv_def flows_inv_def dest!: map_of_SomeD)
  moreover have "sum_list (map (\<lambda>(_, w). fcard (wv_active w)) (rg_flows r)) \<le> CAPACITY"
    using inv by (simp add: registry_inv_def flows_inv_def)
  ultimately have "flows_inv (rg_next_serial r) (AList.update (tk_key t)
      (w\<lparr>wv_active := wv_active w |-| {|tk_serial t|}, wv_failed := (wv_failed w \<or> \<not> ok),
         wv_updated := now\<rparr>) (rg_flows r))"
    using inv w by (intro flows_inv_update) (auto simp: registry_inv_def)
  then show ?thesis by (simp add: registry_inv_def r')
qed (use assms in \<open>auto simp: registry_complete_def split: if_splits option.splits\<close>)

section \<open>Histories of a registry\<close>

text \<open>The operations that the reader, the workers and the reply worker perform under the registry's
  lock; a step is labelled with the ticket that it hands out, if any.\<close>

inductive registry_step :: "registry \<Rightarrow> outgoing_ticket option \<Rightarrow> registry \<Rightarrow> bool" where
  begun: "registry_begin key g now r = (Inr t, r') \<Longrightarrow> registry_step r (Some t) r'"
| refused: "registry_begin key g now r = (Inl e, r') \<Longrightarrow> registry_step r None r'"
| completed: "registry_complete t ok now r = (b, r') \<Longrightarrow> registry_step r None r'"
| asked: "registry_readiness q now r = (d, r') \<Longrightarrow> registry_step r None r'"
| registered: "register_outgoing_packets works r = (res, r') \<Longrightarrow> registry_step r None r'"
| recorded: "record_outgoing_verdict i r = (res, r') \<Longrightarrow> registry_step r None r'"

inductive registry_run :: "registry \<Rightarrow> outgoing_ticket list \<Rightarrow> registry \<Rightarrow> bool" for r where
  nothing: "registry_run r [] r"
| step: "registry_run r ts r' \<Longrightarrow> registry_step r' l r'' \<Longrightarrow>
    registry_run r (ts @ (case l of None \<Rightarrow> [] | Some t \<Rightarrow> [t])) r''"

lemma readiness_registry: "registry_readiness q now r = (d, r') \<Longrightarrow> r' = prune now r"
  by (auto simp: registry_readiness_def Let_def split: if_splits option.splits)

lemma progress_only:
  "register_outgoing_packets works r = (res, r') \<Longrightarrow> \<exists>p. r' = r\<lparr>rg_progress := p\<rparr>"
  "record_outgoing_verdict i r = (res', r'') \<Longrightarrow> \<exists>p. r'' = r\<lparr>rg_progress := p\<rparr>"
  by (auto simp: register_outgoing_packets_def record_outgoing_verdict_def split: prod.splits)

lemma step_inv: "registry_step r l r' \<Longrightarrow> registry_inv r \<Longrightarrow> registry_inv r'"
proof (induction rule: registry_step.induct)
  case (asked q now r d r')
  then show ?case using prune_inv readiness_registry by blast
next
  case (registered works r res r')
  then show ?case using progress_only(1) by (fastforce simp: registry_inv_def)
next
  case (recorded i r res r')
  then show ?case using progress_only(2) by (fastforce simp: registry_inv_def)
qed (use begin_inv complete_inv in blast)+

text \<open>A ticket's serial is spent when no flow has it active and none can be given it again.\<close>

definition spent :: "u64 \<Rightarrow> registry \<Rightarrow> bool" where
  "spent s r \<longleftrightarrow> s \<le> rg_next_serial r \<and> (\<forall>(k, w) \<in> set (rg_flows r). s |\<notin>| wv_active w)"

lemma spent_prune: "spent s r \<Longrightarrow> spent s (prune now r)"
  by (auto simp: spent_def prune_def)

lemma spent_evict: "spent s r \<Longrightarrow> spent s (evict_oldest key r)"
  by (auto simp: spent_def evict_oldest_def AList.delete_eq split: option.splits)

lemma spent_update:
  assumes "spent s r" "s |\<notin>| wv_active w" "rg_next_serial r \<le> n"
  shows "spent s (r\<lparr>rg_next_serial := n, rg_flows := AList.update k w (rg_flows r)\<rparr>)"
  using assms by (fastforce simp: spent_def dest: update_mem)

lemma next_serial_kept [simp]:
  "rg_next_serial (prune now r) = rg_next_serial r" "rg_next_serial (evict_oldest key r) = rg_next_serial r"
  by (auto simp: prune_def evict_oldest_def split: option.splits)

lemma begin_cases:
  assumes "registry_begin key g now r = (res, r')"
  obtains r0 where "r0 = begin_base g now r"
    "r' = r0 \<and> \<not> is_ok res \<or> r' = evict_oldest key r0 \<and> \<not> is_ok res
     \<or> rg_next_serial r \<noteq> -1 \<and> (\<exists>w. res = Inr \<lparr>tk_key = key, tk_generation = g, tk_wave = wv_serial w,
           tk_serial = rg_next_serial r + 1\<rparr>
         \<and> w = begin_wave (rg_next_serial r + 1) now (map_of (rg_flows (evict_oldest key r0)) key)
         \<and> r' = (evict_oldest key r0)\<lparr>rg_next_serial := rg_next_serial r + 1,
               rg_flows := AList.update key w (rg_flows (evict_oldest key r0))\<rparr>)"
  using assms by (auto simp: registry_begin_def Let_def tryS_def fail_if_def begin_base_def split: if_splits)

lemma spent_begin:
  assumes "registry_begin key g now r = (res, r')" "spent s r"
  shows "spent s r'"
proof -
  obtain r0 where r0: "r0 = begin_base g now r"
    and r': "r' = r0 \<or> r' = evict_oldest key r0
     \<or> rg_next_serial r \<noteq> -1 \<and> (\<exists>w. w = begin_wave (rg_next_serial r + 1) now (map_of (rg_flows (evict_oldest key r0)) key)
         \<and> r' = (evict_oldest key r0)\<lparr>rg_next_serial := rg_next_serial r + 1,
               rg_flows := AList.update key w (rg_flows (evict_oldest key r0))\<rparr>)"
    using begin_cases [OF assms(1)] by (metis (no_types, lifting))
  have base: "spent s r0" using assms(2) unfolding r0 begin_base_def by (intro spent_prune) (simp add: spent_def)
  then have evicted: "spent s (evict_oldest key r0)" by (rule spent_evict)
  have same: "rg_next_serial (evict_oldest key r0) = rg_next_serial r" by (simp add: r0 begin_base_def)
  have fresh: "s |\<notin>| wv_active (begin_wave (rg_next_serial r + 1) now (map_of (rg_flows (evict_oldest key r0)) key))"
    if "rg_next_serial r \<noteq> -1"
  proof -
    have "s < rg_next_serial r + 1"
      using assms(2) unat_word_add_one [OF that] by (simp add: spent_def word_less_nat_alt word_le_nat_alt)
    then show ?thesis
      using evicted by (fastforce simp: begin_wave_active spent_def split: option.splits dest: map_of_SomeD)
  qed
  show ?thesis
    using r' base evicted spent_update [OF evicted fresh] word_next same by (elim disjE) auto
qed

lemma spent_complete:
  assumes "registry_complete t ok now r = (b, r')" "spent s r"
  shows "spent s r'"
proof -
  have "s |\<notin>| wv_active w" if "map_of (rg_flows r) (tk_key t) = Some w" for w
    using assms(2) map_of_SomeD [OF that] by (auto simp: spent_def)
  then show ?thesis
    using assms by (fastforce simp: registry_complete_def spent_def split: if_splits option.splits dest: update_mem)
qed

lemma spent_step: "registry_step r l r' \<Longrightarrow> spent s r \<Longrightarrow> spent s r'"
proof (induction rule: registry_step.induct)
  case (begun key g now r t r')
  then show ?case by (rule spent_begin)
next
  case (refused key g now r e r')
  then show ?case by (rule spent_begin)
next
  case (completed t ok now r b r')
  then show ?case by (rule spent_complete)
next
  case (asked q now r d r')
  then show ?case using spent_prune readiness_registry by blast
next
  case (registered works r res r')
  then show ?case using progress_only(1) by (fastforce simp: spent_def)
next
  case (recorded i r res r')
  then show ?case using progress_only(2) by (fastforce simp: spent_def)
qed

lemma spent_refuses:
  assumes "spent (tk_serial t) r"
  shows "registry_complete t ok now r = (False, r)"
proof -
  have "tk_serial t |\<notin>| wv_active w" if "map_of (rg_flows r) (tk_key t) = Some w" for w
    using assms map_of_SomeD [OF that] by (auto simp: spent_def)
  then show ?thesis by (auto simp: registry_complete_def split: option.split)
qed

text \<open>An active serial belongs to one flow only.\<close>

definition serials_apart :: "(reply_flow_key \<times> wave) list \<Rightarrow> bool" where
  "serials_apart flows \<longleftrightarrow>
     (\<forall>k w k' w' s. (k, w) \<in> set flows \<longrightarrow> (k', w') \<in> set flows
        \<longrightarrow> s |\<in>| wv_active w \<longrightarrow> s |\<in>| wv_active w' \<longrightarrow> k = k')"

lemma apart_subset: "serials_apart flows \<Longrightarrow> set flows' \<subseteq> set flows \<Longrightarrow> serials_apart flows'"
  unfolding serials_apart_def by blast

lemma apart_prune: "serials_apart (rg_flows r) \<Longrightarrow> serials_apart (rg_flows (prune now r))"
  by (erule apart_subset) (auto simp: prune_def)

lemma apart_evict: "serials_apart (rg_flows r) \<Longrightarrow> serials_apart (rg_flows (evict_oldest key r))"
  by (erule apart_subset) (auto simp: evict_oldest_def AList.delete_eq split: option.splits)

lemma apart_update:
  assumes "serials_apart flows"
    and "\<And>s. s |\<in>| wv_active v \<Longrightarrow> (\<forall>(k', w') \<in> set flows. s |\<notin>| wv_active w')
      \<or> (\<exists>w. map_of flows k = Some w \<and> s |\<in>| wv_active w)"
  shows "serials_apart (AList.update k v flows)"
  unfolding serials_apart_def
proof (intro allI impI)
  fix k1 w1 k2 w2 s
  assume mem: "(k1, w1) \<in> set (AList.update k v flows)" "(k2, w2) \<in> set (AList.update k v flows)"
    and act: "s |\<in>| wv_active w1" "s |\<in>| wv_active w2"
  have key: "k' = k" if "(k', w') \<in> set flows" "s |\<in>| wv_active w'" "s |\<in>| wv_active v" for k' w'
    using assms(2) [OF that(3)] that assms(1) unfolding serials_apart_def by (blast dest: map_of_SomeD)
  show "k1 = k2"
    using mem [THEN update_mem] act key assms(1) unfolding serials_apart_def by (elim disjE) blast+
qed

lemma apart_begin:
  assumes "registry_begin key g now r = (res, r')" "registry_inv r" "serials_apart (rg_flows r)"
  shows "serials_apart (rg_flows r')"
proof -
  define r1 where "r1 = evict_oldest key (begin_base g now r)"
  have base: "serials_apart (rg_flows (begin_base g now r))"
    using assms(3) unfolding begin_base_def by (intro apart_prune) (simp add: serials_apart_def)
  then have apart: "serials_apart (rg_flows r1)" unfolding r1_def by (rule apart_evict)
  have inv: "registry_inv r1" using assms(2) by (simp add: r1_def begin_base_inv evict_inv)
  have same: "rg_next_serial r1 = rg_next_serial r" by (simp add: r1_def begin_base_def)
  let ?n = "rg_next_serial r + 1"
  have "serials_apart (AList.update key (begin_wave ?n now (map_of (rg_flows r1) key)) (rg_flows r1))"
    if "rg_next_serial r \<noteq> -1"
  proof (rule apart_update [OF apart])
    have "\<not> ?n \<le> rg_next_serial r1"
      using unat_word_add_one [OF that] by (simp add: same word_le_nat_alt)
    then have "\<forall>(k', w') \<in> set (rg_flows r1). ?n |\<notin>| wv_active w'"
      using inv by (fastforce simp: registry_inv_def flows_inv_def)
    then show "(\<forall>(k', w') \<in> set (rg_flows r1). s |\<notin>| wv_active w')
        \<or> (\<exists>w. map_of (rg_flows r1) key = Some w \<and> s |\<in>| wv_active w)"
      if "s |\<in>| wv_active (begin_wave ?n now (map_of (rg_flows r1) key))" for s
      using that by (auto simp: begin_wave_active split: option.splits)
  qed
  then show ?thesis
    using begin_cases [OF assms(1)] base apart unfolding r1_def by fastforce
qed

lemma apart_complete:
  assumes "registry_complete t ok now r = (b, r')" "serials_apart (rg_flows r)"
  shows "serials_apart (rg_flows r')"
  using assms by (auto simp: registry_complete_def intro!: apart_update split: if_splits option.splits)

lemma apart_step:
  "registry_step r l r' \<Longrightarrow> registry_inv r \<Longrightarrow> serials_apart (rg_flows r) \<Longrightarrow> serials_apart (rg_flows r')"
proof (induction rule: registry_step.induct)
  case (asked q now r d r')
  then show ?case using apart_prune readiness_registry by blast
next
  case (registered works r res r')
  then show ?case using progress_only(1) by fastforce
next
  case (recorded i r res r')
  then show ?case using progress_only(2) by fastforce
qed (use apart_begin apart_complete in blast)+

lemma new_registry_inv:
  "registry_new epoch port = Inr r \<Longrightarrow> registry_inv r \<and> serials_apart (rg_flows r)"
  by (auto simp: registry_new_def res_simps registry_inv_def flows_inv_def serials_apart_def)

lemma run_inv:
  "registry_run r ts r' \<Longrightarrow> registry_inv r \<and> serials_apart (rg_flows r)
    \<Longrightarrow> registry_inv r' \<and> serials_apart (rg_flows r')"
  by (induction rule: registry_run.induct) (use step_inv apart_step in blast)+

lemma run_spent: "registry_run r ts r' \<Longrightarrow> spent s r \<Longrightarrow> spent s r'"
  by (induction rule: registry_run.induct) (use spent_step in blast)+

lemma settled_spent:
  assumes "registry_complete t ok now r = (True, r')" "registry_inv r" "serials_apart (rg_flows r)"
  shows "spent (tk_serial t) r'"
proof -
  obtain w where w: "map_of (rg_flows r) (tk_key t) = Some w" "tk_serial t |\<in>| wv_active w"
    and r': "r' = r\<lparr>rg_flows := AList.update (tk_key t)
      (w\<lparr>wv_active := wv_active w |-| {|tk_serial t|}, wv_failed := (wv_failed w \<or> \<not> ok),
         wv_updated := now\<rparr>) (rg_flows r)\<rparr>"
    using assms(1) by (auto simp: registry_complete_def split: if_splits option.splits)
  have "tk_serial t |\<notin>| wv_active w'" if "(k, w') \<in> set (rg_flows r')" for k w'
  proof (cases "k = tk_key t")
    case True
    have "distinct (map fst (rg_flows r'))"
      using complete_inv [OF assms(2,1)] by (simp add: registry_inv_def flows_inv_def)
    then have "map_of (rg_flows r') k = Some w'" using that by (simp add: map_of_eq_Some_iff)
    then show ?thesis using True by (auto simp: r' update_conv')
  next
    case False
    then have "(k, w') \<in> set (rg_flows r)" using that by (auto simp: r' dest: update_mem)
    then show ?thesis using False assms(3) w map_of_SomeD [OF w(1)] unfolding serials_apart_def by blast
  qed
  moreover have "tk_serial t \<le> rg_next_serial r'"
    using assms(2) w map_of_SomeD [OF w(1)] by (auto simp: r' registry_inv_def flows_inv_def)
  ultimately show ?thesis by (auto simp: spent_def)
qed

lemma begin_serial:
  "registry_begin key g now r = (Inr t, r') \<Longrightarrow> rg_next_serial r \<noteq> -1
    \<and> tk_serial t = rg_next_serial r + 1 \<and> rg_next_serial r' = rg_next_serial r + 1"
  by (elim begin_cases) auto

lemma step_serial:
  "registry_step r l r' \<Longrightarrow> (case l of None \<Rightarrow> rg_next_serial r' = rg_next_serial r
    | Some t \<Rightarrow> rg_next_serial r < tk_serial t \<and> rg_next_serial r' = tk_serial t)"
proof (induction rule: registry_step.induct)
  case (begun key g now r t r')
  then show ?case
    using begin_serial [OF begun] unat_word_add_one [of "rg_next_serial r"] by (simp add: word_less_nat_alt)
next
  case (refused key g now r e r')
  then show ?case by (elim begin_cases) (auto simp: begin_base_def)
next
  case (completed t ok now r b r')
  then show ?case by (auto simp: registry_complete_def split: if_splits option.splits)
next
  case (asked q now r d r')
  then show ?case using readiness_registry by fastforce
next
  case (registered works r res r')
  then show ?case using progress_only(1) by fastforce
next
  case (recorded i r res r')
  then show ?case using progress_only(2) by fastforce
qed

lemma run_serials:
  "registry_run r ts r' \<Longrightarrow> sorted_wrt (<) (map tk_serial ts) \<and> (\<forall>t\<in>set ts. tk_serial t \<le> rg_next_serial r')"
proof (induction rule: registry_run.induct)
  case (step ts r' l r'')
  then show ?case
    using step_serial [OF step.hyps(2)]
    by (auto simp: sorted_wrt_append split: option.splits intro: less_imp_le order.strict_trans1 order.trans)
qed simp

section \<open>Releasing replies\<close>

text \<open>When a verdict on the pending reply with identifier \<open>i\<close> is justified, given the registry seen
  under its lock.\<close>

fun justified :: "release_env \<Rightarrow> registry \<Rightarrow> pending_replies \<Rightarrow> u32 \<Rightarrow> reply_verdict \<Rightarrow> bool" where
  "justified env r pending i (SentDrop j) \<longleftrightarrow> j = i \<and> map_of pending i \<noteq> None"
| "justified env r pending i (SentRepeat j m) \<longleftrightarrow> j = i \<and>
     (\<exists>q wv. map_of pending i = Some q
        \<and> m = application_reply_retry_mark (rp_packet_mark (pr_packet q))
        \<and> re_identity env = Inr (Enforcing, pr_generation q) \<and> \<not> re_stopping env
        \<and> re_now env - pr_started q < LIFETIME \<and> pr_not_before q \<le> re_now env
        \<and> barrier_reached_for_flow (rg_progress r) (pr_read_through q) (rp_key (pr_packet q))
        \<and> rg_generation r = Some (pr_generation q)
        \<and> (rp_key (pr_packet q), wv) \<in> set (rg_flows r) \<and> \<not> wv_failed wv)"

lemma disposition_repeat:
  assumes "reply_disposition q mode g stopping now r = (RepeatReply, r')"
  shows "\<not> stopping \<and> mode = Enforcing \<and> g = pr_generation q \<and> now - pr_started q < LIFETIME
    \<and> pr_not_before q \<le> now \<and> rg_generation r = Some (pr_generation q)
    \<and> barrier_reached_for_flow (rg_progress r) (pr_read_through q) (rp_key (pr_packet q))
    \<and> (\<exists>wv. (rp_key (pr_packet q), wv) \<in> set (rg_flows r) \<and> \<not> wv_failed wv)"
  using assms
  by (auto simp: reply_disposition_def registry_readiness_def prune_def Let_def
      split: if_splits option.splits dest!: map_of_SomeD)

lemma release_one_sent:
  assumes "release_one env i w = (res, w')"
  shows "\<exists>new. rw_sent w' = rw_sent w @ new \<and> length new \<le> 1
    \<and> (\<forall>v\<in>set new. justified env (re_others env (rw_registry w)) (rw_pending w) i v)
    \<and> (\<forall>j q. map_of (rw_pending w') j = Some q \<longrightarrow> map_of (rw_pending w) j = Some q)"
proof (cases "re_identity env")
  case (Inr mg)
  obtain mode g where mg: "mg = (mode, g)" by (cases mg)
  show ?thesis
  proof (cases "map_of (rw_pending w) i")
    case (Some q)
    obtain d r where d: "reply_disposition q mode g (re_stopping env) (re_now env) (re_others env (rw_registry w)) = (d, r)"
      by fastforce
    show ?thesis
    proof (cases d)
      case RepeatReply
      then show ?thesis
        using assms Inr mg Some d disposition_repeat [OF d [unfolded RepeatReply]]
        by (cases "re_sends env") (auto simp: release_one_def send_reply_def delete_conv' Let_def split: if_splits)
    qed (use assms Inr mg Some d in \<open>auto simp: release_one_def send_reply_def drop_reply_def delete_conv'
          Let_def split: if_splits\<close>)
  qed (use assms Inr mg in \<open>auto simp: release_one_def\<close>)
qed (use assms in \<open>auto simp: release_one_def\<close>)

fun verdict_id :: "reply_verdict \<Rightarrow> u32" where
  "verdict_id (SentDrop i) = i"
| "verdict_id (SentRepeat i m) = i"

lemma justified_mono:
  assumes "\<forall>j q. map_of p' j = Some q \<longrightarrow> map_of p j = Some q" "justified env r p' i v"
  shows "justified env r p i v"
proof (cases v)
  case (SentDrop j)
  then show ?thesis using assms by auto
next
  case (SentRepeat j m)
  then show ?thesis using assms by fastforce
qed

lemma justified_id: "justified env r p i v \<Longrightarrow> verdict_id v = i"
  by (cases v) auto

lemma release_loop_sent:
  assumes "release_loop steps w = (res, w')" "distinct (map fst steps)"
  shows "\<exists>new. rw_sent w' = rw_sent w @ new
    \<and> (\<forall>v\<in>set new. \<exists>(i, env)\<in>set steps. \<exists>r. justified env (re_others env r) (rw_pending w) i v)
    \<and> distinct (map verdict_id new) \<and> verdict_id ` set new \<subseteq> fst ` set steps"
  using assms
proof (induction steps arbitrary: w)
  case Nil
  then show ?case by auto
next
  case (Cons step steps)
  obtain i env where step: "step = (i, env)" by (cases step)
  obtain res1 w1 where one: "release_one env i w = (res1, w1)" by fastforce
  obtain new1 where new1: "rw_sent w1 = rw_sent w @ new1" "length new1 \<le> 1"
    "\<forall>v\<in>set new1. justified env (re_others env (rw_registry w)) (rw_pending w) i v"
    "\<forall>j q. map_of (rw_pending w1) j = Some q \<longrightarrow> map_of (rw_pending w) j = Some q"
    using release_one_sent [OF one] by blast
  have ids: "distinct (map verdict_id new1)" "verdict_id ` set new1 \<subseteq> {i}"
    using new1(2,3) justified_id by (cases new1; fastforce)+
  show ?case
  proof (cases res1)
    case (Inl e)
    then have "w' = w1" using Cons.prems(1) step one by simp
    then show ?thesis using new1(1,3) ids by (intro exI [of _ new1]) (auto simp: step)
  next
    case (Inr u)
    then have "release_loop steps w1 = (res, w')" using Cons.prems(1) step one by simp
    then obtain new2 where new2: "rw_sent w' = rw_sent w1 @ new2"
      "\<forall>v\<in>set new2. \<exists>(i, env)\<in>set steps. \<exists>r. justified env (re_others env r) (rw_pending w1) i v"
      "distinct (map verdict_id new2)" "verdict_id ` set new2 \<subseteq> fst ` set steps"
      using Cons.IH [of w1] Cons.prems(2) by auto
    have "i \<notin> fst ` set steps" using Cons.prems(2) step by simp
    then have "verdict_id ` set new1 \<inter> verdict_id ` set new2 = {}" using ids(2) new2(4) by blast
    then have "distinct (map verdict_id (new1 @ new2))" using ids(1) new2(3) by simp
    moreover have "\<forall>v\<in>set new2. \<exists>(i, env)\<in>set steps. \<exists>r. justified env (re_others env r) (rw_pending w) i v"
      using new2(2) justified_mono [OF new1(4)] by fast
    then have "\<forall>v\<in>set (new1 @ new2). \<exists>(i, env)\<in>set (step # steps). \<exists>r.
        justified env (re_others env r) (rw_pending w) i v"
      using new1(3) by (auto simp: step)
    moreover have "verdict_id ` set (new1 @ new2) \<subseteq> fst ` set (step # steps)"
      using ids(2) new2(4) by (auto simp: step)
    moreover have "rw_sent w' = rw_sent w @ new1 @ new2" using new1(1) new2(1) by simp
    ultimately show ?thesis by blast
  qed
qed

lemma release_expired:
  assumes "map_of (rw_pending w) i = Some q" "re_sends env" "re_identity env = Inr (mode, g)"
    and "LIFETIME \<le> re_now env - pr_started q"
  shows "\<exists>w'. release_one env i w = (Inr (), w') \<and> rw_pending w' = AList.delete i (rw_pending w)
    \<and> rw_sent w' = rw_sent w @ [SentDrop i]"
  using assms by (simp add: release_one_def reply_disposition_def drop_reply_def send_reply_def)

lemma release_loop_expired:
  assumes "distinct (map fst (rw_pending w))" "length envs = length (rw_pending w)"
    and "\<forall>((i, q), env) \<in> set (zip (rw_pending w) envs). re_sends env \<and> is_ok (re_identity env)
      \<and> LIFETIME \<le> re_now env - pr_started q"
  shows "\<exists>w'. release_loop (zip (map fst (rw_pending w)) envs) w = (Inr (), w')
    \<and> rw_pending w' = [] \<and> rw_sent w' = rw_sent w @ map (\<lambda>(i, _). SentDrop i) (rw_pending w)"
  using assms
proof (induction envs arbitrary: w)
  case (Cons env envs)
  then obtain i q ps where p: "rw_pending w = (i, q) # ps" by (cases "rw_pending w") auto
  obtain mg where "re_identity env = Inr mg" using Cons.prems(3) p by (auto simp: is_ok_iff)
  then obtain w1 where w1: "release_one env i w = (Inr (), w1)"
    "rw_pending w1 = AList.delete i (rw_pending w)" "rw_sent w1 = rw_sent w @ [SentDrop i]"
    using release_expired [of w i q env "fst mg" "snd mg"] Cons.prems(3) p by auto
  have "i \<notin> fst ` set ps" using Cons.prems(1) p by simp
  then have "rw_pending w1 = ps" using w1(2) p by (simp add: delete_idem)
  then obtain w2 where "release_loop (zip (map fst ps) envs) w1 = (Inr (), w2)" "rw_pending w2 = []"
    "rw_sent w2 = rw_sent w1 @ map (\<lambda>(i, _). SentDrop i) ps"
    using Cons.IH [of w1] Cons.prems p by auto
  then show ?case using w1 p by simp
qed simp

section \<open>Parsing replies\<close>

lemma mark_attribute_total: "mark_attribute m a \<noteq> Inl IndexPanic"
  using network_u32_total by (auto simp: mark_attribute_def res_simps)

lemma reply_ports_total: "reply_ports parsed \<noteq> Inl IndexPanic"
  by (auto simp: reply_ports_def res_simps)

lemma parse_reply_total: "parse_reply e payload \<noteq> Inl IndexPanic"
proof -
  have "for_attributes e bytes 0 mark_attribute None \<noteq> Inl IndexPanic" for bytes
    by (rule for_attributes_total) (rule mark_attribute_total)
  then show ?thesis
    using parse_packet_capture_total capture_parse_total reply_ports_total
    by (auto simp: parse_reply_def res_simps Let_def netlink_sizes)
qed

lemma retry_iterate:
  "unat (drop_bit 30 ((application_reply_retry_mark ^^ k) m)) = min 3 (unat (drop_bit 30 m) + k)
    \<and> (application_reply_retry_mark ^^ k) m AND mask 30 = m AND mask 30"
proof (induction k)
  case 0
  then show ?case using attempts_small [of m] by (simp add: word_less_nat_alt)
next
  case (Suc k)
  let ?m = "(application_reply_retry_mark ^^ k) m"
  have "unat (drop_bit 30 ?m + 1) = unat (drop_bit 30 ?m) + 1" if "drop_bit 30 ?m < 3"
    using that by (subst unat_word_add_one) auto
  then have "unat (drop_bit 30 (application_reply_retry_mark ?m)) = min 3 (unat (drop_bit 30 ?m) + 1)"
    using attempts_small [of ?m] by (auto simp: retry_mark(1) word_less_nat_alt)
  then show ?case using Suc retry_mark(2) [of ?m] by simp
qed

section \<open>A sample registry\<close>

definition sample_registry :: registry where
  "sample_registry = \<lparr>rg_generation = None, rg_next_serial = 0, rg_flows = [], rg_progress = sample_progress\<rparr>"

definition sample_ticket :: outgoing_ticket where
  "sample_ticket = \<lparr>tk_key = sample_key, tk_generation = 5, tk_wave = 1, tk_serial = 1\<rparr>"

definition sample_wave :: "u64 fset \<Rightarrow> wave" where
  "sample_wave active = \<lparr>wv_serial = 1, wv_active = active, wv_failed = False, wv_updated = 10\<rparr>"

definition sample_registry1 :: "u64 fset \<Rightarrow> registry" where
  "sample_registry1 active = sample_registry\<lparr>rg_generation := Some 5, rg_next_serial := 1,
     rg_flows := [(sample_key, sample_wave active)]\<rparr>"

lemma sample_registry_new: "registry_new 3 7 = Inr sample_registry"
  by (simp add: registry_new_def sample_new sample_registry_def)

lemma sample_begin:
  "registry_begin sample_key 5 10 sample_registry = (Inr sample_ticket, sample_registry1 {|1|})"
  by (simp add: registry_begin_def sample_registry_def sample_registry1_def prune_def active_tickets_def
      evict_oldest_def begin_wave_def CAPACITY_def sample_ticket_def sample_wave_def)

lemma sample_registry_run: "registry_run sample_registry [sample_ticket] (sample_registry1 {|1|})"
  using registry_run.step [OF registry_run.nothing registry_step.begun [OF sample_begin]] by simp

lemma sample_complete:
  "registry_complete sample_ticket True 10 (sample_registry1 {|1|}) = (True, sample_registry1 {||})"
  by (simp add: registry_complete_def sample_ticket_def sample_registry1_def sample_wave_def)

definition sample_pending_reply :: pending_reply where
  "sample_pending_reply = \<lparr>pr_packet = \<lparr>rp_key = sample_key, rp_packet_mark = 9\<rparr>, pr_generation = 5,
     pr_started = 20, pr_not_before = 20,
     pr_read_through = \<lparr>rb_identity = \<lparr>qi_port_id = 7, qi_epoch = 3\<rparr>, rb_sequence = 0\<rparr>\<rparr>"

definition sample_worker :: reply_worker where
  "sample_worker = \<lparr>rw_pending = [(4, sample_pending_reply)], rw_registry = sample_registry1 {||},
     rw_sent = [], rw_denied = 0\<rparr>"

definition sample_env :: "instant \<Rightarrow> release_env" where
  "sample_env now = \<lparr>re_identity = Inr (Enforcing, 5), re_stopping = False, re_now = now,
     re_sends = True, re_others = (\<lambda>r. r)\<rparr>"

lemma sample_released:
  "release_pending [sample_env 30] sample_worker =
     (Inr (), sample_worker\<lparr>rw_pending := [], rw_sent := [SentRepeat 4 0x40000009]\<rparr>)"
  by (simp add: release_pending_def sample_worker_def release_one_def sample_env_def reply_disposition_def
      sample_pending_reply_def LIFETIME_def sample_registry1_def sample_registry_def sample_progress_def
      barrier_reached_for_flow_def barrier_reached_def same_queue_def SERIAL_HALF_RANGE_def
      registry_readiness_def prune_def wave_live_def sample_wave_def send_reply_def
      application_reply_retry_mark_def APPLICATION_MARK_PAYLOAD_MASK_def Let_def)

definition sample_reply_payload :: "u8 list" where
  "sample_reply_payload = [0, 0, 5, 59] @ attribute_bytes LittleEndian (NFQA_PAYLOAD, sample_packet)"

definition sample_reply :: reply_packet where
  "sample_reply = \<lparr>rp_key = \<lparr>rk_local = IpV4 0x0a000002, rk_local_port = 12345, rk_remote = IpV4 0x0a000001,
     rk_remote_port = Some 53, rk_protocol = Udp\<rparr>, rp_packet_mark = 0\<rparr>"

lemma sample_reply_parses: "parse_reply LittleEndian sample_reply_payload = Inr sample_reply"
proof -
  have "for_attributes LittleEndian (attribute_bytes LittleEndian (NFQA_PAYLOAD, sample_packet)) 0 mark_attribute None =
      Inr None"
    using for_attributes_bytes [of "[(NFQA_PAYLOAD, sample_packet)]" LittleEndian "[]" mark_attribute None]
    by (simp add: sample_packet_def mark_attribute_def read_attribute_def NFQA_PAYLOAD_def NFQA_MARK_def)
  moreover have "application_reply_retry_mark 0 \<noteq> 0"
    by (simp add: application_reply_retry_mark_def)
  ultimately show ?thesis
    by (simp add: parse_reply_def sample_reply_payload_def netlink_sizes be_u16_at_def byte_at_def
        APPLICATION_REPLY_QUEUE_NUMBER_def sample_captured sample_parses unwrap_or_def reply_ports_def
        sample_reply_def)
      (simp add: sample_parsed_def sample_capture_def sample_packet_def)
qed

section \<open>Properties\<close>

text \<open>C28: Whatever the reader, the workers and the reply worker do to the shared registry and at
  whatever instants, at most 128 tickets are outstanding, at most 128 flows are remembered, each
  under one key, and the tickets handed out have strictly increasing serial numbers.\<close>
theorem registry_stays_bounded:
  assumes "registry_new epoch port = Inr r0" "registry_run r0 ts r"
  shows "active_tickets r \<le> 128 \<and> length (rg_flows r) \<le> 128 \<and> distinct (map fst (rg_flows r))
    \<and> sorted_wrt (<) (map tk_serial ts)"
  using run_inv [OF assms(2) new_registry_inv [OF assms(1)]] run_serials [OF assms(2)]
  by (simp add: registry_inv_def flows_inv_def active_tickets_def CAPACITY_def)

theorem registry_stays_bounded_witness:
  "registry_new 3 7 = Inr sample_registry \<and> registry_run sample_registry [sample_ticket] (sample_registry1 {|1|})
    \<and> active_tickets (sample_registry1 {|1|}) \<le> 128"
  using registry_stays_bounded [OF sample_registry_new sample_registry_run] sample_registry_new sample_registry_run
  by simp

text \<open>A ticket settles its flow at most once and only in its own policy generation and wave:
  after it has settled, no later state of the registry accepts it again, so that a stale or
  duplicated completion can never settle another generation or wave.\<close>
theorem ticket_settles_once:
  assumes "registry_new epoch port = Inr r0" "registry_run r0 ts r"
    and "registry_complete t ok now r = (True, r')" "registry_run r' ts' r''"
  shows "rg_generation r = Some (tk_generation t)
    \<and> registry_complete t ok' now' r'' = (False, r'')"
proof -
  have "spent (tk_serial t) r'"
    using settled_spent [OF assms(3)] run_inv [OF assms(2) new_registry_inv [OF assms(1)]] by blast
  then have "spent (tk_serial t) r''" by (rule run_spent [OF assms(4)])
  then show ?thesis
    using spent_refuses assms(3) by (auto simp: registry_complete_def split: if_splits)
qed

theorem ticket_settles_once_witness:
  "registry_complete sample_ticket True 10 (sample_registry1 {|1|}) = (True, sample_registry1 {||})
    \<and> registry_complete sample_ticket False 11 (sample_registry1 {||}) = (False, sample_registry1 {||})"
  using ticket_settles_once [OF sample_registry_new sample_registry_run sample_complete registry_run.nothing,
      of False 11] sample_complete by simp

text \<open>C26: The worker sends at most one verdict per pending reply, and repeats a reply only when, at
  that moment and under the locks, the policy is Enforcing with the generation the reply was
  admitted under, no shutdown is in progress, the reply is within its lifetime and past its
  back-off, every earlier original that may belong to its flow has its verdict, and the flow has
  a settled outcome without failure; the repeated packet carries the next retry mark.\<close>
theorem replies_repeat_only_when_ready:
  assumes "release_pending envs w = (res, w')" "distinct (map fst (rw_pending w))"
  shows "\<exists>new. rw_sent w' = rw_sent w @ new \<and> distinct (map verdict_id new)
    \<and> (\<forall>v\<in>set new. \<exists>(i, env)\<in>set (zip (map fst (rw_pending w)) envs). \<exists>r.
         justified env (re_others env r) (rw_pending w) i v)"
proof -
  have "distinct (map fst (zip (map fst (rw_pending w)) envs))"
    using assms(2) by (simp add: map_fst_zip_take distinct_take)
  then show ?thesis
    using release_loop_sent [OF assms(1) [unfolded release_pending_def]] by blast
qed

theorem replies_repeat_only_when_ready_witness:
  "release_pending [sample_env 30] sample_worker =
     (Inr (), sample_worker\<lparr>rw_pending := [], rw_sent := [SentRepeat 4 0x40000009]\<rparr>)
   \<and> (\<exists>r. justified (sample_env 30) (re_others (sample_env 30) r) (rw_pending sample_worker) 4
         (SentRepeat 4 0x40000009))"
proof -
  have "\<exists>new. rw_sent (sample_worker\<lparr>rw_pending := [], rw_sent := [SentRepeat 4 0x40000009]\<rparr>) = rw_sent sample_worker @ new
      \<and> (\<forall>v\<in>set new. \<exists>(i, env)\<in>set (zip (map fst (rw_pending sample_worker)) [sample_env 30]). \<exists>r.
         justified env (re_others env r) (rw_pending sample_worker) i v)"
    using replies_repeat_only_when_ready [OF sample_released] by (simp add: sample_worker_def)
  then show ?thesis using sample_released by (simp add: sample_worker_def)
qed

text \<open>No reply is held for ever: one pass over the pending replies drops every one whose
  two-second lifetime has passed, whatever the policy and the registry say, and leaves none of
  them behind.\<close>
theorem expired_replies_are_dropped:
  assumes "distinct (map fst (rw_pending w))" "length envs = length (rw_pending w)"
    and "\<forall>((i, q), env) \<in> set (zip (rw_pending w) envs). re_sends env \<and> is_ok (re_identity env)
      \<and> LIFETIME \<le> re_now env - pr_started q"
  shows "\<exists>w'. release_pending envs w = (Inr (), w') \<and> rw_pending w' = []
    \<and> rw_sent w' = rw_sent w @ map (\<lambda>(i, _). SentDrop i) (rw_pending w)"
  unfolding release_pending_def by (rule release_loop_expired [OF assms])

theorem expired_replies_are_dropped_witness:
  "\<exists>w'. release_pending [sample_env 3000000000] sample_worker = (Inr (), w') \<and> rw_pending w' = []
    \<and> rw_sent w' = [SentDrop 4]"
  using expired_replies_are_dropped [of sample_worker "[sample_env 3000000000]"]
  by (simp add: sample_worker_def sample_env_def sample_pending_reply_def LIFETIME_def)

text \<open>A reply is retried at most three times: parsing a reply never panics, only accepts a packet
  with fewer than three attempts in its mark, and each repeat adds one attempt until three and
  keeps the thirty bits that belong to the host.\<close>
theorem reply_retry_budget:
  "parse_reply e payload \<noteq> Inl IndexPanic
   \<and> (parse_reply e payload = Inr p \<longrightarrow>
        unat (drop_bit 30 (rp_packet_mark p)) < 3
        \<and> (\<forall>k. unat (drop_bit 30 ((application_reply_retry_mark ^^ k) (rp_packet_mark p)))
              = min 3 (unat (drop_bit 30 (rp_packet_mark p)) + k)
            \<and> (application_reply_retry_mark ^^ k) (rp_packet_mark p) AND mask 30 = rp_packet_mark p AND mask 30))"
proof -
  have few: "unat (drop_bit 30 (rp_packet_mark p)) < 3" if "parse_reply e payload = Inr p"
  proof -
    have "rp_packet_mark p \<noteq> application_reply_retry_mark (rp_packet_mark p)"
      using that by (auto simp: parse_reply_def res_simps Let_def)
    then have "drop_bit 30 (rp_packet_mark p) < 3" using retry_terminal by blast
    then show ?thesis by (simp only: word_less_nat_alt) simp
  qed
  show ?thesis using parse_reply_total few retry_iterate by blast
qed

theorem reply_retry_budget_witness:
  "parse_reply LittleEndian sample_reply_payload = Inr sample_reply
    \<and> unat (drop_bit 30 ((application_reply_retry_mark ^^ 5) (rp_packet_mark sample_reply))) = 3"
proof -
  have "unat (drop_bit 30 ((application_reply_retry_mark ^^ 5) (rp_packet_mark sample_reply)))
      = min 3 (unat (drop_bit 30 (rp_packet_mark sample_reply)) + 5)"
    using reply_retry_budget [of LittleEndian sample_reply_payload sample_reply] sample_reply_parses by blast
  then show ?thesis using sample_reply_parses by (simp add: sample_reply_def)
qed

end
