(* ===== verification/Decision.thy ===== *)
theory Decision
  imports Connection Policy_State "HOL-Library.AList" "HOL-Library.Product_Lexorder"
begin

text \<open>
  The application decision policy of \<open>src/crates/openshield-daemon/src/application.rs\<close>: an
  immutable snapshot with an index of the application rules by their pinned executable and of
  the outbound network rules that accept, and the lookups that the packet path makes in it.
  Membership of an address in a network (\<open>IpNet::contains\<close> of the \<open>ipnet\<close> crate) is a parameter.
\<close>

type_synonym net_contains = "ip_net \<Rightarrow> ip_addr \<Rightarrow> bool"

text \<open>\<open>Iterator::min_by_key\<close>: the first element with the least key.\<close>

fun min_by :: "('a \<Rightarrow> 'k::linorder) \<Rightarrow> 'a list \<Rightarrow> 'a option" where
  "min_by key [] = None"
| "min_by key (x # xs) =
     (case min_by key xs of
        None \<Rightarrow> Some x
      | Some y \<Rightarrow> if key x \<le> key y then Some x else Some y)"

fun rule_action_priority :: "rule_action \<Rightarrow> u8" where
  "rule_action_priority Drop = 0"
| "rule_action_priority Reject = 1"
| "rule_action_priority Accept = 2"

definition decision_key :: "rule \<Rightarrow> u8 \<times> uuid" where
  "decision_key r = (rule_action_priority (spec_action (rule_spec r)), rule_id r)"

section \<open>Matching a rule\<close>

definition outbound_network_selectors_match :: "net_contains \<Rightarrow> rule \<Rightarrow> outbound_connection \<Rightarrow> bool" where
  "outbound_network_selectors_match contains r c \<longleftrightarrow>
     spec_enabled (rule_spec r) \<and> spec_direction (rule_spec r) = Outbound
     \<and> (spec_protocol (rule_spec r) = Any \<or> spec_protocol (rule_spec r) = oc_protocol c)
     \<and> is_none_or (spec_peer_network (rule_spec r))
         (\<lambda>network. contains network (oc_destination_address c))
     \<and> is_none_or (spec_port (rule_spec r)) (\<lambda>range.
         is_some_and (oc_destination_port c) (\<lambda>port. pr_start range \<le> port \<and> port \<le> pr_end range))
     \<and> is_none_or (spec_interface (rule_spec r)) (\<lambda>interface. interface = oc_output_interface c)"

definition outbound_network_rule_matches :: "net_contains \<Rightarrow> rule \<Rightarrow> outbound_connection \<Rightarrow> bool" where
  "outbound_network_rule_matches contains r c \<longleftrightarrow>
     spec_application (rule_spec r) = None \<and> spec_action (rule_spec r) = Accept
     \<and> outbound_network_selectors_match contains r c"

definition application_rule_network_and_uid_matches ::
    "net_contains \<Rightarrow> rule \<Rightarrow> outbound_connection \<Rightarrow> bool" where
  "application_rule_network_and_uid_matches contains r c \<longleftrightarrow>
     outbound_network_selectors_match contains r c
     \<and> is_some_and (spec_application (rule_spec r)) (\<lambda>selector.
         is_none_or (sel_uid selector) (\<lambda>expected. expected = oc_socket_uid c))"

definition application_rule_matches ::
    "net_contains \<Rightarrow> rule \<Rightarrow> outbound_connection \<Rightarrow> application_identity \<Rightarrow> bool" where
  "application_rule_matches contains r c i \<longleftrightarrow>
     application_rule_network_and_uid_matches contains r c
     \<and> is_some_and (spec_application (rule_spec r)) (\<lambda>selector. application_selector_matches selector i)"

definition fast_learned_accept_rule_matches ::
    "net_contains \<Rightarrow> rule \<Rightarrow> outbound_connection \<Rightarrow> application_identity \<Rightarrow> bool" where
  "fast_learned_accept_rule_matches contains r c i \<longleftrightarrow>
     \<not> (spec_origin (rule_spec r) \<noteq> Learned \<or> spec_action (rule_spec r) \<noteq> Accept
        \<or> \<not> application_rule_network_and_uid_matches contains r c)
     \<and> is_some_and (spec_application (rule_spec r)) (\<lambda>selector.
         \<not> sel_metadata_redacted selector
         \<and> is_some_and (sel_executable selector) (\<lambda>expected. expected = ident_executable i)
         \<and> is_some_and (sel_executable_file selector) (\<lambda>expected. expected = ident_executable_file i)
         \<and> is_some_and (sel_uid selector) (\<lambda>expected. expected = ident_uid i))"

text \<open>The scan over all rules, which the source keeps as the reference for its tests.\<close>

definition matching_application_rule ::
    "net_contains \<Rightarrow> snapshot \<Rightarrow> outbound_connection \<Rightarrow> application_identity \<Rightarrow> rule option" where
  "matching_application_rule contains sn c i =
     min_by decision_key (filter (\<lambda>r. application_rule_matches contains r c i) (sn_rules sn))"

section \<open>The indexed policy\<close>

record decision_policy =
  dp_strategy :: enforcement_strategy
  dp_snapshot :: snapshot
  dp_rules_by_executable :: "(executable_file_id \<times> nat list) list"
  dp_network_accept_rules :: "nat list"

definition index_entry ::
    "(executable_file_id \<times> nat list) list \<Rightarrow> executable_file_id \<Rightarrow> nat list" where
  "index_entry m file = (case map_of m file of None \<Rightarrow> [] | Some is \<Rightarrow> is)"

fun index_rules ::
    "nat \<Rightarrow> rule list \<Rightarrow> (executable_file_id \<times> nat list) list \<times> nat list
      \<Rightarrow> (executable_file_id \<times> nat list) list \<times> nat list" where
  "index_rules index [] m = m"
| "index_rules index (r # rs) (by_file, network) =
     index_rules (Suc index) rs
       (case spec_application (rule_spec r) of
          Some selector \<Rightarrow>
            (case sel_executable_file selector of
               None \<Rightarrow> (by_file, network)
             | Some file \<Rightarrow> (AList.update file (index_entry by_file file @ [index]) by_file, network))
        | None \<Rightarrow>
            if spec_enabled (rule_spec r) \<and> spec_direction (rule_spec r) = Outbound
               \<and> spec_action (rule_spec r) = Accept
            then (by_file, network @ [index]) else (by_file, network))"

definition decision_policy_new :: "snapshot \<Rightarrow> decision_policy" where
  "decision_policy_new sn =
     (let (by_file, network) = index_rules 0 (sn_rules sn) ([], []) in
      \<lparr>dp_strategy = Strict, dp_snapshot = sn, dp_rules_by_executable = by_file,
       dp_network_accept_rules = network\<rparr>)"

definition with_enforcement_strategy :: "enforcement_strategy \<Rightarrow> decision_policy \<Rightarrow> decision_policy" where
  "with_enforcement_strategy strategy p = p\<lparr>dp_strategy := strategy\<rparr>"

definition rules_get :: "rule list \<Rightarrow> nat \<Rightarrow> rule option" where
  "rules_get rs i = (if i < length rs then Some (rs ! i) else None)"

definition indexed_rules :: "decision_policy \<Rightarrow> nat list \<Rightarrow> rule list" where
  "indexed_rules p indexes = List.map_filter (rules_get (sn_rules (dp_snapshot p))) indexes"

definition candidates :: "decision_policy \<Rightarrow> application_identity \<Rightarrow> rule list" where
  "candidates p i =
     indexed_rules p (index_entry (dp_rules_by_executable p) (ident_executable_file i))"

definition matching_network_accept ::
    "net_contains \<Rightarrow> decision_policy \<Rightarrow> outbound_connection \<Rightarrow> rule option" where
  "matching_network_accept contains p c =
     min_by rule_id (filter (\<lambda>r. outbound_network_rule_matches contains r c)
       (indexed_rules p (dp_network_accept_rules p)))"

definition or_else :: "'a option \<Rightarrow> 'a option \<Rightarrow> 'a option" where
  "or_else x y = (case x of None \<Rightarrow> y | Some _ \<Rightarrow> x)"

definition matching_rule ::
    "net_contains \<Rightarrow> decision_policy \<Rightarrow> outbound_connection \<Rightarrow> application_identity \<Rightarrow> rule option" where
  "matching_rule contains p c i =
     or_else (min_by decision_key (filter (\<lambda>r. application_rule_matches contains r c i) (candidates p i)))
    (or_else (if dp_strategy p = Fast
              then min_by rule_id
                     (filter (\<lambda>r. fast_learned_accept_rule_matches contains r c i) (candidates p i))
              else None)
       (matching_network_accept contains p c))"

definition matching_deny_rule ::
    "net_contains \<Rightarrow> decision_policy \<Rightarrow> outbound_connection \<Rightarrow> application_identity \<Rightarrow> rule option" where
  "matching_deny_rule contains p c i =
     min_by decision_key
       (filter (\<lambda>r. application_rule_matches contains r c i)
         (filter (\<lambda>r. spec_action (rule_spec r) = Drop \<or> spec_action (rule_spec r) = Reject)
           (candidates p i)))"

section \<open>What must be captured\<close>

record capture_requirements =
  cr_command_line :: bool
  cr_cgroups :: bool

definition requirements_minimal :: capture_requirements where
  "requirements_minimal = \<lparr>cr_command_line = False, cr_cgroups = False\<rparr>"

definition requirements_full :: capture_requirements where
  "requirements_full = \<lparr>cr_command_line = True, cr_cgroups = True\<rparr>"

definition require_selector :: "application_selector \<Rightarrow> capture_requirements \<Rightarrow> capture_requirements" where
  "require_selector selector req =
     \<lparr>cr_command_line = (cr_command_line req \<or> sel_command_line selector \<noteq> None),
      cr_cgroups = (cr_cgroups req \<or> sel_cgroup selector \<noteq> None)\<rparr>"

fun enforcement_requirements ::
    "net_contains \<Rightarrow> enforcement_strategy \<Rightarrow> outbound_connection \<Rightarrow> rule list
      \<Rightarrow> capture_requirements \<Rightarrow> bool \<Rightarrow> capture_requirements \<times> bool" where
  "enforcement_requirements contains strategy c [] req found = (req, found)"
| "enforcement_requirements contains strategy c (r # rs) req found =
     (if \<not> application_rule_network_and_uid_matches contains r c
      then enforcement_requirements contains strategy c rs req found
      else case spec_application (rule_spec r) of
          None \<Rightarrow> enforcement_requirements contains strategy c rs req found
        | Some selector \<Rightarrow>
            let stable_fast_learning_accept =
                  strategy = Fast \<and> spec_origin (rule_spec r) = Learned \<and> spec_action (rule_spec r) = Accept
            in enforcement_requirements contains strategy c rs
                 (if stable_fast_learning_accept then req else require_selector selector req) True)"

definition enforcement_capture_requirements ::
    "net_contains \<Rightarrow> decision_policy \<Rightarrow> outbound_connection \<Rightarrow> capture_requirements option" where
  "enforcement_capture_requirements contains p c =
     (let (req, found) = enforcement_requirements contains (dp_strategy p) c
            (sn_rules (dp_snapshot p)) requirements_minimal False
      in if found then Some req else None)"

fun deny_requirements ::
    "net_contains \<Rightarrow> outbound_connection \<Rightarrow> rule list \<Rightarrow> capture_requirements \<Rightarrow> bool
      \<Rightarrow> capture_requirements \<times> bool" where
  "deny_requirements contains c [] req found = (req, found)"
| "deny_requirements contains c (r # rs) req found =
     (if \<not> (spec_action (rule_spec r) = Drop \<or> spec_action (rule_spec r) = Reject)
         \<or> \<not> application_rule_network_and_uid_matches contains r c
      then deny_requirements contains c rs req found
      else case spec_application (rule_spec r) of
          None \<Rightarrow> deny_requirements contains c rs req found
        | Some selector \<Rightarrow> deny_requirements contains c rs (require_selector selector req) True)"

definition deny_capture_requirements ::
    "net_contains \<Rightarrow> decision_policy \<Rightarrow> outbound_connection \<Rightarrow> capture_requirements option" where
  "deny_capture_requirements contains p c =
     (let (req, found) = deny_requirements contains c (sn_rules (dp_snapshot p)) requirements_minimal False
      in if found then Some req else None)"

end
