(* ===== verification/Decision_Properties.thy ===== *)
theory Decision_Properties
  imports Decision Snapshot_Properties
begin

text \<open>
  The indexed decision policy decides as the scan over all rules; deny rules take precedence
  over every accept; and the deny-only prefilter that runs before attribution neither loses a
  decision nor lets uncaptured process fields influence one.
\<close>

section \<open>Least elements\<close>

lemma min_by_None [simp]: "min_by key xs = None \<longleftrightarrow> xs = []"
  by (cases xs) (auto split: option.splits)

lemma min_by_Some: "min_by key xs = Some x \<Longrightarrow> x \<in> set xs \<and> (\<forall>y\<in>set xs. key x \<le> key y)"
proof (induction xs arbitrary: x)
  case (Cons y ys)
  then show ?case by (cases "min_by key ys") (fastforce split: if_splits)+
qed simp

lemma or_else_simps [simp]: "or_else None y = y" "or_else (Some x) y = Some x"
  by (simp_all add: or_else_def)

section \<open>The index\<close>

definition rule_file :: "rule \<Rightarrow> executable_file_id option" where
  "rule_file r = Option.bind (spec_application (rule_spec r)) sel_executable_file"

definition network_accept :: "rule \<Rightarrow> bool" where
  "network_accept r \<longleftrightarrow> spec_application (rule_spec r) = None \<and> spec_enabled (rule_spec r)
     \<and> spec_direction (rule_spec r) = Outbound \<and> spec_action (rule_spec r) = Accept"

lemma index_entry_update [simp]:
  "index_entry (AList.update k v m) file = (if file = k then v else index_entry m file)"
  by (simp add: index_entry_def update_conv')

lemma rules_get_middle [simp]: "rules_get (pre @ r # rs) (length pre) = Some r"
  by (simp add: rules_get_def)

lemma map_filter_append [simp]: "List.map_filter f (xs @ ys) = List.map_filter f xs @ List.map_filter f ys"
  by (induction xs) (simp_all add: List.map_filter_simps split: option.split)

lemma index_rules_files:
  "all = pre @ rs \<Longrightarrow>
    List.map_filter (rules_get all) (index_entry (fst (index_rules (length pre) rs (m, net))) file) =
      List.map_filter (rules_get all) (index_entry m file) @ filter (\<lambda>r. rule_file r = Some file) rs"
proof (induction rs arbitrary: pre m net)
  case (Cons r rs)
  have step: "all = (pre @ [r]) @ rs" using Cons.prems by simp
  have get: "rules_get all (length pre) = Some r" using Cons.prems by simp
  show ?case
    using Cons.IH [OF step] get
    by (auto simp: rule_file_def List.map_filter_simps split: option.split)
qed simp

lemma index_rules_network:
  "all = pre @ rs \<Longrightarrow>
    List.map_filter (rules_get all) (snd (index_rules (length pre) rs (m, net))) =
      List.map_filter (rules_get all) net @ filter network_accept rs"
proof (induction rs arbitrary: pre m net)
  case (Cons r rs)
  have step: "all = (pre @ [r]) @ rs" using Cons.prems by simp
  have get: "rules_get all (length pre) = Some r" using Cons.prems by simp
  show ?case
    using Cons.IH [OF step] get
    by (auto simp: network_accept_def List.map_filter_simps split: option.split)
qed simp

lemma candidates_new:
  "candidates (with_enforcement_strategy st (decision_policy_new sn)) i =
     filter (\<lambda>r. rule_file r = Some (ident_executable_file i)) (sn_rules sn)"
  using index_rules_files [of "sn_rules sn" "[]" "sn_rules sn" "[]" "[]" "ident_executable_file i"]
  by (simp add: candidates_def indexed_rules_def with_enforcement_strategy_def decision_policy_new_def
      index_entry_def List.map_filter_simps case_prod_beta)

lemma network_new:
  "indexed_rules (with_enforcement_strategy st (decision_policy_new sn))
     (dp_network_accept_rules (with_enforcement_strategy st (decision_policy_new sn))) =
     filter network_accept (sn_rules sn)"
  using index_rules_network [of "sn_rules sn" "[]" "sn_rules sn" "[]" "[]"]
  by (simp add: indexed_rules_def with_enforcement_strategy_def decision_policy_new_def
      List.map_filter_simps case_prod_beta)

section \<open>The decision as a scan\<close>

text \<open>Every enabled application rule carries the pin of its executable, as the state invariant
  guarantees.\<close>

definition pinned :: "snapshot \<Rightarrow> bool" where
  "pinned sn \<longleftrightarrow> (\<forall>r\<in>set (sn_rules sn). spec_enabled (rule_spec r)
     \<longrightarrow> spec_application (rule_spec r) \<noteq> None \<longrightarrow> rule_file r \<noteq> None)"

lemma application_match_file:
  assumes "pinned sn" "r \<in> set (sn_rules sn)" "application_rule_matches contains r c i"
  shows "rule_file r = Some (ident_executable_file i)"
proof -
  obtain sel where sel: "spec_application (rule_spec r) = Some sel" "application_selector_matches sel i"
    using assms(3) by (cases "spec_application (rule_spec r)") (auto simp: application_rule_matches_def)
  moreover have "spec_enabled (rule_spec r)"
    using assms(3) by (simp add: application_rule_matches_def application_rule_network_and_uid_matches_def
        outbound_network_selectors_match_def)
  ultimately obtain f where pin: "sel_executable_file sel = Some f"
    using assms(1,2) by (auto simp: pinned_def rule_file_def)
  have "is_none_or (sel_executable_file sel) (\<lambda>expected. expected = ident_executable_file i)"
    using sel(2) by (simp only: application_selector_matches_def)
  then show ?thesis using sel(1) pin by (simp add: rule_file_def)
qed

lemma fast_match_file:
  "fast_learned_accept_rule_matches contains r c i \<Longrightarrow> rule_file r = Some (ident_executable_file i)"
  by (auto simp: fast_learned_accept_rule_matches_def rule_file_def is_some_and_def split: option.splits)

lemma network_match: "outbound_network_rule_matches contains r c \<Longrightarrow> network_accept r"
  by (simp add: outbound_network_rule_matches_def network_accept_def outbound_network_selectors_match_def)

lemma filter_candidates:
  assumes "\<And>r. r \<in> set rs \<Longrightarrow> P r \<Longrightarrow> Q r"
  shows "filter P (filter Q rs) = filter P rs"
  using assms by (induction rs) auto

definition scan_decision ::
    "net_contains \<Rightarrow> enforcement_strategy \<Rightarrow> snapshot \<Rightarrow> outbound_connection \<Rightarrow> application_identity
      \<Rightarrow> rule option" where
  "scan_decision contains st sn c i =
     or_else (matching_application_rule contains sn c i)
    (or_else (if st = Fast
              then min_by rule_id (filter (\<lambda>r. fast_learned_accept_rule_matches contains r c i) (sn_rules sn))
              else None)
       (min_by rule_id (filter (\<lambda>r. outbound_network_rule_matches contains r c) (sn_rules sn))))"

lemma matching_rule_scan:
  assumes "pinned sn"
  shows "matching_rule contains (with_enforcement_strategy st (decision_policy_new sn)) c i =
    scan_decision contains st sn c i"
proof -
  have "dp_strategy (with_enforcement_strategy st (decision_policy_new sn)) = st"
    by (simp add: with_enforcement_strategy_def)
  moreover have
    "filter (\<lambda>r. application_rule_matches contains r c i)
       (filter (\<lambda>r. rule_file r = Some (ident_executable_file i)) (sn_rules sn)) =
     filter (\<lambda>r. application_rule_matches contains r c i) (sn_rules sn)"
    "filter (\<lambda>r. fast_learned_accept_rule_matches contains r c i)
       (filter (\<lambda>r. rule_file r = Some (ident_executable_file i)) (sn_rules sn)) =
     filter (\<lambda>r. fast_learned_accept_rule_matches contains r c i) (sn_rules sn)"
    "filter (\<lambda>r. outbound_network_rule_matches contains r c) (filter network_accept (sn_rules sn)) =
     filter (\<lambda>r. outbound_network_rule_matches contains r c) (sn_rules sn)"
    using application_match_file [OF assms] fast_match_file network_match
    by (intro filter_candidates; blast)+
  ultimately show ?thesis
    unfolding matching_rule_def matching_network_accept_def candidates_new network_new scan_decision_def
      matching_application_rule_def by simp
qed

lemma state_inv_pinned: "state_inv s \<Longrightarrow> pinned (state_snapshot s)"
proof -
  assume inv: "state_inv s"
  have "rule_file r \<noteq> None"
    if "(k, r) \<in> set (st_rules s)" "spec_enabled (rule_spec r)" "spec_application (rule_spec r) \<noteq> None" for k r
  proof -
    have "entry_ok (k, r)" using inv that(1) by (auto simp: state_inv_def list_all_iff)
    then show ?thesis
      using that(2,3) by (auto simp: entry_ok_iff reject_unpinned_application_spec_def res_simps
          is_unpinned_application_template_def rule_file_def split: option.splits)
  qed
  then show ?thesis by (auto simp: pinned_def state_snapshot_def omap_values_def)
qed

section \<open>Requirements\<close>

lemma enforcement_requirements_found:
  "snd (enforcement_requirements contains st c rs req found) \<longleftrightarrow>
     found \<or> (\<exists>r\<in>set rs. application_rule_network_and_uid_matches contains r c)"
proof (induction rs arbitrary: req found)
  case (Cons r rs)
  have "spec_application (rule_spec r) \<noteq> None" if "application_rule_network_and_uid_matches contains r c"
    using that by (auto simp: application_rule_network_and_uid_matches_def is_some_and_def split: option.splits)
  then show ?case by (auto simp: Cons.IH Let_def split: option.split)
qed simp

text \<open>The captured fields cover every rule whose envelope matches, apart from the learned accept
  rules that the fast strategy matches without them.\<close>

definition covers :: "capture_requirements \<Rightarrow> application_selector \<Rightarrow> bool" where
  "covers req selector \<longleftrightarrow> (sel_command_line selector \<noteq> None \<longrightarrow> cr_command_line req)
     \<and> (sel_cgroup selector \<noteq> None \<longrightarrow> cr_cgroups req)"

lemma enforcement_requirements_grow:
  "(cr_command_line req \<longrightarrow> cr_command_line (fst (enforcement_requirements contains st c rs req found)))
   \<and> (cr_cgroups req \<longrightarrow> cr_cgroups (fst (enforcement_requirements contains st c rs req found)))"
  by (induction rs arbitrary: req found) (auto simp: Let_def require_selector_def split: option.split)

definition relaxed :: "enforcement_strategy \<Rightarrow> rule \<Rightarrow> bool" where
  "relaxed st r \<longleftrightarrow> st = Fast \<and> spec_origin (rule_spec r) = Learned \<and> spec_action (rule_spec r) = Accept"

lemma enforcement_requirements_cover:
  assumes "r \<in> set rs" "application_rule_network_and_uid_matches contains r c"
    and "spec_application (rule_spec r) = Some selector" "\<not> relaxed st r"
  shows "covers (fst (enforcement_requirements contains st c rs req found)) selector"
  using assms
proof (induction rs arbitrary: req found)
  case (Cons r' rs)
  show ?case
  proof (cases "r' = r")
    case True
    then show ?thesis
      using Cons.prems enforcement_requirements_grow [where req = "require_selector selector req"]
      by (auto simp: Let_def covers_def relaxed_def require_selector_def)
  next
    case False
    then show ?thesis using Cons by (auto simp: Let_def split: option.split)
  qed
qed simp

text \<open>Identities that the captured fields cannot tell apart.\<close>

definition alike :: "capture_requirements \<Rightarrow> application_identity \<Rightarrow> application_identity \<Rightarrow> bool" where
  "alike req i j \<longleftrightarrow> ident_executable i = ident_executable j
     \<and> ident_executable_file i = ident_executable_file j \<and> ident_uid i = ident_uid j
     \<and> (cr_command_line req \<longrightarrow> ident_command_line i = ident_command_line j)
     \<and> (cr_cgroups req \<longrightarrow> ident_cgroups i = ident_cgroups j)"

lemma covered_match:
  "covers req selector \<Longrightarrow> alike req i j \<Longrightarrow>
    application_selector_matches selector i = application_selector_matches selector j"
  by (auto simp: covers_def alike_def application_selector_matches_def is_none_or_def split: option.splits)

lemma fast_match_alike:
  "alike req i j \<Longrightarrow> fast_learned_accept_rule_matches contains r c i = fast_learned_accept_rule_matches contains r c j"
  by (simp add: alike_def fast_learned_accept_rule_matches_def)

section \<open>The policy a decision implements\<close>

abbreviation action_of :: "rule \<Rightarrow> rule_action" where
  "action_of r \<equiv> spec_action (rule_spec r)"

text \<open>A matching Drop rule of the application drops, otherwise a matching Reject rule rejects,
  otherwise any matching accept, of the application, of a learned endpoint of the same
  executable under the fast strategy, or of the network, accepts; otherwise nothing is decided.\<close>

definition accepted_by ::
    "net_contains \<Rightarrow> enforcement_strategy \<Rightarrow> outbound_connection \<Rightarrow> application_identity \<Rightarrow> rule \<Rightarrow> bool" where
  "accepted_by contains st c i r \<longleftrightarrow> application_rule_matches contains r c i
     \<or> st = Fast \<and> fast_learned_accept_rule_matches contains r c i
     \<or> outbound_network_rule_matches contains r c"

definition policy_action ::
    "net_contains \<Rightarrow> enforcement_strategy \<Rightarrow> rule set \<Rightarrow> outbound_connection \<Rightarrow> application_identity
      \<Rightarrow> rule_action option" where
  "policy_action contains st rules c i =
     (if \<exists>r\<in>rules. application_rule_matches contains r c i \<and> action_of r = Drop then Some Drop
      else if \<exists>r\<in>rules. application_rule_matches contains r c i \<and> action_of r = Reject then Some Reject
      else if \<exists>r\<in>rules. accepted_by contains st c i r then Some Accept
      else None)"

lemma key_le_action:
  "decision_key r \<le> decision_key r' \<Longrightarrow>
    rule_action_priority (action_of r) \<le> rule_action_priority (action_of r')"
  by (auto simp: decision_key_def less_eq_prod_def)

lemma min_action:
  assumes "min_by decision_key xs = Some r"
  shows "action_of r = (if \<exists>x\<in>set xs. action_of x = Drop then Drop
    else if \<exists>x\<in>set xs. action_of x = Reject then Reject else Accept)"
proof -
  have "r \<in> set xs" and least: "\<And>x. x \<in> set xs \<Longrightarrow>
      rule_action_priority (action_of r) \<le> rule_action_priority (action_of x)"
    using min_by_Some [OF assms] key_le_action by auto
  have "action_of r = Drop" if "x \<in> set xs" "action_of x = Drop" for x
    using least [OF that(1)] that(2) by (cases "action_of r") auto
  moreover have "action_of r \<noteq> Accept" if "x \<in> set xs" "action_of x = Reject" for x
    using least [OF that(1)] that(2) by (cases "action_of r") (auto simp: word_le_nat_alt)
  ultimately show ?thesis
    using \<open>r \<in> set xs\<close> by (cases "action_of r") auto
qed

lemma min_accept:
  assumes "\<And>r. r \<in> set xs \<Longrightarrow> action_of r = Accept"
  shows "map_option action_of (min_by key xs) = (if xs = [] then None else Some Accept)"
  using assms min_by_Some [of key xs] by (cases "min_by key xs") auto

lemma accepting_rules:
  "fast_learned_accept_rule_matches contains r c i \<Longrightarrow> action_of r = Accept"
  "outbound_network_rule_matches contains r c \<Longrightarrow> action_of r = Accept"
  by (simp_all add: fast_learned_accept_rule_matches_def outbound_network_rule_matches_def)

lemma scan_decision_action:
  "map_option action_of (scan_decision contains st sn c i) = policy_action contains st (set (sn_rules sn)) c i"
proof (cases "matching_application_rule contains sn c i")
  case None
  then have none: "\<not> application_rule_matches contains r c i" if "r \<in> set (sn_rules sn)" for r
    using that by (auto simp: matching_application_rule_def filter_empty_conv)
  let ?F = "filter (\<lambda>r. fast_learned_accept_rule_matches contains r c i) (sn_rules sn)"
  let ?N = "filter (\<lambda>r. outbound_network_rule_matches contains r c) (sn_rules sn)"
  have "map_option action_of (min_by rule_id ?F) = (if ?F = [] then None else Some Accept)"
    "map_option action_of (min_by rule_id ?N) = (if ?N = [] then None else Some Accept)"
    by (rule min_accept; use accepting_rules in auto)+
  then show ?thesis
    using None none unfolding scan_decision_def policy_action_def accepted_by_def
    by (cases "min_by rule_id ?F"; cases "min_by rule_id ?N"; cases st) (auto simp: filter_empty_conv)
next
  case (Some r)
  then show ?thesis
    using min_action [OF Some [unfolded matching_application_rule_def]] min_by_Some [OF Some [unfolded matching_application_rule_def]]
    by (auto simp: scan_decision_def policy_action_def accepted_by_def)
qed

text \<open>The learned accept rules the fast strategy relies on name executable, file and user.\<close>

definition fast_complete :: "rule \<Rightarrow> bool" where
  "fast_complete r \<longleftrightarrow> is_some_and (spec_application (rule_spec r)) (\<lambda>selector.
     sel_executable selector \<noteq> None \<and> sel_executable_file selector \<noteq> None \<and> sel_uid selector \<noteq> None)"

lemma relaxed_match_is_fast:
  assumes "relaxed st r" "fast_complete r" "application_rule_matches contains r c i"
  shows "st = Fast \<and> fast_learned_accept_rule_matches contains r c i"
proof -
  obtain sel e f u where sel: "spec_application (rule_spec r) = Some sel" "sel_executable sel = Some e"
      "sel_executable_file sel = Some f" "sel_uid sel = Some u"
    using assms(2) by (cases "spec_application (rule_spec r)") (auto simp: fast_complete_def)
  then have "application_selector_matches sel i"
    using assms(3) by (simp add: application_rule_matches_def)
  then have "\<not> sel_metadata_redacted sel \<and> e = ident_executable i \<and> f = ident_executable_file i
      \<and> u = ident_uid i"
    unfolding application_selector_matches_def sel by simp
  then show ?thesis
    using assms(1,3) sel
    by (simp add: relaxed_def application_rule_matches_def fast_learned_accept_rule_matches_def)
qed

lemma strict_match_alike:
  assumes "r \<in> set rs" "\<not> relaxed st r"
    and "alike (fst (enforcement_requirements contains st c rs requirements_minimal False)) i j"
  shows "application_rule_matches contains r c i = application_rule_matches contains r c j"
proof (cases "spec_application (rule_spec r)")
  case None
  then show ?thesis by (simp add: application_rule_matches_def)
next
  case (Some sel)
  then show ?thesis
    using enforcement_requirements_cover [OF assms(1) _ Some assms(2)] covered_match [OF _ assms(3)]
    by (auto simp: application_rule_matches_def)
qed

lemma policy_action_alike:
  assumes alike: "alike (fst (enforcement_requirements contains st c rs requirements_minimal False)) i j"
    and fast: "\<And>r. r \<in> set rs \<Longrightarrow> relaxed st r \<Longrightarrow> spec_application (rule_spec r) \<noteq> None \<Longrightarrow> fast_complete r"
  shows "policy_action contains st (set rs) c i = policy_action contains st (set rs) c j"
proof -
  have app: "spec_application (rule_spec r) \<noteq> None" if "application_rule_matches contains r c x" for r x
    using that by (cases "spec_application (rule_spec r)") (auto simp: application_rule_matches_def)
  have deny: "(\<exists>r\<in>set rs. application_rule_matches contains r c i \<and> action_of r = a) =
      (\<exists>r\<in>set rs. application_rule_matches contains r c j \<and> action_of r = a)" if "a \<noteq> Accept" for a
    using strict_match_alike [OF _ _ alike] that unfolding relaxed_def by blast
  have each: "accepted_by contains st c i r = accepted_by contains st c j r" if "r \<in> set rs" for r
  proof (cases "relaxed st r")
    case True
    have "accepted_by contains st c x r \<longleftrightarrow> st = Fast \<and> fast_learned_accept_rule_matches contains r c x
        \<or> outbound_network_rule_matches contains r c" for x
      using relaxed_match_is_fast [OF True] fast [OF that True] app unfolding accepted_by_def by blast
    then show ?thesis using fast_match_alike [OF alike] by simp
  next
    case False
    then show ?thesis
      using strict_match_alike [OF that _ alike] fast_match_alike [OF alike] by (simp add: accepted_by_def)
  qed
  have "(\<exists>r\<in>set rs. accepted_by contains st c i r) = (\<exists>r\<in>set rs. accepted_by contains st c j r)"
    using each by blast
  then show ?thesis
    unfolding policy_action_def deny [of Drop, simplified] deny [of Reject, simplified] by simp
qed

section \<open>The deny prefilter\<close>

lemma deny_requirements_found:
  "snd (deny_requirements contains c rs req found) \<longleftrightarrow>
     found \<or> (\<exists>r\<in>set rs. action_of r \<noteq> Accept \<and> application_rule_network_and_uid_matches contains r c)"
proof (induction rs arbitrary: req found)
  case (Cons r rs)
  have "spec_application (rule_spec r) \<noteq> None" if "application_rule_network_and_uid_matches contains r c"
    using that by (auto simp: application_rule_network_and_uid_matches_def is_some_and_def split: option.splits)
  moreover have "\<not> (action_of r = Drop \<or> action_of r = Reject) \<longleftrightarrow> action_of r = Accept"
    by (cases "action_of r") simp_all
  ultimately show ?case by (auto simp: Cons.IH split: option.split)
qed simp

lemma deny_requirements_grow:
  "(cr_command_line req \<longrightarrow> cr_command_line (fst (deny_requirements contains c rs req found)))
   \<and> (cr_cgroups req \<longrightarrow> cr_cgroups (fst (deny_requirements contains c rs req found)))"
  by (induction rs arbitrary: req found) (auto simp: require_selector_def split: option.split)

lemma deny_requirements_cover:
  assumes "r \<in> set rs" "application_rule_network_and_uid_matches contains r c"
    and "spec_application (rule_spec r) = Some selector" "action_of r \<noteq> Accept"
  shows "covers (fst (deny_requirements contains c rs req found)) selector"
  using assms
proof (induction rs arbitrary: req found)
  case (Cons r' rs)
  show ?case
  proof (cases "r' = r")
    case True
    moreover have "action_of r = Drop \<or> action_of r = Reject"
      using Cons.prems(4) by (cases "action_of r") simp_all
    ultimately show ?thesis
      using Cons.prems deny_requirements_grow [where req = "require_selector selector req"]
      by (auto simp: covers_def require_selector_def)
  next
    case False
    then show ?thesis using Cons by (auto split: option.split)
  qed
qed simp

lemma deny_match_alike:
  assumes "r \<in> set rs" "action_of r \<noteq> Accept"
    and "alike (fst (deny_requirements contains c rs requirements_minimal False)) i j"
  shows "application_rule_matches contains r c i = application_rule_matches contains r c j"
proof (cases "spec_application (rule_spec r)")
  case None
  then show ?thesis by (simp add: application_rule_matches_def)
next
  case (Some sel)
  then show ?thesis
    using deny_requirements_cover [OF assms(1) _ Some assms(2)] covered_match [OF _ assms(3)]
    by (auto simp: application_rule_matches_def)
qed

lemma matching_deny_rule_scan:
  assumes "pinned sn"
  shows "matching_deny_rule contains (with_enforcement_strategy st (decision_policy_new sn)) c i =
    min_by decision_key (filter (\<lambda>r. application_rule_matches contains r c i \<and> action_of r \<noteq> Accept) (sn_rules sn))"
proof -
  have "filter (\<lambda>r. application_rule_matches contains r c i)
      (filter (\<lambda>r. action_of r = Drop \<or> action_of r = Reject)
        (filter (\<lambda>r. rule_file r = Some (ident_executable_file i)) (sn_rules sn))) =
    filter (\<lambda>r. application_rule_matches contains r c i \<and> action_of r \<noteq> Accept) (sn_rules sn)"
    unfolding filter_filter
  proof (rule filter_cong)
    fix r assume "r \<in> set (sn_rules sn)"
    then show "((rule_file r = Some (ident_executable_file i) \<and> (action_of r = Drop \<or> action_of r = Reject))
        \<and> application_rule_matches contains r c i) =
      (application_rule_matches contains r c i \<and> action_of r \<noteq> Accept)"
      using application_match_file [OF assms] by (cases "action_of r") auto
  qed simp
  then show ?thesis unfolding matching_deny_rule_def candidates_new by simp
qed

text \<open>The least rule of a list is its least deny rule, when the list has one, because every deny
  action precedes every accept.\<close>

lemma min_by_filter_deny:
  assumes "inj_on decision_key (set xs)"
  shows "min_by decision_key (filter (\<lambda>r. action_of r \<noteq> Accept) xs) =
    Option.bind (min_by decision_key xs) (\<lambda>r. if action_of r \<noteq> Accept then Some r else None)"
proof (cases "min_by decision_key xs")
  case None
  then show ?thesis by simp
next
  case (Some r)
  note least = min_by_Some [OF Some]
  show ?thesis
  proof (cases "action_of r = Accept")
    case True
    then have "action_of x = Accept" if "x \<in> set xs" for x
      using min_action [OF Some] that by (cases "action_of x") (auto split: if_splits)
    then show ?thesis using Some True by (simp add: filter_empty_conv)
  next
    case False
    then have "r \<in> set (filter (\<lambda>r. action_of r \<noteq> Accept) xs)" using least by simp
    then obtain r' where r': "min_by decision_key (filter (\<lambda>r. action_of r \<noteq> Accept) xs) = Some r'"
      by (cases "min_by decision_key (filter (\<lambda>r. action_of r \<noteq> Accept) xs)")
        (auto simp: filter_empty_conv)
    have "r' \<in> set xs" "decision_key r' \<le> decision_key r"
      using min_by_Some [OF r'] least False by auto
    then have "r' = r" using least assms by (metis inj_onD order_antisym)
    then show ?thesis using Some False r' by simp
  qed
qed

lemma state_inv_decision_keys:
  assumes "state_inv s"
  shows "inj_on decision_key (set (sn_rules (state_snapshot s)))"
proof (rule inj_onI)
  fix r r' assume rules: "r \<in> set (sn_rules (state_snapshot s))" "r' \<in> set (sn_rules (state_snapshot s))"
    and key: "decision_key r = decision_key r'"
  have "(rule_id x, x) \<in> set (st_rules s)" if "x \<in> set (sn_rules (state_snapshot s))" for x
    using that assms by (auto simp: state_snapshot_def omap_values_def state_inv_def list_all_iff entry_ok_iff)
  then have "(rule_id r, r) \<in> set (st_rules s)" "(rule_id r, r') \<in> set (st_rules s)"
    using rules key by (force simp: decision_key_def)+
  moreover have "distinct (map fst (st_rules s))"
    using state_inv_wf [OF assms] by (simp add: omap_wf_def strict_sorted_iff)
  ultimately show "r = r'" by (simp add: eq_key_imp_eq_value)
qed

abbreviation state_policy :: "enforcement_strategy \<Rightarrow> state \<Rightarrow> decision_policy" where
  "state_policy st s \<equiv> with_enforcement_strategy st (decision_policy_new (state_snapshot s))"

abbreviation policy_rules :: "state \<Rightarrow> rule list" where
  "policy_rules s \<equiv> omap_values (st_rules s)"

lemma snapshot_rules [simp]: "sn_rules (state_snapshot s) = policy_rules s"
  by (simp add: state_snapshot_def)

lemma state_policy_fields [simp]:
  "dp_strategy (state_policy st s) = st" "dp_snapshot (state_policy st s) = state_snapshot s"
  by (simp_all add: with_enforcement_strategy_def decision_policy_new_def case_prod_beta)

section \<open>A sample policy\<close>

definition sample_contains :: net_contains where
  "sample_contains n a = (case (n, a) of (NetV4 x _, IpV4 y) \<Rightarrow> x = y | _ \<Rightarrow> False)"

definition sample_connection :: outbound_connection where
  "sample_connection = \<lparr>oc_source_address = IpV4 1, oc_source_port = Some 40000,
     oc_destination_address = IpV4 0xC000020A, oc_destination_port = Some 443, oc_protocol = Tcp,
     oc_output_interface = InterfaceName (ascii ''eth0''), oc_socket_uid = 1000\<rparr>"

definition sample_drop_rule :: rule where
  "sample_drop_rule = sample_application_rule\<lparr>rule_id := 6,
     rule_spec := (rule_spec sample_application_rule)\<lparr>spec_action := Drop\<rparr>\<rparr>"

definition sample_application_state :: state where
  "sample_application_state = sample_state\<lparr>st_rules := [(5, sample_application_rule), (6, sample_drop_rule)]\<rparr>"

lemma sample_application_state_inv: "state_inv sample_application_state"
  by (simp add: state_inv_def sample_application_state_def sample_drop_rule_def sample_application_rule_def
      sample_defs sample_application_def sample_file_def entry_ok_iff rule_validate_def rule_spec_validate_def
      reject_redacted_spec_def reject_unpinned_application_spec_def application_selector_validate_def
      executable_file_id_validate_def omap_wf_def MAX_RULES_def flow_generation_in_domain_def
      MAX_FLOW_GENERATION_def initial_flow_generation_def)

lemma sample_rules_match:
  "application_rule_matches sample_contains sample_application_rule sample_connection sample_identity"
  "application_rule_matches sample_contains sample_drop_rule sample_connection sample_identity"
  by (simp_all add: application_rule_matches_def application_rule_network_and_uid_matches_def
      outbound_network_selectors_match_def application_selector_matches_def sample_drop_rule_def
      sample_application_rule_def sample_defs sample_application_def sample_connection_def sample_contains_def
      sample_identity_def)

lemma sample_policy_rules [simp]:
  "policy_rules sample_application_state = [sample_application_rule, sample_drop_rule]"
  by (simp add: sample_application_state_def omap_values_def)

lemma sample_actions [simp]: "action_of sample_drop_rule = Drop" "action_of sample_application_rule = Accept"
  by (simp_all add: sample_drop_rule_def sample_application_rule_def sample_defs)

text \<open>The selectors of the sample name no command line and no control group, so nothing beyond the
  executable and the user is captured.\<close>

definition sample_relative :: application_identity where
  "sample_relative = sample_identity\<lparr>ident_command_line := [], ident_cgroups := []\<rparr>"

lemma sample_requirements:
  "enforcement_capture_requirements sample_contains (state_policy Strict sample_application_state) sample_connection
     = Some requirements_minimal"
  "deny_capture_requirements sample_contains (state_policy Strict sample_application_state) sample_connection
     = Some requirements_minimal"
proof -
  have "application_rule_network_and_uid_matches sample_contains r sample_connection"
    if "r \<in> {sample_application_rule, sample_drop_rule}" for r
    using that sample_rules_match by (auto simp: application_rule_matches_def)
  moreover have "spec_application (rule_spec sample_application_rule) = Some sample_application"
    "spec_application (rule_spec sample_drop_rule) = Some sample_application"
    by (simp_all add: sample_application_rule_def sample_drop_rule_def)
  ultimately show
    "enforcement_capture_requirements sample_contains (state_policy Strict sample_application_state) sample_connection
       = Some requirements_minimal"
    "deny_capture_requirements sample_contains (state_policy Strict sample_application_state) sample_connection
       = Some requirements_minimal"
    by (simp_all add: enforcement_capture_requirements_def deny_capture_requirements_def require_selector_def
        requirements_minimal_def sample_application_def)
qed

lemma sample_alike: "alike requirements_minimal sample_identity sample_relative"
  by (simp add: alike_def requirements_minimal_def sample_relative_def)

section \<open>Properties\<close>

text \<open>C14: The decision that is looked up through the executable index implements the declared policy
  of a valid state: a matching Drop rule of the application drops, else a matching Reject rule
  rejects, else a matching application, fast learned or network rule accepts, else nothing is
  decided. The rule that is returned is a rule of the state that itself matches the connection.\<close>

theorem decision_meaning:
  assumes "state_inv s"
  shows "map_option action_of (matching_rule contains (state_policy st s) c i) =
      policy_action contains st (set (policy_rules s)) c i
    \<and> (\<forall>r. matching_rule contains (state_policy st s) c i = Some r
        \<longrightarrow> r \<in> set (policy_rules s) \<and> accepted_by contains st c i r)"
proof
  have scan: "matching_rule contains (state_policy st s) c i = scan_decision contains st (state_snapshot s) c i"
    by (rule matching_rule_scan [OF state_inv_pinned [OF assms]])
  show "map_option action_of (matching_rule contains (state_policy st s) c i) =
      policy_action contains st (set (policy_rules s)) c i"
    using scan_decision_action [of contains st "state_snapshot s" c i] by (simp add: scan)
  show "\<forall>r. matching_rule contains (state_policy st s) c i = Some r
      \<longrightarrow> r \<in> set (policy_rules s) \<and> accepted_by contains st c i r"
    unfolding scan scan_decision_def matching_application_rule_def or_else_def accepted_by_def
    by (auto dest!: min_by_Some split: option.splits if_splits)
qed

theorem decision_meaning_witness:
  "map_option action_of (matching_rule sample_contains (state_policy Strict sample_application_state)
     sample_connection sample_identity) = Some Drop"
  using decision_meaning [OF sample_application_state_inv, of sample_contains Strict sample_connection sample_identity]
    sample_rules_match by (simp add: policy_action_def)



text \<open>C16: The deny decision that learning mode applies is the enforcing decision restricted to deny
  rules, rule for rule, so switching modes never changes which connections are denied; and the
  fields the deny prefilter asks for determine it.\<close>

theorem deny_decision_meaning:
  assumes "state_inv s"
  shows "matching_deny_rule contains (state_policy st s) c i =
      Option.bind (matching_rule contains (state_policy st s) c i)
        (\<lambda>r. if action_of r \<noteq> Accept then Some r else None)
    \<and> (case deny_capture_requirements contains (state_policy st s) c of
         None \<Rightarrow> matching_deny_rule contains (state_policy st s) c i = None
       | Some req \<Rightarrow> alike req i j \<longrightarrow>
           matching_deny_rule contains (state_policy st s) c i = matching_deny_rule contains (state_policy st s) c j)"
  (is "?same \<and> ?fields")
proof
  note pin = state_inv_pinned [OF assms]
  let ?m = "\<lambda>i. filter (\<lambda>r. application_rule_matches contains r c i) (policy_rules s)"
  let ?d = "deny_requirements contains c (policy_rules s) requirements_minimal False"
  have deny: "matching_deny_rule contains (state_policy st s) c x =
      min_by decision_key (filter (\<lambda>r. action_of r \<noteq> Accept) (?m x))" for x
    using matching_deny_rule_scan [OF pin, of contains st c x] by (simp add: conj_commute)
  have "inj_on decision_key (set (?m i))"
    using state_inv_decision_keys [OF assms] by (rule inj_on_subset) auto
  note bind = min_by_filter_deny [OF this]
  have "action_of r = Accept" if "matching_rule contains (state_policy st s) c i = Some r" "?m i = []" for r
    using that matching_rule_scan [OF pin, of contains st c i] accepting_rules
    by (auto simp: scan_decision_def matching_application_rule_def or_else_def
        dest!: min_by_Some split: option.splits if_splits)
  moreover have "matching_rule contains (state_policy st s) c i = min_by decision_key (?m i)" if "?m i \<noteq> []"
    using that matching_rule_scan [OF pin, of contains st c i]
    by (cases "min_by decision_key (?m i)") (simp_all add: scan_decision_def matching_application_rule_def)
  ultimately show ?same
    unfolding deny bind by (cases "?m i = []"; cases "matching_rule contains (state_policy st s) c i") auto
  have "matching_deny_rule contains (state_policy st s) c i = None" if "\<not> snd ?d"
    using that unfolding deny deny_requirements_found
    by (auto simp: filter_empty_conv application_rule_matches_def)
  moreover have "filter (\<lambda>r. action_of r \<noteq> Accept) (?m i) = filter (\<lambda>r. action_of r \<noteq> Accept) (?m j)"
    if "alike (fst ?d) i j"
    using deny_match_alike [OF _ _ that] by (auto intro: filter_cong)
  ultimately show ?fields
    by (simp add: deny_capture_requirements_def case_prod_beta deny)
qed

theorem deny_decision_meaning_witness:
  "matching_deny_rule sample_contains (state_policy Strict sample_application_state) sample_connection sample_identity
   = matching_deny_rule sample_contains (state_policy Strict sample_application_state) sample_connection sample_relative"
  using deny_decision_meaning [OF sample_application_state_inv, of sample_contains Strict sample_connection
      sample_identity sample_relative, unfolded sample_requirements(2) option.case] sample_alike
  by blast

end
