(* ===== verification/Protocol.thy ===== *)
theory Protocol
  imports Policy_State Netlink_Properties
begin

text \<open>
  The local IPC protocol of \<open>src/crates/openshield-protocol/src/lib.rs\<close>: requests and
  responses, the compatibility evidence of a status response with its consistency checks, the
  membership of outbound groups, error messages that are safe to print on a terminal, and the
  length-prefixed frames.

  The JSON text of a message is produced and read by \<open>serde_json\<close>: \<open>'a codec\<close> holds the byte
  strings that \<open>to_writer\<close> hands to its writer, with its own failure if any, and \<open>from_slice\<close>.
  \<open>IpNet::trunc\<close> of the \<open>ipnet\<close> crate is the parameter \<open>net_trunc\<close>. A writer is a pipe that
  accepts a number of bytes before it fails, a reader the list of bytes that still arrive.
\<close>

section \<open>Runtime compatibility\<close>

definition MAX_FRAME_SIZE :: nat where "MAX_FRAME_SIZE = 64 * 1024"
definition MAX_RULES_PER_PAGE :: u16 where "MAX_RULES_PER_PAGE = 128"
definition MAX_ERROR_MESSAGE_BYTES :: nat where "MAX_ERROR_MESSAGE_BYTES = 512"

datatype firewall_backend_kind = UnknownBackend | Nftables | Iptables

datatype compatibility_level = UnknownLevel | KernelNative | ConntrackHybrid | Nfqueue

datatype compatibility_reason =
    UnknownReason | ReasonBlockAll | EmergencyBlockAll | NetworkOnly | ReasonLearning
  | ApplicationTcp | ApplicationPerPacket

record runtime_compatibility =
  rc_level :: compatibility_level
  rc_reason :: compatibility_reason

definition for_policy ::
    "firewall_backend_kind \<Rightarrow> mode \<Rightarrow> application_interception \<Rightarrow> runtime_compatibility" where
  "for_policy backend m application_interception =
     (if backend = UnknownBackend
      then \<lparr>rc_level = UnknownLevel, rc_reason = UnknownReason\<rparr>
      else case m of
          BlockAll \<Rightarrow> \<lparr>rc_level = KernelNative, rc_reason = ReasonBlockAll\<rparr>
        | Learning \<Rightarrow> \<lparr>rc_level = Nfqueue, rc_reason = ReasonLearning\<rparr>
        | Enforcing \<Rightarrow>
            (case application_interception of
               InterceptNone \<Rightarrow> \<lparr>rc_level = KernelNative, rc_reason = NetworkOnly\<rparr>
             | TcpInitial \<Rightarrow> \<lparr>rc_level = ConntrackHybrid, rc_reason = ApplicationTcp\<rparr>
             | PerPacket \<Rightarrow> \<lparr>rc_level = Nfqueue, rc_reason = ApplicationPerPacket\<rparr>))"

definition is_consistent :: "runtime_compatibility \<Rightarrow> bool" where
  "is_consistent c \<longleftrightarrow> (rc_level c, rc_reason c) \<in>
     {(UnknownLevel, UnknownReason),
      (KernelNative, ReasonBlockAll), (KernelNative, EmergencyBlockAll), (KernelNative, NetworkOnly),
      (ConntrackHybrid, ApplicationTcp),
      (Nfqueue, ReasonLearning), (Nfqueue, ApplicationPerPacket)}"

definition is_consistent_with ::
    "runtime_compatibility \<Rightarrow> mode \<Rightarrow> firewall_backend_kind \<Rightarrow> bool" where
  "is_consistent_with c m backend \<longleftrightarrow>
     (if backend = UnknownBackend
      then rc_level c = UnknownLevel \<and> rc_reason c = UnknownReason
      else (m, rc_level c, rc_reason c) \<in>
        {(BlockAll, KernelNative, ReasonBlockAll), (BlockAll, KernelNative, EmergencyBlockAll),
         (Learning, Nfqueue, ReasonLearning),
         (Enforcing, KernelNative, NetworkOnly),
         (Enforcing, ConntrackHybrid, ApplicationTcp),
         (Enforcing, Nfqueue, ApplicationPerPacket)})"

text \<open>The two fields that \<open>serialize\<close> writes, and \<open>deserialize\<close> from the optional fields of the
  wire object.\<close>

definition compatibility_serialize ::
    "runtime_compatibility \<Rightarrow> string + compatibility_level option \<times> compatibility_reason option" where
  "compatibility_serialize c =
     bindE (fail_if (\<not> is_consistent c) ''runtime compatibility level and reason are inconsistent'')
    (\<lambda>_. Inr (Some (rc_level c), Some (rc_reason c)))"

definition compatibility_deserialize ::
    "compatibility_level option \<times> compatibility_reason option \<Rightarrow> string + runtime_compatibility" where
  "compatibility_deserialize wire =
     bindE (case wire of
              (None, None) \<Rightarrow> Inr \<lparr>rc_level = UnknownLevel, rc_reason = UnknownReason\<rparr>
            | (Some level, Some reason) \<Rightarrow> Inr \<lparr>rc_level = level, rc_reason = reason\<rparr>
            | _ \<Rightarrow> Inl ''runtime compatibility level and reason must both be present'')
    (\<lambda>compatibility. bindE (fail_if (\<not> is_consistent compatibility)
              ''runtime compatibility level and reason are inconsistent'')
    (\<lambda>_. Inr compatibility))"

section \<open>Status\<close>

record nfqueue_counters =
  nc_queue_overflow :: u64
  nc_attribution_timeout :: u64
  nc_terminal_queue_error :: u64
  nc_denied :: u64

record learning_status =
  ls_per_uid_limit :: u32
  ls_per_application_limit :: u32
  ls_automatic_rule_limit :: u32
  ls_total_rule_limit :: u32
  ls_automatic_rules :: u32
  ls_saturated_uids :: u32
  ls_saturated_applications :: u32
  ls_quota_skipped_observations :: u64

definition needs_attention :: "learning_status \<Rightarrow> u32 \<Rightarrow> bool" where
  "needs_attention l total_rules \<longleftrightarrow>
     ls_saturated_uids l \<noteq> 0 \<or> ls_saturated_applications l \<noteq> 0
     \<or> ls_automatic_rule_limit l \<le> ls_automatic_rules l \<or> ls_total_rule_limit l \<le> total_rules
     \<or> ls_quota_skipped_observations l \<noteq> 0"

section \<open>Requests\<close>

datatype outbound_group_selector =
    CgroupGroup cgroup_path "application_path option"
  | ExecutableGroup application_path
  | DestinationGroup "ip_net option"

datatype outbound_group_action =
  GroupDelete | GroupAccept | GroupReject | GroupDrop | GroupEnable | GroupDisable

definition group_matches :: "(ip_net \<Rightarrow> ip_net) \<Rightarrow> outbound_group_selector \<Rightarrow> rule \<Rightarrow> bool" where
  "group_matches net_trunc selector r =
     (if spec_direction (rule_spec r) \<noteq> Outbound then False
      else
        let application = (case spec_application (rule_spec r) of
              Some a \<Rightarrow> if \<not> sel_metadata_redacted a then Some a else None
            | None \<Rightarrow> None) in
        (case selector of
           CgroupGroup cgroup executable \<Rightarrow>
             is_some_and application (\<lambda>application.
               sel_cgroup application = Some cgroup
               \<and> is_none_or executable (\<lambda>executable. sel_executable application = Some executable))
         | ExecutableGroup executable \<Rightarrow>
             is_some_and application (\<lambda>application.
               sel_cgroup application = None \<and> sel_executable application = Some executable)
         | DestinationGroup peer_network \<Rightarrow>
             is_none_or application (\<lambda>application.
               sel_cgroup application = None \<and> sel_executable application = None)
             \<and> map_option net_trunc (spec_peer_network (rule_spec r))
                 = map_option net_trunc peer_network))"

datatype control_request =
    SetMode u64 mode
  | SetEnforcement u64 enforcement_strategy
  | CreateRule u64 rule_spec
  | UpdateRule u64 uuid rule_spec
  | DeleteRule u64 uuid
  | SetRuleEnabled u64 uuid bool
  | ManageOutboundGroup u64 outbound_group_selector outbound_group_action

fun expected_revision :: "control_request \<Rightarrow> u64" where
  "expected_revision (SetMode expected _) = expected"
| "expected_revision (SetEnforcement expected _) = expected"
| "expected_revision (CreateRule expected _) = expected"
| "expected_revision (UpdateRule expected _ _) = expected"
| "expected_revision (DeleteRule expected _) = expected"
| "expected_revision (SetRuleEnabled expected _ _) = expected"
| "expected_revision (ManageOutboundGroup expected _ _) = expected"

datatype read_request =
    ReadStatus | ReadStatusV2 | ReadStatusV3 | ReadStatusV4
  | ReadRulesPage "uuid option" u16
  | Subscribe "u64 option"

datatype request = ReadRequest read_request | ControlRequest control_request

section \<open>Errors\<close>

datatype error_code =
  InvalidRequest | Unauthorized | NotFound | Conflict | BackendUnavailable | Internal

record protocol_error =
  pe_code :: error_code
  pe_message :: ustring

definition unsafe_message_character :: "uchar \<Rightarrow> bool" where
  "unsafe_message_character c \<longleftrightarrow> char_is_control c \<or> is_format_character c"

text \<open>The loop of \<open>sanitize_error_message\<close>, with the text collected so far.\<close>

fun sanitize_loop :: "ustring \<Rightarrow> ustring \<Rightarrow> ustring" where
  "sanitize_loop sanitized [] = sanitized"
| "sanitize_loop sanitized (c # cs) =
     (if unsafe_message_character c then sanitize_loop sanitized cs
      else if MAX_ERROR_MESSAGE_BYTES < saturating_add_usize (str_len sanitized) (length (utf8_encode c))
      then sanitized
      else sanitize_loop (sanitized @ [c]) cs)"

definition sanitize_error_message :: "ustring \<Rightarrow> ustring" where
  "sanitize_error_message message =
     (let sanitized = sanitize_loop [] message in
      if sanitized = [] then ascii ''unspecified error'' else sanitized)"

definition protocol_error_new :: "error_code \<Rightarrow> ustring \<Rightarrow> protocol_error" where
  "protocol_error_new code message =
     \<lparr>pe_code = code, pe_message = sanitize_error_message message\<rparr>"

definition protocol_error_deserialize :: "error_code \<Rightarrow> ustring \<Rightarrow> string + protocol_error" where
  "protocol_error_deserialize code message =
     bindE (fail_if (sanitize_error_message message \<noteq> message)
              ''protocol error message is empty, oversized, or unsafe for a terminal'')
    (\<lambda>_. Inr \<lparr>pe_code = code, pe_message = message\<rparr>)"

section \<open>Responses\<close>

record ack =
  ack_revision :: u64
  ack_affected_rule :: "rule option"

definition ack_new :: "u64 \<Rightarrow> rule option \<Rightarrow> ack" where
  "ack_new revision affected_rule = \<lparr>ack_revision = revision, ack_affected_rule = affected_rule\<rparr>"

datatype response =
    Status u64 mode u32 firewall_backend_kind nfqueue_counters
  | StatusV2 u64 mode u32 firewall_backend_kind nfqueue_counters runtime_compatibility
  | StatusV3 u64 mode u32 firewall_backend_kind nfqueue_counters runtime_compatibility
      learning_status
  | StatusV4 u64 mode u32 firewall_backend_kind nfqueue_counters runtime_compatibility
      learning_status enforcement_strategy
  | RulesPage u64 "rule list" "uuid option"
  | AckResponse ack
  | EventResponse event
  | ErrorResponse protocol_error

definition clamp_page_limit :: "u16 \<Rightarrow> u16" where
  "clamp_page_limit limit = max 1 (min limit MAX_RULES_PER_PAGE)"

section \<open>Frames\<close>

datatype io_error = WriteZero | UnexpectedEof

datatype frame_error =
    EmptyFrame
  | FrameTooLarge nat nat
  | FrameIo io_error
  | FrameEncode ustring
  | FrameDecode ustring

record bounded_buffer =
  bb_bytes :: "u8 list"
  bb_maximum :: nat
  bb_overflow_size :: "nat option"

definition bounded_buffer_new :: "nat \<Rightarrow> bounded_buffer" where
  "bounded_buffer_new maximum = \<lparr>bb_bytes = [], bb_maximum = maximum, bb_overflow_size = None\<rparr>"

text \<open>\<open>impl Write for BoundedBuffer\<close>: the flag says whether the write succeeded.\<close>

definition bounded_buffer_write :: "u8 list \<Rightarrow> bounded_buffer \<Rightarrow> bool \<times> bounded_buffer" where
  "bounded_buffer_write bytes b =
     (let attempted = saturating_add_usize (length (bb_bytes b)) (length bytes) in
      if bb_maximum b < attempted then (False, b\<lparr>bb_overflow_size := Some attempted\<rparr>)
      else (True, b\<lparr>bb_bytes := bb_bytes b @ bytes\<rparr>))"

record 'a codec =
  codec_writes :: "'a \<Rightarrow> u8 list list \<times> ustring option"
  codec_read :: "u8 list \<Rightarrow> ustring + 'a"

fun bounded_writes :: "u8 list list \<Rightarrow> bounded_buffer \<Rightarrow> bool \<times> bounded_buffer" where
  "bounded_writes [] b = (True, b)"
| "bounded_writes (bytes # rest) b =
     (case bounded_buffer_write bytes b of
        (True, b') \<Rightarrow> bounded_writes rest b'
      | (False, b') \<Rightarrow> (False, b'))"

text \<open>The payload of a frame: \<open>serde_json::to_writer\<close> into the bounded buffer stops at the first
  failing write and otherwise returns the serialiser's own outcome.\<close>

definition frame_payload :: "'a codec \<Rightarrow> 'a \<Rightarrow> frame_error + u8 list" where
  "frame_payload codec message =
     (let (writes, failure) = codec_writes codec message;
          (written, bounded) = bounded_writes writes (bounded_buffer_new MAX_FRAME_SIZE)
      in if \<not> written \<or> failure \<noteq> None
         then (case bb_overflow_size bounded of
                 Some actual \<Rightarrow> Inl (FrameTooLarge actual MAX_FRAME_SIZE)
               | None \<Rightarrow> Inl (FrameEncode (case failure of None \<Rightarrow> [] | Some e \<Rightarrow> e)))
         else Inr (bb_bytes bounded))"

record pipe =
  pipe_bytes :: "u8 list"
  pipe_room :: nat

definition pipe_write_all :: "u8 list \<Rightarrow> pipe \<Rightarrow> (io_error + unit) \<times> pipe" where
  "pipe_write_all bytes p =
     (if length bytes \<le> pipe_room p
      then (Inr (), p\<lparr>pipe_bytes := pipe_bytes p @ bytes, pipe_room := pipe_room p - length bytes\<rparr>)
      else (Inl WriteZero,
            p\<lparr>pipe_bytes := pipe_bytes p @ take (pipe_room p) bytes, pipe_room := 0\<rparr>))"

definition read_exact :: "nat \<Rightarrow> u8 list \<Rightarrow> (io_error + u8 list) \<times> u8 list" where
  "read_exact n input =
     (if n \<le> length input then (Inr (take n input), drop n input) else (Inl UnexpectedEof, []))"

text \<open>Lifts an I/O step into the frame functions, where \<open>?\<close> converts its error.\<close>

definition io_step :: "(io_error + 'a) \<times> 's \<Rightarrow> (frame_error + 'a) \<times> 's" where
  "io_step m = (map_err FrameIo (fst m), snd m)"

definition write_frame :: "'a codec \<Rightarrow> 'a \<Rightarrow> pipe \<Rightarrow> (frame_error + unit) \<times> pipe" where
  "write_frame codec message writer =
     tryS (frame_payload codec message) writer (\<lambda>payload.
     tryS (fail_if (payload = []) EmptyFrame) writer (\<lambda>_.
     tryS (fail_if (MAX_FRAME_SIZE < length payload) (FrameTooLarge (length payload) MAX_FRAME_SIZE)) writer (\<lambda>_.
     tryS (fail_if (2 ^ 32 \<le> length payload) (FrameTooLarge (length payload) MAX_FRAME_SIZE)) writer (\<lambda>_.
     thenS (io_step (pipe_write_all (be_bytes 4 (length payload)) writer)) (\<lambda>_ writer.
     thenS (io_step (pipe_write_all payload writer)) (\<lambda>_ writer. (Inr (), writer)))))))"

definition read_frame :: "'a codec \<Rightarrow> u8 list \<Rightarrow> (frame_error + 'a) \<times> u8 list" where
  "read_frame codec reader =
     thenS (io_step (read_exact 4 reader)) (\<lambda>header reader.
     let size = be_value header in
     tryS (fail_if (size = 0) EmptyFrame) reader (\<lambda>_.
     tryS (fail_if (MAX_FRAME_SIZE < size) (FrameTooLarge size MAX_FRAME_SIZE)) reader (\<lambda>_.
     thenS (io_step (read_exact size reader)) (\<lambda>payload reader.
     (map_err FrameDecode (codec_read codec payload), reader)))))"

section \<open>What the checks guarantee\<close>

lemma for_policy_consistent:
  "is_consistent_with (for_policy backend m i) m backend \<and> is_consistent (for_policy backend m i)"
  by (auto simp: is_consistent_with_def is_consistent_def for_policy_def
      split: mode.split application_interception.split)

lemma consistent_with_consistent: "is_consistent_with c m backend \<Longrightarrow> is_consistent c"
  by (auto simp: is_consistent_with_def is_consistent_def split: if_splits)

lemma compatibility_round_trip:
  "is_consistent c \<longleftrightarrow> bindE (compatibility_serialize c) compatibility_deserialize = Inr c"
  by (auto simp: compatibility_serialize_def compatibility_deserialize_def res_simps)

lemma compatibility_deserialize_consistent:
  "compatibility_deserialize wire = Inr c \<Longrightarrow> is_consistent c"
  by (auto simp: compatibility_deserialize_def res_simps)

end
