(* ===== verification/Protocol_Properties.thy ===== *)
theory Protocol_Properties
  imports Protocol
begin

text \<open>
  Frames survive the pipe in order, whatever is queued behind them, and refused messages leave
  the pipe untouched; error messages are bounded, printable and accepted by the peer.
\<close>

section \<open>Error messages\<close>

definition message_safe :: "ustring \<Rightarrow> bool" where
  "message_safe s \<longleftrightarrow> list_all (\<lambda>c. \<not> unsafe_message_character c) s \<and> str_len s \<le> MAX_ERROR_MESSAGE_BYTES"

lemma str_len_append [simp]: "str_len (xs @ ys) = str_len xs + str_len ys"
  by (induction xs) simp_all

lemma sanitize_loop_safe: "message_safe acc \<Longrightarrow> message_safe (sanitize_loop acc cs)"
proof (induction cs arbitrary: acc)
  case (Cons c cs)
  have "message_safe (acc @ [c])"
    if "\<not> unsafe_message_character c"
      "\<not> MAX_ERROR_MESSAGE_BYTES < saturating_add_usize (str_len acc) (length (utf8_encode c))"
    using that Cons.prems
    by (simp add: message_safe_def saturating_add_usize_le_iff MAX_ERROR_MESSAGE_BYTES_def not_less)
  then show ?case using Cons by simp
qed simp

lemma sanitize_loop_id: "message_safe (acc @ cs) \<Longrightarrow> sanitize_loop acc cs = acc @ cs"
proof (induction cs arbitrary: acc)
  case (Cons c cs)
  have "str_len acc + length (utf8_encode c) \<le> MAX_ERROR_MESSAGE_BYTES" "\<not> unsafe_message_character c"
    using Cons.prems by (auto simp: message_safe_def)
  then have "\<not> MAX_ERROR_MESSAGE_BYTES < saturating_add_usize (str_len acc) (length (utf8_encode c))"
    by (auto simp: saturating_add_usize_def MAX_ERROR_MESSAGE_BYTES_def)
  then show ?case using Cons \<open>\<not> unsafe_message_character c\<close> by simp
qed simp

lemma default_message_safe: "message_safe (ascii ''unspecified error'')"
  by (simp add: message_safe_def unsafe_message_character_def char_is_control_def is_format_character_def
      ascii_def MAX_ERROR_MESSAGE_BYTES_def utf8_encode_def)

lemma sanitized_safe: "message_safe (sanitize_error_message m) \<and> sanitize_error_message m \<noteq> []"
proof -
  have "message_safe (sanitize_loop [] m)" by (rule sanitize_loop_safe) (simp add: message_safe_def)
  then show ?thesis
    using default_message_safe by (simp add: sanitize_error_message_def Let_def) (simp add: ascii_def)
qed

lemma sanitize_safe_id: "message_safe m \<Longrightarrow> m \<noteq> [] \<Longrightarrow> sanitize_error_message m = m"
  using sanitize_loop_id [of "[]" m] by (simp add: sanitize_error_message_def)

section \<open>Frames\<close>

lemma bounded_writes_sum:
  assumes "bounded_writes ws b = (ok, b')" "bb_maximum b < usize_max"
  shows "ok \<longleftrightarrow> length (bb_bytes b) + length (concat ws) \<le> bb_maximum b \<or> ws = []"
    and "ok \<Longrightarrow> bb_bytes b' = bb_bytes b @ concat ws \<and> bb_overflow_size b' = bb_overflow_size b"
    and "\<not> ok \<Longrightarrow> bb_overflow_size b' \<noteq> None"
proof -
  have "(ok \<longleftrightarrow> length (bb_bytes b) + length (concat ws) \<le> bb_maximum b \<or> ws = [])
    \<and> (ok \<longrightarrow> bb_bytes b' = bb_bytes b @ concat ws \<and> bb_overflow_size b' = bb_overflow_size b)
    \<and> (\<not> ok \<longrightarrow> bb_overflow_size b' \<noteq> None)"
    using assms
  proof (induction ws arbitrary: b)
    case (Cons w ws)
    show ?case
    proof (cases "bb_maximum b < saturating_add_usize (length (bb_bytes b)) (length w)")
      case True
      then have "\<not> length (bb_bytes b) + length w \<le> bb_maximum b"
        using Cons.prems(2) by (simp add: saturating_add_usize_le_iff flip: not_le)
      then show ?thesis
        using Cons.prems(1) True by (auto simp: bounded_buffer_write_def Let_def)
    next
      case False
      then have le: "length (bb_bytes b) + length w \<le> bb_maximum b"
        using Cons.prems(2) by (simp add: saturating_add_usize_le_iff not_less)
      let ?b = "b\<lparr>bb_bytes := bb_bytes b @ w\<rparr>"
      have "bounded_writes ws ?b = (ok, b')"
        using Cons.prems(1) False by (simp add: bounded_buffer_write_def Let_def)
      from Cons.IH [OF this] Cons.prems(2) le show ?thesis by auto
    qed
  qed simp
  then show "ok \<longleftrightarrow> length (bb_bytes b) + length (concat ws) \<le> bb_maximum b \<or> ws = []"
    "ok \<Longrightarrow> bb_bytes b' = bb_bytes b @ concat ws \<and> bb_overflow_size b' = bb_overflow_size b"
    "\<not> ok \<Longrightarrow> bb_overflow_size b' \<noteq> None" by blast+
qed

definition encoded :: "'a codec \<Rightarrow> 'a \<Rightarrow> u8 list" where
  "encoded codec m = concat (fst (codec_writes codec m))"

text \<open>The messages the protocol can carry: the serialiser succeeds, the text fits a frame and reads
  back as the message.\<close>

definition carries :: "'a codec \<Rightarrow> 'a \<Rightarrow> bool" where
  "carries codec m \<longleftrightarrow> snd (codec_writes codec m) = None \<and> encoded codec m \<noteq> []
     \<and> length (encoded codec m) \<le> MAX_FRAME_SIZE \<and> codec_read codec (encoded codec m) = Inr m"

lemma frame_payload_carries:
  assumes "carries codec m"
  shows "frame_payload codec m = Inr (encoded codec m)"
proof -
  obtain ok b where w: "bounded_writes (fst (codec_writes codec m)) (bounded_buffer_new MAX_FRAME_SIZE) = (ok, b)"
    by fastforce
  have "ok" using bounded_writes_sum(1) [OF w] assms
    by (simp add: carries_def encoded_def bounded_buffer_new_def MAX_FRAME_SIZE_def)
  moreover have "bb_bytes b = encoded codec m"
    using bounded_writes_sum(2) [OF w _ \<open>ok\<close>] by (simp add: encoded_def bounded_buffer_new_def MAX_FRAME_SIZE_def)
  ultimately show ?thesis
    using w assms by (simp add: frame_payload_def case_prod_beta carries_def)
qed

definition frame_bytes :: "'a codec \<Rightarrow> 'a \<Rightarrow> u8 list" where
  "frame_bytes codec m = be_bytes 4 (length (encoded codec m)) @ encoded codec m"

lemma write_frame_carries:
  assumes "carries codec m" "length (frame_bytes codec m) \<le> pipe_room p"
  shows "write_frame codec m p =
    (Inr (), p\<lparr>pipe_bytes := pipe_bytes p @ frame_bytes codec m,
               pipe_room := pipe_room p - length (frame_bytes codec m)\<rparr>)"
  using assms frame_payload_carries [OF assms(1)]
  by (simp add: write_frame_def frame_bytes_def carries_def pipe_write_all_def io_step_def MAX_FRAME_SIZE_def)

lemma read_frame_bytes:
  assumes "carries codec m"
  shows "read_frame codec (frame_bytes codec m @ rest) = (Inr m, rest)"
proof -
  have "length (encoded codec m) < 256 ^ 4"
    using assms by (simp add: carries_def MAX_FRAME_SIZE_def)
  then have "be_value (be_bytes 4 (length (encoded codec m))) = length (encoded codec m)" by simp
  then show ?thesis
    using assms by (simp add: read_frame_def read_exact_def io_step_def frame_bytes_def carries_def Let_def)
qed

fun write_frames :: "'a codec \<Rightarrow> 'a list \<Rightarrow> pipe \<Rightarrow> (frame_error + unit) \<times> pipe" where
  "write_frames codec [] p = (Inr (), p)"
| "write_frames codec (m # ms) p = thenS (write_frame codec m p) (\<lambda>_ p. write_frames codec ms p)"

fun read_frames :: "'a codec \<Rightarrow> nat \<Rightarrow> u8 list \<Rightarrow> (frame_error + 'a list) \<times> u8 list" where
  "read_frames codec 0 input = (Inr [], input)"
| "read_frames codec (Suc n) input =
     thenS (read_frame codec input) (\<lambda>m input.
     thenS (read_frames codec n input) (\<lambda>ms input. (Inr (m # ms), input)))"

lemma write_frames_carry:
  "list_all (carries codec) ms \<Longrightarrow> length (concat (map (frame_bytes codec) ms)) \<le> pipe_room p \<Longrightarrow>
    fst (write_frames codec ms p) = Inr ()
    \<and> pipe_bytes (snd (write_frames codec ms p)) = pipe_bytes p @ concat (map (frame_bytes codec) ms)"
  by (induction ms arbitrary: p) (simp_all add: write_frame_carries)

lemma read_frames_carry:
  "list_all (carries codec) ms \<Longrightarrow>
    read_frames codec (length ms) (concat (map (frame_bytes codec) ms) @ rest) = (Inr ms, rest)"
  by (induction ms) (simp_all add: read_frame_bytes)

text \<open>A frame is written whole or not at all when it is refused, and reading consumes at most one
  header and one bounded payload.\<close>

lemma refused_frame_keeps_pipe:
  assumes "frame_payload codec m = Inl e"
  shows "write_frame codec m p = (Inl e, p)"
  using assms by (simp add: write_frame_def)

lemma read_exact_Inr: "read_exact n input = (Inr bytes, rest) \<Longrightarrow> input = bytes @ rest \<and> length bytes = n"
  by (auto simp: read_exact_def split: if_splits)

lemma io_step_Inr: "io_step m = (Inr x, s) \<longleftrightarrow> m = (Inr x, s)"
  by (cases m) (simp add: io_step_def res_simps)

lemma read_frame_bounded:
  assumes "read_frame codec input = (Inr m, rest)"
  shows "\<exists>used. input = used @ rest \<and> length used \<le> 4 + MAX_FRAME_SIZE"
proof -
  obtain header rest1 where h: "io_step (read_exact 4 input) = (Inr header, rest1)"
    using assms by (auto simp: read_frame_def thenS_def split: sum.splits prod.splits)
  moreover obtain payload rest2 where "io_step (read_exact (be_value header) rest1) = (Inr payload, rest2)"
      "rest2 = rest" "be_value header \<le> MAX_FRAME_SIZE"
    using assms h by (auto simp: read_frame_def thenS_def tryS_def fail_if_def Let_def
        split: sum.splits prod.splits if_splits)
  ultimately have "input = (header @ payload) @ rest" "length (header @ payload) \<le> 4 + MAX_FRAME_SIZE"
    by (auto simp: io_step_Inr dest!: read_exact_Inr)
  then show ?thesis by blast
qed

section \<open>Properties\<close>

text \<open>C34: Messages that the protocol can carry survive a pipe: written one after the other they are
  all accepted, and the reader gets them back in order, leaving whatever follows them unread. A
  message that is refused leaves the pipe as it was, and a reader never consumes more than one
  header and one bounded payload for a message.\<close>

theorem frames_round_trip:
  assumes "list_all (carries codec) messages"
    and "length (concat (map (frame_bytes codec) messages)) \<le> pipe_room p"
  shows "\<exists>p'. write_frames codec messages p = (Inr (), p')
      \<and> (\<exists>written. pipe_bytes p' = pipe_bytes p @ written
          \<and> read_frames codec (length messages) (written @ rest) = (Inr messages, rest))
      \<and> (\<forall>m e. frame_payload codec m = Inl e \<longrightarrow> write_frame codec m p' = (Inl e, p'))
      \<and> (\<forall>input m rest. read_frame codec input = (Inr m, rest)
          \<longrightarrow> length input \<le> length rest + 4 + MAX_FRAME_SIZE)"
proof -
  have "length input \<le> length rest + 4 + MAX_FRAME_SIZE"
    if "read_frame codec input = (Inr m, rest)" for input m rest
    using read_frame_bounded [OF that] by auto
  then show ?thesis
    using write_frames_carry [OF assms] read_frames_carry [OF assms(1), of rest] refused_frame_keeps_pipe
    by (cases "write_frames codec messages p") auto
qed

text \<open>A codec for one-byte messages, and messages that need it.\<close>

definition byte_codec :: "u8 codec" where
  "byte_codec = \<lparr>codec_writes = (\<lambda>b. ([[b]], None)),
     codec_read = (\<lambda>bs. case bs of [b] \<Rightarrow> Inr b | _ \<Rightarrow> Inl [])\<rparr>"

theorem frames_round_trip_witness:
  "\<exists>p'. write_frames byte_codec [7, 9] \<lparr>pipe_bytes = [], pipe_room = 10\<rparr> = (Inr (), p')
     \<and> read_frames byte_codec 2 (pipe_bytes p' @ [1]) = (Inr [7, 9], [1])"
  using frames_round_trip [of byte_codec "[7, 9]" "\<lparr>pipe_bytes = [], pipe_room = 10\<rparr>" "[1]"]
  by (auto simp: carries_def encoded_def frame_bytes_def byte_codec_def MAX_FRAME_SIZE_def numeral_2_eq_2)

text \<open>C35: Every error message the daemon builds is non-empty, at most 512 bytes long and free of
  control and formatting characters, whatever text it is made from; its peer accepts it, and
  accepts no other message.\<close>

theorem error_messages_are_safe:
  "list_all (\<lambda>c. \<not> (char_is_control c \<or> is_format_character c)) (pe_message (protocol_error_new code m))
   \<and> 0 < str_len (pe_message (protocol_error_new code m))
   \<and> str_len (pe_message (protocol_error_new code m)) \<le> 512
   \<and> protocol_error_deserialize code (pe_message (protocol_error_new code m)) = Inr (protocol_error_new code m)
   \<and> (is_ok (protocol_error_deserialize code m) = (m \<noteq> [] \<and> message_safe m))"
proof -
  have new: "pe_message (protocol_error_new code m) = sanitize_error_message m"
    by (simp add: protocol_error_new_def)
  have safe: "message_safe (sanitize_error_message m)" "sanitize_error_message m \<noteq> []"
    using sanitized_safe by auto
  have "length (sanitize_error_message m) \<le> str_len (sanitize_error_message m)"
    by (rule length_le_str_len)
  moreover have "is_ok (protocol_error_deserialize code m) = (m \<noteq> [] \<and> message_safe m)"
    using safe sanitize_safe_id [of m] by (auto simp: protocol_error_deserialize_def fail_if_def)
  moreover have "protocol_error_deserialize code (sanitize_error_message m) = Inr (protocol_error_new code m)"
    using sanitize_safe_id [OF safe] by (simp add: protocol_error_deserialize_def protocol_error_new_def)
  ultimately show ?thesis
    unfolding new using safe
    by (simp add: message_safe_def list_all_iff unsafe_message_character_def MAX_ERROR_MESSAGE_BYTES_def)
      (metis length_greater_0_conv less_le_trans)
qed

end
