(* ===== verification/Event_Bus.thy ===== *)
theory Event_Bus
  imports Protocol Ordered_Map
begin

text \<open>
  The event bus and the runtime counters of \<open>src/crates/openshield-daemon/src/engine.rs\<close>. A
  bounded \<open>sync_channel\<close> is the list of events its receiver has not taken yet, with a flag that
  says whether the receiver still exists; the capacity is the bus's. Locks are never poisoned in
  the model, so the operations that hold one are single steps.
\<close>

section \<open>Saturating counters\<close>

definition counter_increment :: "u64 \<Rightarrow> u64" where
  "counter_increment n = (if n = - 1 then n else n + 1)"

definition counters_default :: nfqueue_counters where
  "counters_default = \<lparr>nc_queue_overflow = 0, nc_attribution_timeout = 0,
     nc_terminal_queue_error = 0, nc_denied = 0\<rparr>"

definition record_queue_overflow :: "nfqueue_counters \<Rightarrow> nfqueue_counters" where
  "record_queue_overflow c = c\<lparr>nc_queue_overflow := counter_increment (nc_queue_overflow c)\<rparr>"

definition record_attribution_timeout :: "nfqueue_counters \<Rightarrow> nfqueue_counters" where
  "record_attribution_timeout c =
     c\<lparr>nc_attribution_timeout := counter_increment (nc_attribution_timeout c)\<rparr>"

definition record_terminal_queue_error :: "nfqueue_counters \<Rightarrow> nfqueue_counters" where
  "record_terminal_queue_error c =
     c\<lparr>nc_terminal_queue_error := counter_increment (nc_terminal_queue_error c)\<rparr>"

definition record_denied :: "nfqueue_counters \<Rightarrow> nfqueue_counters" where
  "record_denied c = c\<lparr>nc_denied := counter_increment (nc_denied c)\<rparr>"

section \<open>Channels\<close>

record channel =
  ch_queue :: "event list"
  ch_receiver :: bool

datatype try_send_error = SendFull | SendDisconnected

text \<open>\<open>SyncSender::try_send\<close>.\<close>

definition channel_try_send :: "nat \<Rightarrow> event \<Rightarrow> channel \<Rightarrow> (try_send_error + unit) \<times> channel" where
  "channel_try_send capacity event c =
     (if \<not> ch_receiver c then (Inl SendDisconnected, c)
      else if capacity \<le> length (ch_queue c) then (Inl SendFull, c)
      else (Inr (), c\<lparr>ch_queue := ch_queue c @ [event]\<rparr>))"

section \<open>The bus\<close>

definition MAX_EVENT_SUBSCRIBERS :: nat where "MAX_EVENT_SUBSCRIBERS = 64"
definition EVENT_QUEUE_CAPACITY :: nat where "EVENT_QUEUE_CAPACITY = 512"

record event_bus =
  bus_next_id :: u64
  bus_subscribers :: "(u64, channel) omap"
  bus_latest_counters :: "event option"
  bus_maximum_subscribers :: nat
  bus_queue_capacity :: nat

datatype subscribe_error = SubscribersLimitReached | SubscriptionUnavailable

definition bus_with_limits :: "nat \<Rightarrow> nat \<Rightarrow> event_bus" where
  "bus_with_limits maximum_subscribers queue_capacity =
     \<lparr>bus_next_id = 0, bus_subscribers = [], bus_latest_counters = None,
      bus_maximum_subscribers = maximum_subscribers, bus_queue_capacity = queue_capacity\<rparr>"

definition bus_new :: event_bus where
  "bus_new = bus_with_limits MAX_EVENT_SUBSCRIBERS EVENT_QUEUE_CAPACITY"

definition bus_subscribe :: "event_bus \<Rightarrow> (subscribe_error + u64) \<times> event_bus" where
  "bus_subscribe b =
     tryS (fail_if (bus_maximum_subscribers b \<le> length (bus_subscribers b)) SubscribersLimitReached) b (\<lambda>_.
     let i = bus_next_id b in
     tryS (fail_if (i = - 1) SubscriptionUnavailable) b (\<lambda>_.
     let b1 = b\<lparr>bus_next_id := i + 1\<rparr>;
         fresh = \<lparr>ch_queue = [], ch_receiver = True\<rparr> in
     thenS (case bus_latest_counters b of
              None \<Rightarrow> (Inr fresh, b1)
            | Some event \<Rightarrow>
                (case channel_try_send (bus_queue_capacity b) event fresh of
                   (Inr _, c) \<Rightarrow> (Inr c, b1)
                 | (Inl _, c) \<Rightarrow> (Inl SubscriptionUnavailable, b1)))
       (\<lambda>channel b1.
     (Inr i, b1\<lparr>bus_subscribers := omap_insert i channel (bus_subscribers b1)\<rparr>))))"

text \<open>\<open>subscribers.retain(...)\<close> visits the map in key order and keeps the channels that took the
  event.\<close>

fun retain_sending :: "nat \<Rightarrow> event \<Rightarrow> (u64 \<times> channel) list \<Rightarrow> (u64 \<times> channel) list" where
  "retain_sending capacity event [] = []"
| "retain_sending capacity event ((i, c) # rest) =
     (case channel_try_send capacity event c of
        (Inr _, c') \<Rightarrow> (i, c') # retain_sending capacity event rest
      | (Inl _, _) \<Rightarrow> retain_sending capacity event rest)"

definition is_counters_event :: "event \<Rightarrow> bool" where
  "is_counters_event e = (case ev_kind e of CountersUpdated _ \<Rightarrow> True | _ \<Rightarrow> False)"

definition bus_publish :: "event \<Rightarrow> event_bus \<Rightarrow> event_bus" where
  "bus_publish event b =
     (let b1 = (if is_counters_event event then b\<lparr>bus_latest_counters := Some event\<rparr> else b)
      in b1\<lparr>bus_subscribers := retain_sending (bus_queue_capacity b) event (bus_subscribers b1)\<rparr>)"

definition bus_remove :: "u64 \<Rightarrow> event_bus \<Rightarrow> event_bus" where
  "bus_remove i b = b\<lparr>bus_subscribers := omap_remove i (bus_subscribers b)\<rparr>"

definition clear_counter_snapshot :: "event_bus \<Rightarrow> event_bus" where
  "clear_counter_snapshot b = b\<lparr>bus_latest_counters := None\<rparr>"

definition bus_publish_all :: "event list \<Rightarrow> event_bus \<Rightarrow> event_bus" where
  "bus_publish_all events b = fold bus_publish events b"

text \<open>A subscriber takes the oldest event of its channel; without one its call times out. Dropping
  the subscription drops the receiver and removes the entry. (A subscription that the bus already
  removed as slow still drains its queue and then ends; that queue is no longer part of the bus.)\<close>

definition subscription_receive :: "u64 \<Rightarrow> event_bus \<Rightarrow> event option \<times> event_bus" where
  "subscription_receive i b =
     (case omap_get (bus_subscribers b) i of
        None \<Rightarrow> (None, b)
      | Some c \<Rightarrow>
          (case ch_queue c of
             [] \<Rightarrow> (None, b)
           | event # rest \<Rightarrow>
               (Some event, b\<lparr>bus_subscribers :=
                  omap_insert i (c\<lparr>ch_queue := rest\<rparr>) (bus_subscribers b)\<rparr>)))"

definition subscription_drop :: "u64 \<Rightarrow> event_bus \<Rightarrow> event_bus" where
  "subscription_drop i b = bus_remove i b"

section \<open>A registered subscriber has missed nothing\<close>

text \<open>The operations on a bus, as one step with the events it publishes.\<close>

datatype bus_operation = BusPublish event | BusSubscribe | BusReceive u64 | BusDrop u64 | BusClear

fun bus_step :: "bus_operation \<Rightarrow> event_bus \<Rightarrow> event_bus" where
  "bus_step (BusPublish event) b = bus_publish event b"
| "bus_step BusSubscribe b = snd (bus_subscribe b)"
| "bus_step (BusReceive i) b = snd (subscription_receive i b)"
| "bus_step (BusDrop i) b = subscription_drop i b"
| "bus_step BusClear b = clear_counter_snapshot b"

definition bus_run :: "bus_operation list \<Rightarrow> event_bus \<Rightarrow> event_bus" where
  "bus_run ops b = fold bus_step ops b"

text \<open>What the subscriber took and what was published, along a run.\<close>

fun received :: "u64 \<Rightarrow> bus_operation list \<Rightarrow> event_bus \<Rightarrow> event list" where
  "received i [] b = []"
| "received i (o1 # ops) b =
     (case o1 of
        BusReceive j \<Rightarrow> (if j = i then (case fst (subscription_receive i b) of None \<Rightarrow> [] | Some e \<Rightarrow> [e]) else [])
      | _ \<Rightarrow> []) @ received i ops (bus_step o1 b)"

fun published :: "bus_operation list \<Rightarrow> event list" where
  "published [] = []"
| "published (BusPublish e # ops) = e # published ops"
| "published (_ # ops) = published ops"

definition bus_inv :: "event_bus \<Rightarrow> bool" where
  "bus_inv b \<longleftrightarrow> omap_wf (bus_subscribers b)
     \<and> length (bus_subscribers b) \<le> bus_maximum_subscribers b
     \<and> (\<forall>(i, c)\<in>set (bus_subscribers b). i < bus_next_id b \<and> length (ch_queue c) \<le> bus_queue_capacity b)"

lemma retain_get:
  "omap_wf m \<Longrightarrow> omap_get (retain_sending capacity e m) i =
    Option.bind (omap_get m i) (\<lambda>c. if ch_receiver c \<and> length (ch_queue c) < capacity
      then Some (c\<lparr>ch_queue := ch_queue c @ [e]\<rparr>) else None)"
proof (induction m)
  case (Cons p m)
  obtain j c where p: "p = (j, c)" by fastforce
  have "omap_get m i = None" if "i = j"
    using Cons.prems that p by (auto simp: omap_get_def map_of_eq_None_iff)
  then show ?case
    using Cons p by (auto simp: channel_try_send_def omap_get_def split: if_splits)
qed (simp add: omap_get_def)

lemma retain_eq:
  "retain_sending capacity e m =
    map (\<lambda>(i, c). (i, c\<lparr>ch_queue := ch_queue c @ [e]\<rparr>))
      (filter (\<lambda>(i, c). ch_receiver c \<and> length (ch_queue c) < capacity) m)"
proof (induction m)
  case (Cons p m)
  then show ?case
    by (cases p; cases "ch_receiver (snd p)"; cases "capacity \<le> length (ch_queue (snd p))")
      (simp_all add: channel_try_send_def)
qed simp

lemma retain_wf: "omap_wf m \<Longrightarrow> omap_wf (retain_sending capacity e m)"
  by (simp add: retain_eq omap_wf_def sorted_wrt_map sorted_wrt_filter case_prod_beta comp_def)

lemma retain_bounded:
  "(i, c) \<in> set (retain_sending capacity e m) \<Longrightarrow>
    length (ch_queue c) \<le> capacity \<and> (\<exists>c'. (i, c') \<in> set m)"
  by (auto simp: retain_eq)

lemmas bus_defs = bus_publish_def bus_subscribe_def subscription_receive_def subscription_drop_def
  bus_remove_def clear_counter_snapshot_def channel_try_send_def

lemma bus_subscribe_cases:
  assumes "bus_inv b"
  obtains e b' where "bus_subscribe b = (Inl e, b')" "bus_subscribers b' = bus_subscribers b"
      "bus_next_id b' = bus_next_id b \<or> bus_next_id b \<noteq> - 1 \<and> bus_next_id b' = bus_next_id b + 1"
      "bus_maximum_subscribers b' = bus_maximum_subscribers b" "bus_queue_capacity b' = bus_queue_capacity b"
  | c b' where "bus_subscribe b = (Inr (bus_next_id b), b')" "bus_next_id b \<noteq> - 1"
      "bus_next_id b' = bus_next_id b + 1" "length (bus_subscribers b) < bus_maximum_subscribers b"
      "bus_subscribers b' = omap_insert (bus_next_id b) c (bus_subscribers b)"
      "length (ch_queue c) \<le> bus_queue_capacity b"
      "bus_maximum_subscribers b' = bus_maximum_subscribers b" "bus_queue_capacity b' = bus_queue_capacity b"
proof (cases "bus_maximum_subscribers b \<le> length (bus_subscribers b) \<or> bus_next_id b = - 1")
  case True
  then have "bus_subscribe b = (Inl (if bus_maximum_subscribers b \<le> length (bus_subscribers b)
      then SubscribersLimitReached else SubscriptionUnavailable), b)"
    by (auto simp: bus_subscribe_def)
  then show ?thesis by (rule that(1)) simp_all
next
  case False
  show ?thesis
  proof (cases "bus_latest_counters b \<noteq> None \<and> bus_queue_capacity b = 0")
    case True
    then have "bus_subscribe b = (Inl SubscriptionUnavailable, b\<lparr>bus_next_id := bus_next_id b + 1\<rparr>)"
      using False by (auto simp: bus_subscribe_def Let_def channel_try_send_def)
    then show ?thesis by (rule that(1)) (use False in simp_all)
  next
    case nonempty: False
    define c where "c = \<lparr>ch_queue = (case bus_latest_counters b of None \<Rightarrow> [] | Some e \<Rightarrow> [e]), ch_receiver = True\<rparr>"
    have "bus_subscribe b = (Inr (bus_next_id b), b\<lparr>bus_next_id := bus_next_id b + 1,
        bus_subscribers := omap_insert (bus_next_id b) c (bus_subscribers b)\<rparr>)"
      using False nonempty
      by (auto simp: c_def bus_subscribe_def Let_def channel_try_send_def split: option.split)
    then show ?thesis
      by (rule that(2)) (use False nonempty in \<open>auto simp: c_def split: option.split\<close>)
  qed
qed

lemma bus_step_inv:
  assumes "bus_inv b"
  shows "bus_inv (bus_step op b)"
proof (cases op)
  case (BusPublish e)
  have "length (retain_sending (bus_queue_capacity b) e (bus_subscribers b)) \<le> length (bus_subscribers b)"
    by (simp add: retain_eq)
  then show ?thesis
    using assms BusPublish retain_wf retain_bounded
    by (fastforce simp: bus_inv_def bus_publish_def Let_def)
next
  case BusSubscribe
  show ?thesis
  proof (rule bus_subscribe_cases [OF assms])
    fix e b' assume "bus_subscribe b = (Inl e, b')" "bus_subscribers b' = bus_subscribers b"
      "bus_next_id b' = bus_next_id b \<or> bus_next_id b \<noteq> - 1 \<and> bus_next_id b' = bus_next_id b + 1"
      "bus_maximum_subscribers b' = bus_maximum_subscribers b" "bus_queue_capacity b' = bus_queue_capacity b"
    then show ?thesis using BusSubscribe assms
      by (auto simp: bus_inv_def word_less_nat_alt unat_word_add_one)
  next
    fix c b' assume "bus_subscribe b = (Inr (bus_next_id b), b')" "bus_next_id b \<noteq> - 1"
      "bus_next_id b' = bus_next_id b + 1" "length (bus_subscribers b) < bus_maximum_subscribers b"
      "bus_subscribers b' = omap_insert (bus_next_id b) c (bus_subscribers b)"
      "length (ch_queue c) \<le> bus_queue_capacity b"
      "bus_maximum_subscribers b' = bus_maximum_subscribers b" "bus_queue_capacity b' = bus_queue_capacity b"
    moreover have "omap_get (bus_subscribers b) (bus_next_id b) = None"
      using assms by (auto simp: bus_inv_def omap_get_def map_of_eq_None_iff)
    ultimately show ?thesis using BusSubscribe assms btree.size_put_fresh [of "bus_subscribers b" "bus_next_id b" c]
      by (auto simp: bus_inv_def word_less_nat_alt unat_word_add_one omap_wf_insert btree.set_put)
  qed
next
  case (BusReceive i)
  show ?thesis
  proof (cases "omap_get (bus_subscribers b) i")
    case (Some c)
    then have "(i, c) \<in> set (bus_subscribers b)" using assms by (simp add: bus_inv_def btree.get_iff)
    then show ?thesis
      using BusReceive assms Some btree.size_put_existing [of "bus_subscribers b" i c]
      by (cases "ch_queue c") (auto simp: bus_inv_def subscription_receive_def omap_wf_insert btree.set_put)
  qed (use BusReceive assms in \<open>simp add: subscription_receive_def\<close>)
next
  case (BusDrop i)
  then show ?thesis
    using assms btree.size_del [of "bus_subscribers b" i]
    by (auto simp: bus_inv_def subscription_drop_def bus_remove_def btree.wf_del btree.set_del)
qed (use assms in \<open>simp add: bus_inv_def clear_counter_snapshot_def\<close>)

lemma bus_step_unregistered:
  assumes "bus_inv b" "omap_get (bus_subscribers b) i = None" "i < bus_next_id b"
  shows "omap_get (bus_subscribers (bus_step op b)) i = None \<and> i < bus_next_id (bus_step op b)"
proof (cases op)
  case (BusPublish e)
  then show ?thesis using assms by (simp add: bus_publish_def Let_def retain_get bus_inv_def)
next
  case BusSubscribe
  show ?thesis
  proof (rule bus_subscribe_cases [OF assms(1)])
    fix e b' assume "bus_subscribe b = (Inl e, b')" "bus_subscribers b' = bus_subscribers b"
      "bus_next_id b' = bus_next_id b \<or> bus_next_id b \<noteq> - 1 \<and> bus_next_id b' = bus_next_id b + 1"
    then show ?thesis using BusSubscribe assms(2,3)
      by (auto simp: word_less_nat_alt unat_word_add_one)
  next
    fix c b' assume "bus_subscribe b = (Inr (bus_next_id b), b')" "bus_next_id b \<noteq> - 1"
      "bus_next_id b' = bus_next_id b + 1"
      "bus_subscribers b' = omap_insert (bus_next_id b) c (bus_subscribers b)"
    then show ?thesis using BusSubscribe assms
      by (auto simp: bus_inv_def word_less_nat_alt unat_word_add_one btree.get_put)
  qed
next
  case (BusReceive j)
  then show ?thesis using assms
    by (auto simp: subscription_receive_def bus_inv_def btree.get_put split: option.split list.split)
next
  case (BusDrop j)
  then show ?thesis using assms
    by (simp add: subscription_drop_def bus_remove_def bus_inv_def btree.get_del)
qed (use assms in \<open>simp add: clear_counter_snapshot_def\<close>)

lemma bus_step_registered:
  assumes "bus_inv b" "omap_get (bus_subscribers b) i = Some c"
    and "omap_get (bus_subscribers (bus_step op b)) i = Some c'"
  shows "ch_queue c @ published [op] = received i [op] b @ ch_queue c'"
proof (cases op)
  case (BusPublish e)
  then show ?thesis using assms by (auto simp: bus_publish_def Let_def retain_get bus_inv_def split: if_splits)
next
  case BusSubscribe
  show ?thesis
  proof (rule bus_subscribe_cases [OF assms(1)])
    fix e b' assume "bus_subscribe b = (Inl e, b')" "bus_subscribers b' = bus_subscribers b"
    then show ?thesis using BusSubscribe assms(2,3) by simp
  next
    fix d b' assume "bus_subscribe b = (Inr (bus_next_id b), b')"
      "bus_subscribers b' = omap_insert (bus_next_id b) d (bus_subscribers b)"
    moreover have "i \<noteq> bus_next_id b"
      using assms(1,2) by (auto simp: bus_inv_def btree.get_iff)
    ultimately show ?thesis using BusSubscribe assms by (simp add: bus_inv_def btree.get_put)
  qed
next
  case (BusReceive j)
  then show ?thesis using assms
    by (auto simp: subscription_receive_def bus_inv_def btree.get_put split: option.splits list.splits if_splits)
next
  case (BusDrop j)
  then show ?thesis using assms
    by (auto simp: subscription_drop_def bus_remove_def bus_inv_def btree.get_del split: if_splits)
qed (use assms in \<open>simp add: clear_counter_snapshot_def\<close>)

lemma bus_step_next: "bus_inv b \<Longrightarrow> i < bus_next_id b \<Longrightarrow> i < bus_next_id (bus_step op b)"
proof (cases op)
  case BusSubscribe
  assume inv: "bus_inv b" and below: "i < bus_next_id b"
  show ?thesis
    by (rule bus_subscribe_cases [OF inv])
      (use below in \<open>auto simp: BusSubscribe word_less_nat_alt unat_word_add_one\<close>)
qed (auto simp: bus_publish_def Let_def subscription_receive_def subscription_drop_def bus_remove_def
    clear_counter_snapshot_def split: option.split list.split)

lemma bus_run_simps [simp]:
  "bus_run [] b = b" "bus_run (op # ops) b = bus_run ops (bus_step op b)"
  by (simp_all add: bus_run_def)

lemma bus_run_unregistered:
  "bus_inv b \<Longrightarrow> omap_get (bus_subscribers b) i = None \<Longrightarrow> i < bus_next_id b \<Longrightarrow>
    omap_get (bus_subscribers (bus_run ops b)) i = None"
  by (induction ops arbitrary: b) (simp_all add: bus_step_inv bus_step_unregistered)

lemma bus_run_inv: "bus_inv b \<Longrightarrow> bus_inv (bus_run ops b)"
  by (induction ops arbitrary: b) (simp_all add: bus_step_inv)

lemma published_Cons: "published (op # ops) = published [op] @ published ops"
  by (cases op) simp_all

lemma received_Cons: "received i (op # ops) b = received i [op] b @ received i ops (bus_step op b)"
  by simp

lemma bus_run_complete:
  assumes "bus_inv b" "omap_get (bus_subscribers b) i = Some c"
    and "omap_get (bus_subscribers (bus_run ops b)) i = Some c'"
  shows "ch_queue c @ published ops = received i ops b @ ch_queue c'"
  using assms
proof (induction ops arbitrary: b c)
  case (Cons op ops)
  have below: "i < bus_next_id b" using Cons.prems(1,2) by (auto simp: bus_inv_def btree.get_iff)
  show ?case
  proof (cases "omap_get (bus_subscribers (bus_step op b)) i")
    case None
    have "i < bus_next_id (bus_step op b)"
      using bus_step_next [OF Cons.prems(1) below] .
    then show ?thesis
      using Cons.prems(1,3) bus_run_unregistered [OF bus_step_inv [OF Cons.prems(1)] None] by simp
  next
    case (Some d)
    have "ch_queue d @ published ops = received i ops (bus_step op b) @ ch_queue c'"
      using Cons.IH [OF bus_step_inv [OF Cons.prems(1)] Some] Cons.prems(3) by simp
    moreover have "ch_queue c @ published [op] = received i [op] b @ ch_queue d"
      by (rule bus_step_registered [OF Cons.prems(1,2) Some])
    ultimately show ?thesis
      unfolding published_Cons [of op ops] received_Cons [of i op ops] by (metis append.assoc)
  qed
qed simp

text \<open>C36: Over any history of the event bus, at most the allowed number of subscribers is registered,
  each queues at most the allowed number of events, and a subscriber that is still registered has
  missed nothing: what it had queued, followed by every event published since, is exactly what it
  received followed by what is queued for it now, in order.\<close>

theorem subscribers_miss_nothing:
  assumes "bus_inv b" "omap_get (bus_subscribers b) i = Some c"
  shows "bus_inv (bus_run ops b)
    \<and> (\<forall>c'. omap_get (bus_subscribers (bus_run ops b)) i = Some c'
        \<longrightarrow> ch_queue c @ published ops = received i ops b @ ch_queue c')"
  using bus_run_inv [OF assms(1)] bus_run_complete [OF assms] by blast

definition sample_event :: event where
  "sample_event = \<lparr>ev_revision = 1, ev_occurred_at = 0, ev_kind = ModeChanged BlockAll Learning\<rparr>"

theorem subscribers_miss_nothing_witness:
  "received 0 [BusPublish sample_event, BusReceive 0, BusPublish sample_event] (bus_step BusSubscribe bus_new)
     @ [sample_event] = [sample_event, sample_event]"
proof -
  let ?b = "bus_step BusSubscribe bus_new"
  let ?ops = "[BusPublish sample_event, BusReceive 0, BusPublish sample_event]"
  have "bus_inv ?b"
    by (intro bus_step_inv) (simp add: bus_inv_def bus_new_def bus_with_limits_def)
  moreover have "omap_get (bus_subscribers ?b) 0 = Some \<lparr>ch_queue = [], ch_receiver = True\<rparr>"
    by (simp add: bus_new_def bus_with_limits_def bus_subscribe_def MAX_EVENT_SUBSCRIBERS_def omap_get_def)
  moreover have "omap_get (bus_subscribers (bus_run ?ops ?b)) 0
      = Some \<lparr>ch_queue = [sample_event], ch_receiver = True\<rparr>"
    by (simp add: bus_new_def bus_with_limits_def bus_subscribe_def MAX_EVENT_SUBSCRIBERS_def omap_get_def
        bus_publish_def channel_try_send_def EVENT_QUEUE_CAPACITY_def subscription_receive_def
        is_counters_event_def sample_event_def)
  ultimately show ?thesis using subscribers_miss_nothing [of ?b 0 "\<lparr>ch_queue = [], ch_receiver = True\<rparr>" ?ops]
    by simp
qed

end
