(* ===== verification/Pinning.thy ===== *)
theory Pinning
  imports Policy_State
begin

text \<open>
  The pin that ties an application rule to one version of an executable:
  \<open>pin_rule_application\<close>, \<open>open_executable_version\<close> and \<open>executable_file_id\<close> of
  \<open>src/crates/openshield-daemon/src/application.rs\<close>.

  The file system is observed several times while a rule is pinned and may change in between, so
  every observation is its own argument: \<open>fs_canonicalize fs n\<close> and \<open>fs_open fs n\<close> are the n-th
  canonicalisation and the n-th opened file with its metadata. A canonical path need not be text.
\<close>

datatype os_path = TextPath ustring | RawPath "u8 list"

record file_metadata =
  md_is_file :: bool
  md_dev :: u64
  md_ino :: u64
  md_size :: u64
  md_ctime :: int
  md_ctime_nsec :: int

record file_system =
  fs_canonicalize :: "nat \<Rightarrow> ustring \<Rightarrow> ustring + os_path"
  fs_open :: "nat \<Rightarrow> os_path \<Rightarrow> ustring + file_metadata"

datatype pin_error =
    PinRefused string
  | PinOs ustring
  | PinApplication application_validation_error
  | PinSpecification validation_error

definition executable_file_id_of :: "file_metadata \<Rightarrow> pin_error + executable_file_id" where
  "executable_file_id_of metadata =
     bindE (fail_if (\<not> md_is_file metadata)
              (PinRefused ''application executable is not a regular file'')) (\<lambda>_.
     let identity = \<lparr>efi_device = md_dev metadata, efi_inode = md_ino metadata,
           efi_size = md_size metadata, efi_ctime_seconds = md_ctime metadata,
           efi_ctime_nanoseconds = md_ctime_nsec metadata\<rparr> in
     bindE (map_err PinApplication (executable_file_id_validate identity)) (\<lambda>_. Inr identity))"

definition open_executable_version ::
    "file_system \<Rightarrow> nat \<Rightarrow> os_path \<Rightarrow> pin_error + executable_file_id" where
  "open_executable_version fs n path =
     bindE (map_err PinOs (fs_open fs n path)) executable_file_id_of"

fun path_to_str :: "os_path \<Rightarrow> ustring option" where
  "path_to_str (TextPath utf8) = Some utf8"
| "path_to_str (RawPath bytes) = None"

definition pin_rule_application :: "file_system \<Rightarrow> rule_spec \<Rightarrow> pin_error + rule_spec" where
  "pin_rule_application fs specification =
     (case spec_application specification of
        None \<Rightarrow> Inr specification
      | Some selector \<Rightarrow>
          bindE (ok_or (PinRefused ''application selector has no executable path'') (sel_executable selector))
         (\<lambda>executable.
          bindE (map_err PinOs (fs_canonicalize fs 0 (path_str executable))) (\<lambda>canonical_path.
          bindE (open_executable_version fs 0 canonical_path) (\<lambda>actual_file.
          bindE (map_err PinOs (fs_canonicalize fs 1 (path_str executable))) (\<lambda>verified_canonical_path.
          bindE (fail_if (verified_canonical_path \<noteq> canonical_path)
                   (PinRefused ''executable path changed while it was pinned'')) (\<lambda>_.
          bindE (open_executable_version fs 1 verified_canonical_path) (\<lambda>verified_file.
          bindE (fail_if (verified_file \<noteq> actual_file)
                   (PinRefused ''executable version changed while it was pinned'')) (\<lambda>_.
          bindE (map_err PinOs (fs_canonicalize fs 2 (path_str executable))) (\<lambda>final_canonical_path.
          bindE (fail_if (final_canonical_path \<noteq> canonical_path)
                   (PinRefused ''executable path changed while it was pinned'')) (\<lambda>_.
          bindE (ok_or (PinRefused ''canonical executable path is not UTF-8'') (path_to_str canonical_path))
         (\<lambda>canonical_text.
          bindE (map_err PinApplication (application_path_new canonical_text)) (\<lambda>canonical_application.
          bindE (fail_if (is_some_and (sel_executable_file selector) (\<lambda>expected_file. expected_file \<noteq> actual_file))
                   (PinRefused ''supplied executable version does not match the opened path'')) (\<lambda>_.
          let pinned = specification\<lparr>spec_application := Some (selector\<lparr>
                sel_executable := Some canonical_application,
                sel_executable_file := Some actual_file\<rparr>)\<rparr> in
          bindE (map_err PinSpecification (rule_spec_validate pinned)) (\<lambda>_. Inr pinned))))))))))))))"

text \<open>A pinned specification is valid, differs only in its selector, and its file was seen twice
  behind a canonical path that was seen three times.\<close>

lemma pin_rule_application_Inr:
  assumes "pin_rule_application fs spec = Inr pinned" "spec_application spec = Some selector"
  obtains executable canonical utf8 version where
    "sel_executable selector = Some executable"
    "\<And>n. n \<in> {0, 1, 2} \<Longrightarrow> fs_canonicalize fs n (path_str executable) = Inr canonical"
    "\<And>n. n \<in> {0, 1} \<Longrightarrow> open_executable_version fs n canonical = Inr version"
    "canonical = TextPath utf8" "application_path_new utf8 = Inr (ApplicationPath utf8)"
    "sel_executable_file selector \<in> {None, Some version}"
    "pinned = spec\<lparr>spec_application := Some (selector\<lparr>sel_executable := Some (ApplicationPath utf8),
       sel_executable_file := Some version\<rparr>)\<rparr>"
    "rule_spec_validate pinned = Inr ()"
proof -
  obtain executable canonical version utf8 path where parts:
    "sel_executable selector = Some executable"
    "fs_canonicalize fs 0 (path_str executable) = Inr canonical"
    "fs_canonicalize fs 1 (path_str executable) = Inr canonical"
    "fs_canonicalize fs 2 (path_str executable) = Inr canonical"
    "open_executable_version fs 0 canonical = Inr version"
    "open_executable_version fs 1 canonical = Inr version"
    "path_to_str canonical = Some utf8" "application_path_new utf8 = Inr path"
    "\<not> is_some_and (sel_executable_file selector) (\<lambda>expected. expected \<noteq> version)"
    "pinned = spec\<lparr>spec_application := Some (selector\<lparr>sel_executable := Some path,
       sel_executable_file := Some version\<rparr>)\<rparr>"
    "rule_spec_validate pinned = Inr ()"
    using assms unfolding pin_rule_application_def by (simp add: res_simps Let_def) blast
  have "path = ApplicationPath utf8" using parts(8) by (auto simp: application_path_new_def res_simps)
  have "canonical = TextPath utf8" using parts(7) by (cases canonical) simp_all
  moreover have "sel_executable_file selector \<in> {None, Some version}"
    using parts(9) by (cases "sel_executable_file selector") simp_all
  ultimately show ?thesis
    using parts \<open>path = ApplicationPath utf8\<close> by (intro that [of executable canonical version utf8]) auto
qed

lemma pin_rule_application_pinned:
  "pin_rule_application fs spec = Inr pinned \<Longrightarrow> reject_unpinned_application_spec pinned = Inr ()"
  by (auto simp: pin_rule_application_def reject_unpinned_application_spec_def res_simps Let_def
      split: option.splits)

end
