(* ===== verification/Engine.thy ===== *)
theory Engine
  imports Event_Bus Pinning Decision Auto_Learning
begin

text \<open>
  The policy engine of \<open>src/crates/openshield-daemon/src/engine.rs\<close>: startup, privileged control
  requests with their commit and rollback, automatic learning that is persisted outside the engine
  lock, repair, quarantine, emergency fail-closed, and the responses of the read path.

  The firewall backend and the state store are traits of the source; \<open>'w host_ops\<close> holds their
  methods as functions on a host state \<open>'w\<close>, any of which may fail. What a call draws from its
  environment (identifiers and times, JSON, the file system, message texts) is in \<open>engine_env\<close>.

  The learning thread owns the transaction between \<open>prepare_application_learning\<close> and
  \<open>finalize_application_learning\<close> and writes it without the engine lock. It is part of the model
  (\<open>en_learner\<close>), because an exclusive writer waits for the write it has reserved:
  \<open>wait_until_exclusive\<close> lets the owner of the reservation finish. Every method of the engine runs
  under the engine's lock and is one step. Panics, and with them poisoned locks, are not modelled;
  neither is logging.
\<close>

section \<open>Host and environment\<close>

record 'w host_ops =
  op_kind :: "'w \<Rightarrow> firewall_backend_kind"
  op_apply :: "snapshot \<Rightarrow> 'w \<Rightarrow> (ustring + unit) \<times> 'w"
  op_fail_closed :: "'w \<Rightarrow> (ustring + unit) \<times> 'w"
  op_load :: "'w \<Rightarrow> (ustring + state option) \<times> 'w"
  op_save :: "state \<Rightarrow> 'w \<Rightarrow> (ustring + unit) \<times> 'w"

record engine_env =
  env_json :: "state json"
  env_net_from :: "ip_addr \<Rightarrow> ip_net"
  env_net_trunc :: "ip_net \<Rightarrow> ip_net"
  env_file_system :: "nat \<Rightarrow> file_system"
  env_draws :: "nat \<Rightarrow> draw"
  env_core_text :: "core_error \<Rightarrow> ustring"
  env_application_text :: "application_validation_error \<Rightarrow> ustring"
  env_pin_text :: "pin_error \<Rightarrow> ustring"
  env_uuid_text :: "uuid \<Rightarrow> ustring"

abbreviation env_now :: "engine_env \<Rightarrow> nat \<Rightarrow> timestamp" where
  "env_now env n \<equiv> snd (env_draws env n)"

section \<open>The engine's state\<close>

definition MAX_LEARNED_RULES_PER_POLL :: nat where "MAX_LEARNED_RULES_PER_POLL = 256"

datatype startup_policy = StartupPending | StartupActive
datatype learning_persistence = LearningActive | LearningInFlight u64 | LearningPaused
datatype learning_queue_admission =
  QueueEnqueue | QueueAlreadyKnown | QueueSaturated | QueuePersistencePaused
datatype persisted_state_after_failure = PersistedPrevious | PersistedCandidateOrUnknown
datatype learning_store_outcome = LearningSaved | LearningPreviousRetained | LearningUnsafe

record learning_transaction =
  lt_token :: u64
  lt_previous :: state
  lt_candidate :: state
  lt_events :: "event list"

datatype learner =
    NoTransaction
  | PreparedTransaction learning_transaction
  | PersistedTransaction learning_transaction learning_store_outcome

record 'w engine =
  en_state :: state
  en_learning_limits :: learning_limits
  en_quota_skipped_observations :: u64
  en_application_policy :: decision_policy
  en_application_learning_admission :: admission_index
  en_pending_admission :: "admission_index option"
  en_pending_candidate :: "state option"
  en_pending_events :: "event list"
  en_events :: event_bus
  en_nfqueue_counters :: nfqueue_counters
  en_poisoned :: bool
  en_fatal :: bool
  en_restart_required :: bool
  en_startup_policy :: startup_policy
  en_learning_persistence :: learning_persistence
  en_next_learning_transaction :: u64
  en_superseded_learning_transaction :: "u64 option"
  en_learning_reservation :: "u64 option"
  en_learner :: learner
  en_host :: 'w

section \<open>Errors\<close>

definition fatal_protocol_error :: protocol_error where
  "fatal_protocol_error = protocol_error_new BackendUnavailable (ascii
     ''kernel policy state is unknown; daemon is terminating for service-manager recovery'')"

definition restart_protocol_error :: protocol_error where
  "restart_protocol_error = protocol_error_new BackendUnavailable (ascii
     ''firewall integrity repair failed; emergency BlockAll is active and the daemon is restarting'')"

fun core_error_code :: "core_error \<Rightarrow> error_code" where
  "core_error_code (CoreValidation _) = InvalidRequest"
| "core_error_code (RuleNotFound _) = NotFound"
| "core_error_code (DuplicateRuleId _) = Conflict"
| "core_error_code (RulesLimitReached _) = Conflict"
| "core_error_code (StateSizeLimitReached _) = Conflict"
| "core_error_code RevisionOverflow = Conflict"
| "core_error_code FlowGenerationExhausted = Conflict"
| "core_error_code RedactedApplicationMetadata = InvalidRequest"
| "core_error_code UnpinnedApplicationIdentity = InvalidRequest"
| "core_error_code _ = Internal"

definition core_protocol_error :: "engine_env \<Rightarrow> core_error \<Rightarrow> protocol_error" where
  "core_protocol_error env e = protocol_error_new (core_error_code e) (env_core_text env e)"

definition pin_protocol_error :: "engine_env \<Rightarrow> pin_error \<Rightarrow> protocol_error" where
  "pin_protocol_error env e = protocol_error_new InvalidRequest (env_pin_text env e)"

definition emergency_protocol_error :: "'w engine \<Rightarrow> protocol_error" where
  "emergency_protocol_error e =
     (if en_fatal e then fatal_protocol_error
      else if en_restart_required e then restart_protocol_error
      else protocol_error_new BackendUnavailable (ascii
        ''emergency BlockAll is active but could not be persisted; daemon is quarantined and requires storage repair''))"

section \<open>Derived policies\<close>

definition decision_rules :: "state \<Rightarrow> rule list" where
  "decision_rules s =
     (case st_mode s of
        Enforcing \<Rightarrow> filter (\<lambda>r. spec_enabled (rule_spec r)
          \<and> (spec_application (rule_spec r) \<noteq> None
             \<or> spec_direction (rule_spec r) = Outbound \<and> spec_action (rule_spec r) = Accept))
          (omap_values (st_rules s))
      | Learning \<Rightarrow> filter (\<lambda>r. spec_enabled (rule_spec r) \<and> spec_direction (rule_spec r) = Outbound
          \<and> spec_application (rule_spec r) \<noteq> None
          \<and> (spec_action (rule_spec r) = Drop \<or> spec_action (rule_spec r) = Reject))
          (omap_values (st_rules s))
      | BlockAll \<Rightarrow> [])"

definition build_application_decision_policy :: "state \<Rightarrow> decision_policy" where
  "build_application_decision_policy s =
     with_enforcement_strategy
       (if st_mode s = Enforcing then st_enforcement_strategy s else Strict)
       (decision_policy_new
         \<lparr>sn_revision = st_revision s, sn_flow_generation = st_flow_generation s,
          sn_mode = st_mode s, sn_rules = decision_rules s\<rparr>)"

definition build_application_learning_admission :: "state \<Rightarrow> learning_limits \<Rightarrow> admission_index" where
  "build_application_learning_admission s limits = index_from_state s limits"

definition clear_pending_application_learning :: "'w engine \<Rightarrow> 'w engine" where
  "clear_pending_application_learning e =
     e\<lparr>en_pending_admission := None, en_pending_candidate := None, en_pending_events := []\<rparr>"

definition replace_state :: "state \<Rightarrow> 'w engine \<Rightarrow> 'w engine" where
  "replace_state s e =
     clear_pending_application_learning
       (e\<lparr>en_state := s, en_application_policy := build_application_decision_policy s,
          en_application_learning_admission :=
            build_application_learning_admission s (en_learning_limits e)\<rparr>)"

section \<open>Backend and persistence\<close>

definition backend_apply :: "'w host_ops \<Rightarrow> snapshot \<Rightarrow> 'w engine \<Rightarrow> (ustring + unit) \<times> 'w engine" where
  "backend_apply ops sn e =
     (let (r, h) = op_apply ops sn (en_host e) in (r, e\<lparr>en_host := h\<rparr>))"

definition backend_fail_closed :: "'w host_ops \<Rightarrow> 'w engine \<Rightarrow> (ustring + unit) \<times> 'w engine" where
  "backend_fail_closed ops e =
     (let (r, h) = op_fail_closed ops (en_host e) in (r, e\<lparr>en_host := h\<rparr>))"

definition store_save :: "'w host_ops \<Rightarrow> state \<Rightarrow> 'w engine \<Rightarrow> (ustring + unit) \<times> 'w engine" where
  "store_save ops s e = (let (r, h) = op_save ops s (en_host e) in (r, e\<lparr>en_host := h\<rparr>))"

definition store_load :: "'w host_ops \<Rightarrow> 'w engine \<Rightarrow> (ustring + state option) \<times> 'w engine" where
  "store_load ops e = (let (r, h) = op_load ops (en_host e) in (r, e\<lparr>en_host := h\<rparr>))"

definition persisted_state_after_failed_save_result ::
    "state option \<Rightarrow> state \<Rightarrow> state \<Rightarrow> persisted_state_after_failure" where
  "persisted_state_after_failed_save_result persisted previous candidate =
     (case persisted of
        Some persisted \<Rightarrow> if persisted = previous then PersistedPrevious else PersistedCandidateOrUnknown
      | None \<Rightarrow> PersistedCandidateOrUnknown)"

definition persisted_state_after_failed_save ::
    "'w host_ops \<Rightarrow> state \<Rightarrow> state \<Rightarrow> 'w engine \<Rightarrow> persisted_state_after_failure \<times> 'w engine" where
  "persisted_state_after_failed_save ops previous candidate e =
     (case store_load ops e of
        (Inr persisted, e) \<Rightarrow>
          (persisted_state_after_failed_save_result persisted previous candidate, e)
      | (Inl _, e) \<Rightarrow> (PersistedCandidateOrUnknown, e))"

definition cancel_learning_reservation :: "u64 \<Rightarrow> 'w engine \<Rightarrow> 'w engine" where
  "cancel_learning_reservation token e =
     (if en_learning_reservation e = Some token then e\<lparr>en_learning_reservation := None\<rparr> else e)"

definition persist_learning ::
    "'w host_ops \<Rightarrow> u64 \<Rightarrow> state \<Rightarrow> state \<Rightarrow> 'w engine \<Rightarrow> learning_store_outcome \<times> 'w engine" where
  "persist_learning ops token previous candidate e =
     (if en_learning_reservation e \<noteq> Some token then (LearningUnsafe, e)
      else
        let (outcome, e) =
          (case store_save ops candidate e of
             (Inr _, e) \<Rightarrow> (LearningSaved, e)
           | (Inl _, e) \<Rightarrow>
               (case persisted_state_after_failed_save ops previous candidate e of
                  (PersistedCandidateOrUnknown, e) \<Rightarrow>
                    (case store_save ops previous e of
                       (Inr _, e) \<Rightarrow> (LearningPreviousRetained, e)
                     | (Inl _, e) \<Rightarrow> (LearningUnsafe, e))
                | (PersistedPrevious, e) \<Rightarrow> (LearningPreviousRetained, e)))
        in (outcome, cancel_learning_reservation token e))"

text \<open>\<open>ApplicationLearningTransaction::persist\<close>, run by the learning thread.\<close>

definition learner_persist :: "'w host_ops \<Rightarrow> 'w engine \<Rightarrow> 'w engine" where
  "learner_persist ops e =
     (case en_learner e of
        PreparedTransaction t \<Rightarrow>
          let (outcome, e) = persist_learning ops (lt_token t) (lt_previous t) (lt_candidate t) e
          in e\<lparr>en_learner := PersistedTransaction t outcome\<rparr>
      | _ \<Rightarrow> e)"

definition wait_until_exclusive :: "'w host_ops \<Rightarrow> 'w engine \<Rightarrow> 'w engine" where
  "wait_until_exclusive ops e =
     (if en_learning_reservation e = None then e else learner_persist ops e)"

definition load_exclusive :: "'w host_ops \<Rightarrow> 'w engine \<Rightarrow> (ustring + state option) \<times> 'w engine" where
  "load_exclusive ops e = store_load ops (wait_until_exclusive ops e)"

definition save_exclusive :: "'w host_ops \<Rightarrow> state \<Rightarrow> 'w engine \<Rightarrow> (ustring + unit) \<times> 'w engine" where
  "save_exclusive ops s e = store_save ops s (wait_until_exclusive ops e)"

definition reserve_learning :: "u64 \<Rightarrow> 'w engine \<Rightarrow> (protocol_error + unit) \<times> 'w engine" where
  "reserve_learning token e =
     (if en_learning_reservation e \<noteq> None
      then (Inl (protocol_error_new Conflict (ascii
             ''another automatic-learning transaction is already being persisted'')), e)
      else (Inr (), e\<lparr>en_learning_reservation := Some token\<rparr>))"

definition engine_persisted_state_after_failed_save ::
    "'w host_ops \<Rightarrow> state \<Rightarrow> state \<Rightarrow> 'w engine \<Rightarrow> persisted_state_after_failure \<times> 'w engine" where
  "engine_persisted_state_after_failed_save ops previous candidate e =
     (case load_exclusive ops e of
        (Inr persisted, e) \<Rightarrow>
          (persisted_state_after_failed_save_result persisted previous candidate, e)
      | (Inl _, e) \<Rightarrow> (PersistedCandidateOrUnknown, e))"

section \<open>Emergency\<close>

definition enter_emergency_fail_closed :: "'w host_ops \<Rightarrow> engine_env \<Rightarrow> u64 \<Rightarrow> 'w engine \<Rightarrow> 'w engine" where
  "enter_emergency_fail_closed ops env revision_floor0 e =
     (let retained_state = (case en_pending_candidate e of Some s \<Rightarrow> s | None \<Rightarrow> en_state e);
          revision_floor = max revision_floor0 (st_revision retained_state);
          e = e\<lparr>en_poisoned := True, en_learning_persistence := LearningPaused,
                en_restart_required := False\<rparr> in
      case backend_fail_closed ops e of
        (Inr _, e) \<Rightarrow>
          (case state_from_snapshot (env_json env)
                  \<lparr>sn_revision = counter_increment revision_floor,
                   sn_flow_generation = st_flow_generation retained_state, sn_mode = BlockAll,
                   sn_rules = sn_rules (state_snapshot retained_state)\<rparr> of
             Inl _ \<Rightarrow> e\<lparr>en_fatal := True, en_restart_required := True\<rparr>
           | Inr fail_closed \<Rightarrow>
               (let e = replace_state fail_closed e;
                    e = e\<lparr>en_events := clear_counter_snapshot (en_events e)\<rparr> in
                case save_exclusive ops fail_closed e of
                  (Inr _, e) \<Rightarrow> e\<lparr>en_restart_required := True\<rparr>
                | (Inl _, e) \<Rightarrow> e))
      | (Inl _, e) \<Rightarrow> e\<lparr>en_fatal := True, en_restart_required := True\<rparr>)"

section \<open>Commit and rollback\<close>

definition publish_committed :: "event list \<Rightarrow> 'w engine \<Rightarrow> 'w engine" where
  "publish_committed events e =
     e\<lparr>en_events := bus_publish_all events (clear_counter_snapshot (en_events e))\<rparr>"

definition commit ::
    "'w host_ops \<Rightarrow> engine_env \<Rightarrow> state \<Rightarrow> event list \<Rightarrow> 'w engine \<Rightarrow> (protocol_error + unit) \<times> 'w engine" where
  "commit ops env candidate events e =
     (let previous = en_state e;
          revision_floor = max (st_revision previous) (st_revision candidate) in
      case backend_apply ops (state_snapshot candidate) e of
        (Inl _, e) \<Rightarrow>
          (case backend_apply ops (state_snapshot previous) e of
             (Inr _, e) \<Rightarrow>
               (Inl (protocol_error_new BackendUnavailable (ascii
                  ''firewall transaction failed; previous policy was reinstalled'')),
                e\<lparr>en_events := clear_counter_snapshot (en_events e)\<rparr>)
           | (Inl _, e) \<Rightarrow>
               (let e = enter_emergency_fail_closed ops env revision_floor e
                in (Inl (emergency_protocol_error e), e)))
      | (Inr _, e) \<Rightarrow>
          (case save_exclusive ops candidate e of
             (Inl _, e) \<Rightarrow>
               (let (backend_rollback, e) = backend_apply ops (state_snapshot previous) e;
                    (persisted, e) = engine_persisted_state_after_failed_save ops previous candidate e;
                    (storage_rollback, e) =
                      (case persisted of
                         PersistedPrevious \<Rightarrow> (Inr (), e)
                       | PersistedCandidateOrUnknown \<Rightarrow> save_exclusive ops previous e) in
                if \<not> is_ok backend_rollback \<or> \<not> is_ok storage_rollback
                then (let e = enter_emergency_fail_closed ops env revision_floor e
                      in (Inl (emergency_protocol_error e), e))
                else (Inl (protocol_error_new Internal (ascii
                        ''state persistence failed; previous policy restored'')), e))
           | (Inr _, e) \<Rightarrow>
               (Inr (), publish_committed events
                  ((replace_state candidate e)\<lparr>en_learning_persistence := LearningActive\<rparr>))))"

definition commit_block_all_during_learning ::
    "'w host_ops \<Rightarrow> engine_env \<Rightarrow> u64 \<Rightarrow> 'w engine \<Rightarrow> (protocol_error + u64) \<times> 'w engine" where
  "commit_block_all_during_learning ops env token e =
     tryS (ok_or (protocol_error_new Internal (ascii
             ''application learning transaction has no pending candidate'')) (en_pending_candidate e)) e
       (\<lambda>pending.
      case set_mode_at BlockAll (env_now env 0) pending of
        (Inl error, _) \<Rightarrow> (Inl (core_protocol_error env error), e)
      | (Inr event, blocked) \<Rightarrow>
     tryS (map_err (core_protocol_error env) (state_validate (env_json env) blocked)) e (\<lambda>_.
     let pending_events = en_pending_events e in
     case backend_fail_closed ops e of
       (Inl _, e) \<Rightarrow>
         (Inl fatal_protocol_error,
          e\<lparr>en_poisoned := True, en_fatal := True, en_restart_required := True,
            en_learning_persistence := LearningPaused\<rparr>)
     | (Inr _, e) \<Rightarrow>
         (let (persisted, e) =
            (case save_exclusive ops blocked e of
               (Inr _, e) \<Rightarrow> (Inr (), e)
             | (Inl _, e) \<Rightarrow> save_exclusive ops blocked e);
              e = (replace_state blocked e)\<lparr>en_superseded_learning_transaction := Some token\<rparr> in
          if \<not> is_ok persisted
          then (let e = e\<lparr>en_poisoned := True, en_learning_persistence := LearningPaused,
                          en_restart_required := False\<rparr>
                in (Inl (emergency_protocol_error e), e))
          else (Inr (st_revision blocked),
                publish_committed (pending_events @ [event])
                  (e\<lparr>en_learning_persistence := LearningActive\<rparr>)))))"

section \<open>Control requests\<close>

text \<open>A failed step of a candidate discards the candidate.\<close>

definition core_step ::
    "engine_env \<Rightarrow> (core_error + 'a) \<times> state \<Rightarrow> protocol_error + 'a \<times> state" where
  "core_step env m =
     (case m of (Inl e, _) \<Rightarrow> Inl (core_protocol_error env e) | (Inr x, s) \<Rightarrow> Inr (x, s))"

definition pin_step :: "engine_env \<Rightarrow> nat \<Rightarrow> rule_spec \<Rightarrow> protocol_error + rule_spec" where
  "pin_step env n spec =
     map_err (pin_protocol_error env) (pin_rule_application (env_file_system env n) spec)"

definition rule_missing :: "engine_env \<Rightarrow> uuid \<Rightarrow> protocol_error" where
  "rule_missing env i =
     protocol_error_new NotFound (ascii ''rule '' @ env_uuid_text env i @ ascii '' does not exist'')"

definition control_set_rule_enabled ::
    "engine_env \<Rightarrow> nat \<Rightarrow> uuid \<Rightarrow> bool \<Rightarrow> state \<Rightarrow> protocol_error + (event list \<times> rule option) \<times> state" where
  "control_set_rule_enabled env n i enabled candidate =
     bindE (ok_or (rule_missing env i) (state_rule candidate i)) (\<lambda>current.
     bindE (if enabled \<and> (spec_origin (rule_spec current) = Template
                \<or> is_some_and (spec_application (rule_spec current))
                    (\<lambda>selector. sel_executable_file selector = None))
            then bindE (pin_step env n (rule_spec current)) (\<lambda>specification.
                 core_step env (update_rule_at i (specification\<lparr>spec_enabled := True\<rparr>) (env_now env n) candidate))
            else core_step env (set_rule_enabled_at i enabled (env_now env n) candidate))
       (\<lambda>((updated, event), candidate). Inr (([event], Some updated), candidate)))"

fun group_action_verdict :: "outbound_group_action \<Rightarrow> rule_action" where
  "group_action_verdict GroupReject = Reject"
| "group_action_verdict GroupDrop = Drop"
| "group_action_verdict _ = Accept"

definition group_member_step ::
    "engine_env \<Rightarrow> outbound_group_action \<Rightarrow> nat \<Rightarrow> rule \<Rightarrow> state \<Rightarrow> protocol_error + event list \<times> state" where
  "group_member_step env action n member candidate =
     (case action of
        GroupDelete \<Rightarrow>
          bindE (core_step env (delete_rule_at (rule_id member) (env_now env n) candidate))
            (\<lambda>((_, event), candidate). Inr ([event], candidate))
      | GroupEnable \<Rightarrow>
          bindE (control_set_rule_enabled env n (rule_id member) True candidate)
            (\<lambda>((changed, _), candidate). Inr (changed, candidate))
      | GroupDisable \<Rightarrow>
          bindE (control_set_rule_enabled env n (rule_id member) False candidate)
            (\<lambda>((changed, _), candidate). Inr (changed, candidate))
      | _ \<Rightarrow>
          let specification = (rule_spec member)\<lparr>spec_action := group_action_verdict action\<rparr> in
          bindE (if spec_action specification \<noteq> Accept
                    \<and> is_some_and (spec_application specification)
                        (\<lambda>selector. sel_executable_file selector = None)
                 then pin_step env n specification else Inr specification) (\<lambda>specification.
          bindE (core_step env (update_rule_at (rule_id member) specification (env_now env n) candidate))
            (\<lambda>((_, event), candidate). Inr ([event], candidate))))"

fun group_members_loop ::
    "engine_env \<Rightarrow> outbound_group_action \<Rightarrow> nat \<Rightarrow> rule list \<Rightarrow> event list \<Rightarrow> state
     \<Rightarrow> protocol_error + event list \<times> state" where
  "group_members_loop env action n [] events candidate = Inr (events, candidate)"
| "group_members_loop env action n (member # members) events candidate =
     bindE (group_member_step env action n member candidate) (\<lambda>(changed, candidate).
     group_members_loop env action (Suc n) members (events @ changed) candidate)"

definition apply_outbound_group_to_candidate ::
    "engine_env \<Rightarrow> outbound_group_selector \<Rightarrow> outbound_group_action \<Rightarrow> state
     \<Rightarrow> protocol_error + event list \<times> state" where
  "apply_outbound_group_to_candidate env grp action candidate =
     (let members = filter (group_matches (env_net_trunc env) grp) (omap_values (st_rules candidate)) in
      bindE (fail_if (members = []) (protocol_error_new NotFound (ascii
               ''outbound group has no matching rules; reload before retrying'')))
     (\<lambda>_. group_members_loop env action 0 members [] candidate))"

fun apply_control_to_candidate ::
    "engine_env \<Rightarrow> control_request \<Rightarrow> state \<Rightarrow> protocol_error + (event list \<times> rule option) \<times> state" where
  "apply_control_to_candidate env (SetEnforcement _ strategy) candidate =
     bindE (core_step env (enforce_at strategy (env_now env 0) candidate))
       (\<lambda>(event, candidate). Inr (([event], None), candidate))"
| "apply_control_to_candidate env (SetMode _ m) candidate =
     bindE (core_step env (set_mode_at m (env_now env 0) candidate))
       (\<lambda>(event, candidate). Inr (([event], None), candidate))"
| "apply_control_to_candidate env (CreateRule _ rule) candidate =
     bindE (fail_if (spec_origin rule \<noteq> Manual) (protocol_error_new InvalidRequest (ascii
              ''only the daemon may create rules marked as learned or template''))) (\<lambda>_.
     bindE (pin_step env 0 rule) (\<lambda>rule.
     bindE (core_step env (create_rule (env_draws env 0) rule candidate))
       (\<lambda>((created, event), candidate). Inr (([event], Some created), candidate))))"
| "apply_control_to_candidate env (UpdateRule _ i rule) candidate =
     bindE (ok_or (rule_missing env i) (state_rule candidate i)) (\<lambda>current.
     bindE (fail_if (spec_origin (rule_spec current) \<noteq> spec_origin rule)
              (protocol_error_new InvalidRequest (ascii ''a rule's origin cannot be changed''))) (\<lambda>_.
     bindE (pin_step env 0 rule) (\<lambda>rule.
     bindE (core_step env (update_rule_at i rule (env_now env 0) candidate))
       (\<lambda>((updated, event), candidate). Inr (([event], Some updated), candidate)))))"
| "apply_control_to_candidate env (DeleteRule _ i) candidate =
     bindE (core_step env (delete_rule_at i (env_now env 0) candidate))
       (\<lambda>((deleted, event), candidate). Inr (([event], Some deleted), candidate))"
| "apply_control_to_candidate env (SetRuleEnabled _ i enabled) candidate =
     control_set_rule_enabled env 0 i enabled candidate"
| "apply_control_to_candidate env (ManageOutboundGroup _ grp action) candidate =
     bindE (apply_outbound_group_to_candidate env grp action candidate)
       (\<lambda>(events, candidate). Inr ((events, None), candidate))"

fun requests_block_all :: "control_request \<Rightarrow> bool" where
  "requests_block_all (SetMode _ m) = (m = BlockAll)"
| "requests_block_all _ = False"

definition handle_control ::
    "'w host_ops \<Rightarrow> engine_env \<Rightarrow> control_request \<Rightarrow> 'w engine \<Rightarrow> (protocol_error + ack) \<times> 'w engine" where
  "handle_control ops env request e =
     (if en_poisoned e
      then (Inl (protocol_error_new BackendUnavailable (ascii
             ''policy engine is locked after a failed rollback'')), e)
      else if expected_revision request \<noteq> st_revision (en_state e)
      then (Inl (protocol_error_new Conflict (ascii ''policy revision changed: expected ''
              @ dec_string (unat (expected_revision request)) @ ascii '', current ''
              @ dec_string (unat (st_revision (en_state e))) @ ascii ''; reload before retrying'')), e)
      else case en_learning_persistence e of
          LearningInFlight token \<Rightarrow>
            if requests_block_all request
            then thenS (commit_block_all_during_learning ops env token e)
                   (\<lambda>revision e. (Inr (ack_new revision None), e))
            else (Inl (protocol_error_new Conflict (ascii
                   ''automatic learning is being persisted; retry the privileged change'')), e)
        | _ \<Rightarrow>
            tryS (apply_control_to_candidate env request (en_state e)) e
              (\<lambda>((events, affected_rule), candidate).
            tryS (map_err (core_protocol_error env) (state_validate (env_json env) candidate)) e (\<lambda>_.
            thenS (commit ops env candidate events e) (\<lambda>_ e.
            (Inr (ack_new (st_revision candidate) affected_rule), e)))))"

section \<open>Automatic learning\<close>

definition is_valid_learned_rule :: "rule \<Rightarrow> bool" where
  "is_valid_learned_rule r \<longleftrightarrow>
     spec_origin (rule_spec r) = Learned \<and> spec_direction (rule_spec r) = Outbound
     \<and> spec_action (rule_spec r) = Accept \<and> spec_enabled (rule_spec r)
     \<and> spec_application (rule_spec r) \<noteq> None"

definition is_valid_template :: "rule \<Rightarrow> bool" where
  "is_valid_template r \<longleftrightarrow>
     spec_origin (rule_spec r) = Template \<and> spec_direction (rule_spec r) = Outbound
     \<and> spec_action (rule_spec r) = Accept \<and> spec_protocol (rule_spec r) = Any
     \<and> spec_peer_network (rule_spec r) = None \<and> spec_port (rule_spec r) = None
     \<and> spec_interface (rule_spec r) = None \<and> \<not> spec_enabled (rule_spec r)
     \<and> is_some_and (spec_application (rule_spec r)) (\<lambda>selector.
         sel_executable selector \<noteq> None \<and> sel_executable_file selector = None
         \<and> sel_command_line selector = None \<and> sel_uid selector = None
         \<and> \<not> sel_metadata_redacted selector)"

text \<open>The loop over the events, with the revision expected so far: \<open>None\<close> is the early
  \<open>return false\<close>.\<close>

fun learning_events_revision :: "state \<Rightarrow> state \<Rightarrow> u64 \<Rightarrow> event list \<Rightarrow> u64 option" where
  "learning_events_revision previous candidate expected [] = Some expected"
| "learning_events_revision previous candidate expected (event # events) =
     (if expected = - 1 then None
      else let following = expected + 1 in
        case ev_kind event of
          RuleCreated r \<Rightarrow>
            if ev_revision event \<noteq> following
               \<or> \<not> (is_valid_learned_rule r \<or> is_valid_template r)
               \<or> state_rule previous (rule_id r) \<noteq> None
               \<or> state_rule candidate (rule_id r) \<noteq> Some r
            then None
            else learning_events_revision previous candidate following events
        | _ \<Rightarrow> None)"

definition validate_application_learning_transition :: "state \<Rightarrow> state \<Rightarrow> event list \<Rightarrow> bool" where
  "validate_application_learning_transition previous candidate events =
     (if st_mode candidate \<noteq> Learning
         \<or> st_enforcement_strategy candidate \<noteq> st_enforcement_strategy previous
         \<or> st_flow_generation candidate \<noteq> st_flow_generation previous
         \<or> length (st_rules candidate)
             \<noteq> saturating_add_usize (length (st_rules previous)) (length events)
         \<or> list_ex (\<lambda>r. state_rule candidate (rule_id r) \<noteq> Some r) (omap_values (st_rules previous))
      then False
      else learning_events_revision previous candidate (st_revision previous) events
             = Some (st_revision candidate))"

definition record_learning_quota_skipped :: "nat \<Rightarrow> 'w engine \<Rightarrow> 'w engine" where
  "record_learning_quota_skipped n e =
     e\<lparr>en_quota_skipped_observations := (counter_increment ^^ n) (en_quota_skipped_observations e)\<rparr>"

definition application_learning_queue_admission ::
    "engine_env \<Rightarrow> mode \<Rightarrow> u32 \<Rightarrow> learned_application_endpoint \<Rightarrow> 'w engine
     \<Rightarrow> (protocol_error + learning_queue_admission) \<times> 'w engine" where
  "application_learning_queue_admission env expected_mode expected_flow_generation endpoint e =
     tryS (fail_if (en_fatal e \<or> en_poisoned e) (emergency_protocol_error e)) e (\<lambda>_.
     tryS (fail_if (expected_mode \<noteq> Learning \<or> st_mode (en_state e) \<noteq> expected_mode
                     \<or> st_flow_generation (en_state e) \<noteq> expected_flow_generation)
             (protocol_error_new Conflict (ascii
                ''policy changed while the application learning endpoint was attributed''))) e (\<lambda>_.
     let current = en_application_learning_admission e in
     tryS (fail_if (ai_revision current \<noteq> st_revision (en_state e)
                     \<or> ai_mode current \<noteq> st_mode (en_state e)
                     \<or> ai_flow_generation current \<noteq> st_flow_generation (en_state e))
             (protocol_error_new Internal (ascii
                ''application learning admission cache is not current''))) e (\<lambda>_.
     if en_learning_persistence e = LearningPaused then (Inr QueuePersistencePaused, e)
     else
       tryS (case en_learning_persistence e of
               LearningInFlight _ \<Rightarrow>
                 ok_or (protocol_error_new Internal (ascii
                   ''application learning transaction has no pending admission index''))
                   (en_pending_admission e)
             | _ \<Rightarrow> Inr current) e (\<lambda>admission.
       tryS (map_err (\<lambda>error. protocol_error_new InvalidRequest (env_application_text env error))
               (index_classify (env_net_from env) admission endpoint)) e (\<lambda>class.
       case class of
         AlreadyKnown \<Rightarrow> (Inr QueueAlreadyKnown, e)
       | Saturated \<Rightarrow> (Inr QueueSaturated, record_learning_quota_skipped 1 e)
       | Candidate \<Rightarrow> (Inr QueueEnqueue, e))))))"

definition prepare_application_learning ::
    "engine_env \<Rightarrow> u32 \<Rightarrow> learned_application_endpoint list \<Rightarrow> 'w engine
     \<Rightarrow> (protocol_error + learning_transaction option) \<times> 'w engine" where
  "prepare_application_learning env expected_flow_generation endpoints e =
     (if en_poisoned e \<or> en_learning_persistence e \<noteq> LearningActive
         \<or> st_mode (en_state e) \<noteq> Learning
         \<or> st_flow_generation (en_state e) \<noteq> expected_flow_generation
      then (Inr None, e)
      else
        let previous = en_state e;
            valid_endpoints = filter (\<lambda>endpoint. is_ok (learned_application_endpoint_validate endpoint))
              (take MAX_RULES endpoints) in
        case learn_new_application_endpoints_with_limits (env_net_from env) (env_draws env)
               valid_endpoints MAX_LEARNED_RULES_PER_POLL (en_learning_limits e) previous of
          (Inl error, _) \<Rightarrow> (Inl (core_protocol_error env error), e)
        | (Inr outcomes, candidate) \<Rightarrow>
            let resulting_admission = build_application_learning_admission candidate (en_learning_limits e);
                skipped = length (filter (\<lambda>endpoint.
                  index_classify (env_net_from env) resulting_admission endpoint = Inr Saturated)
                  valid_endpoints);
                e = record_learning_quota_skipped skipped e;
                events = List.map_filter lo_event outcomes in
            if events = [] then (Inr None, e)
            else
              case state_validate (env_json env) candidate of
                Inl error \<Rightarrow>
                  (case error of
                     StateSizeLimitReached _ \<Rightarrow> (Inr None, e\<lparr>en_learning_persistence := LearningPaused\<rparr>)
                   | _ \<Rightarrow> (Inl (core_protocol_error env error), e))
              | Inr _ \<Rightarrow>
                  if \<not> validate_application_learning_transition previous candidate events
                  then (Inl (protocol_error_new Internal (ascii
                         ''automatic learning produced an invalid policy transition'')), e)
                  else
                    tryS (fail_if (en_next_learning_transaction e = - 1) (protocol_error_new Conflict (ascii
                            ''automatic-learning transaction counter is exhausted''))) e (\<lambda>_.
                    let token = en_next_learning_transaction e + 1;
                        transaction = \<lparr>lt_token = token, lt_previous = previous,
                          lt_candidate = candidate, lt_events = events\<rparr> in
                    thenS (reserve_learning token e) (\<lambda>_ e.
                    (Inr (Some transaction),
                     e\<lparr>en_next_learning_transaction := token,
                       en_pending_admission :=
                         Some (build_application_learning_admission candidate (en_learning_limits e)),
                       en_pending_candidate := Some candidate,
                       en_pending_events := events,
                       en_learning_persistence := LearningInFlight token,
                       en_learner := PreparedTransaction transaction\<rparr>))))"

definition finalize_application_learning ::
    "'w host_ops \<Rightarrow> engine_env \<Rightarrow> learning_transaction \<Rightarrow> learning_store_outcome \<Rightarrow> 'w engine
     \<Rightarrow> (protocol_error + nat) \<times> 'w engine" where
  "finalize_application_learning ops env transaction outcome e0 =
     (let e = e0\<lparr>en_learner := NoTransaction\<rparr>;
          token = lt_token transaction;
          revision_floor = max (st_revision (en_state e)) (st_revision (lt_candidate transaction)) in
      if en_superseded_learning_transaction e = Some token
      then (Inr 0, e\<lparr>en_superseded_learning_transaction := None\<rparr>)
      else if en_fatal e \<or> en_poisoned e then (Inl (emergency_protocol_error e), e)
      else if en_learning_persistence e \<noteq> LearningInFlight token \<or> en_state e \<noteq> lt_previous transaction
      then (let e = enter_emergency_fail_closed ops env revision_floor e
            in (Inl (emergency_protocol_error e), e))
      else case outcome of
          LearningSaved \<Rightarrow>
            (Inr (length (lt_events transaction)),
             publish_committed (lt_events transaction)
               ((replace_state (lt_candidate transaction) e)\<lparr>en_learning_persistence := LearningActive\<rparr>))
        | LearningPreviousRetained \<Rightarrow>
            (Inr 0, (clear_pending_application_learning e)\<lparr>en_learning_persistence := LearningPaused\<rparr>)
        | LearningUnsafe \<Rightarrow>
            (let e = enter_emergency_fail_closed ops env revision_floor e
             in (Inl (emergency_protocol_error e), e)))"

section \<open>Monitoring, repair and quarantine\<close>

definition publish_counters_if_current ::
    "u64 \<Rightarrow> firewall_counters \<Rightarrow> timestamp \<Rightarrow> 'w engine \<Rightarrow> bool \<times> 'w engine" where
  "publish_counters_if_current expected counters now e =
     (if en_poisoned e \<or> st_revision (en_state e) \<noteq> expected then (False, e)
      else (True, e\<lparr>en_events := bus_publish (counters_event (en_state e) counters now) (en_events e)\<rparr>))"

definition restart_required :: "'w engine \<Rightarrow> bool" where
  "restart_required e \<longleftrightarrow> en_restart_required e \<or> en_fatal e"

definition repair_policy ::
    "'w host_ops \<Rightarrow> engine_env \<Rightarrow> u64 \<Rightarrow> 'w engine \<Rightarrow> (protocol_error + bool) \<times> 'w engine" where
  "repair_policy ops env expected e =
     (if en_poisoned e then (Inl (emergency_protocol_error e), e)
      else if restart_required e
      then (Inl (if en_fatal e then fatal_protocol_error else restart_protocol_error), e)
      else if st_revision (en_state e) \<noteq> expected then (Inr False, e)
      else
        let previous = en_state e in
        case backend_apply ops (state_snapshot previous) e of
          (Inr _, e) \<Rightarrow> (Inr True, e\<lparr>en_events := clear_counter_snapshot (en_events e)\<rparr>)
        | (Inl _, e) \<Rightarrow>
            (let e = enter_emergency_fail_closed ops env (st_revision previous) e
             in (Inl (emergency_protocol_error e), e)))"

definition quarantine_after_runtime_failure :: "'w host_ops \<Rightarrow> engine_env \<Rightarrow> 'w engine \<Rightarrow> 'w engine" where
  "quarantine_after_runtime_failure ops env e =
     (if en_startup_policy e = StartupPending
      then
        let e = e\<lparr>en_poisoned := True, en_learning_persistence := LearningPaused\<rparr> in
        case backend_fail_closed ops e of
          (Inl _, e) \<Rightarrow> e\<lparr>en_fatal := True\<rparr>
        | (Inr _, e) \<Rightarrow> e
      else if \<not> en_poisoned e \<and> \<not> en_fatal e
      then enter_emergency_fail_closed ops env (st_revision (en_state e)) e
      else e)"

definition quarantine_after_engine_poison :: "'w host_ops \<Rightarrow> 'w engine \<Rightarrow> 'w engine" where
  "quarantine_after_engine_poison ops e =
     snd (backend_fail_closed ops
       (e\<lparr>en_poisoned := True, en_fatal := True, en_restart_required := True,
          en_learning_persistence := LearningPaused,
          en_events := clear_counter_snapshot (en_events e)\<rparr>))"

definition install_shutdown_quarantine :: "'w host_ops \<Rightarrow> 'w engine \<Rightarrow> (ustring + unit) \<times> 'w engine" where
  "install_shutdown_quarantine ops e =
     (case backend_fail_closed ops e of
        (Inr _, e) \<Rightarrow> (Inr (), e\<lparr>en_events := clear_counter_snapshot (en_events e)\<rparr>)
      | (Inl error, e) \<Rightarrow> (Inl error, e\<lparr>en_poisoned := True, en_fatal := True\<rparr>))"

section \<open>Startup\<close>

definition rotate_startup_flow_generation :: "state \<Rightarrow> (string + unit) \<times> state" where
  "rotate_startup_flow_generation s =
     (if MAX_FLOW_GENERATION \<le> st_flow_generation s
      then (Inl ''startup flow-authorization epochs are exhausted'', s)
      else case rotate_flow_generation (st_flow_generation s + 1) s of
          (Inl _, s) \<Rightarrow> (Inl ''cannot rotate the startup flow-authorization epoch'', s)
        | (Inr _, s) \<Rightarrow> (Inr (), s))"

definition engine_initial :: "learning_limits \<Rightarrow> event_bus \<Rightarrow> state \<Rightarrow> 'w \<Rightarrow> 'w engine" where
  "engine_initial limits events s host =
     \<lparr>en_state = s, en_learning_limits = limits, en_quota_skipped_observations = 0,
      en_application_policy = build_application_decision_policy s,
      en_application_learning_admission = build_application_learning_admission s limits,
      en_pending_admission = None, en_pending_candidate = None, en_pending_events = [],
      en_events = events, en_nfqueue_counters = counters_default,
      en_poisoned = False, en_fatal = False, en_restart_required = False,
      en_startup_policy = StartupPending, en_learning_persistence = LearningActive,
      en_next_learning_transaction = 0, en_superseded_learning_transaction = None,
      en_learning_reservation = None, en_learner = NoTransaction, en_host = host\<rparr>"

text \<open>The state that startup continues with: the loaded one, re-epoched, migrated and saved, or a
  fresh Learning state. No learning transaction exists yet, so nothing waits for the store.\<close>

definition startup_state ::
    "'w host_ops \<Rightarrow> engine_env \<Rightarrow> 'w \<Rightarrow> (string + state) \<times> 'w" where
  "startup_state ops env host =
     (case op_load ops host of
        (Inr (Some loaded), host) \<Rightarrow>
          (case rotate_startup_flow_generation loaded of
             (Inl error, _) \<Rightarrow> (Inl error, host)
           | (Inr _, rotated) \<Rightarrow>
               (case ensure_application_group_templates (env_json env) (env_draws env) MAX_RULES rotated of
                  (Inl _, _) \<Rightarrow> (Inl ''cannot migrate application group templates'', host)
                | (Inr _, s) \<Rightarrow>
                    (case op_save ops s host of
                       (Inr _, host) \<Rightarrow> (Inr s, host)
                     | (Inl _, host) \<Rightarrow>
                         (case op_fail_closed ops host of
                            (Inr _, host) \<Rightarrow>
                              (Inl ''new startup flow epoch could not be persisted; fail-closed policy retained'', host)
                          | (Inl _, host) \<Rightarrow>
                              (Inl ''startup flow epoch persistence failed; fail-closed policy also failed'', host)))))
      | (Inr None, host) \<Rightarrow>
          (case set_mode_at Learning (env_now env 0) state_new of
             (Inl _, _) \<Rightarrow> (Inl ''cannot construct the initial Learning policy'', host)
           | (Inr _, learning) \<Rightarrow>
               (case rotate_startup_flow_generation learning of
                  (Inl error, _) \<Rightarrow> (Inl error, host)
                | (Inr _, s) \<Rightarrow>
                    (case op_save ops s host of
                       (Inr _, host) \<Rightarrow> (Inr s, host)
                     | (Inl _, host) \<Rightarrow>
                         (Inl ''cannot persist the initial Learning policy; BlockAll remains active'', host))))
      | (Inl _, host) \<Rightarrow>
          (case op_fail_closed ops host of
             (Inr _, host) \<Rightarrow>
               (Inl ''persisted state is unsafe or invalid; fail-closed policy installed'', host)
           | (Inl _, host) \<Rightarrow>
               (Inl ''persisted state failed validation; fail-closed policy also failed'', host)))"

definition load_with_learning_limits ::
    "'w host_ops \<Rightarrow> engine_env \<Rightarrow> event_bus \<Rightarrow> learning_limits \<Rightarrow> 'w \<Rightarrow> (string + 'w engine) \<times> 'w" where
  "load_with_learning_limits ops env events limits host =
     (case op_fail_closed ops host of
        (Inl _, host) \<Rightarrow> (Inl ''cannot establish the startup BlockAll quarantine'', host)
      | (Inr _, host) \<Rightarrow>
          (case startup_state ops env host of
             (Inl error, host) \<Rightarrow> (Inl error, host)
           | (Inr s, host) \<Rightarrow> (Inr (engine_initial limits events s host), host)))"

definition activate_startup_policy :: "'w host_ops \<Rightarrow> 'w engine \<Rightarrow> (string + unit) \<times> 'w engine" where
  "activate_startup_policy ops e =
     (if en_startup_policy e = StartupActive then (Inr (), e)
      else case backend_apply ops (state_snapshot (en_state e)) e of
          (Inl _, e) \<Rightarrow>
            (case backend_fail_closed ops e of
               (Inr _, e) \<Rightarrow> (Inl ''startup policy could not be applied; BlockAll was retained'', e)
             | (Inl _, e) \<Rightarrow> (Inl ''startup policy failed; retaining BlockAll also failed'', e))
        | (Inr _, e) \<Rightarrow> (Inr (), e\<lparr>en_startup_policy := StartupActive\<rparr>))"

section \<open>Reading\<close>

definition subscription_revision :: "'w engine \<Rightarrow> protocol_error + u64" where
  "subscription_revision e =
     (if en_fatal e then Inl fatal_protocol_error else Inr (st_revision (en_state e)))"

definition application_decision_snapshot :: "'w engine \<Rightarrow> protocol_error + decision_policy" where
  "application_decision_snapshot e =
     (if en_fatal e \<or> en_poisoned e then Inl (emergency_protocol_error e)
      else Inr (en_application_policy e))"

definition application_decision_identity :: "'w engine \<Rightarrow> protocol_error + mode \<times> u32" where
  "application_decision_identity e =
     (if en_fatal e \<or> en_poisoned e then Inl (emergency_protocol_error e)
      else Inr (st_mode (en_state e), st_flow_generation (en_state e)))"

definition u32_saturating :: "nat \<Rightarrow> u32" where
  "u32_saturating n = (if n < 2 ^ 32 then of_nat n else - 1)"

definition engine_runtime_compatibility :: "'w host_ops \<Rightarrow> 'w engine \<Rightarrow> runtime_compatibility" where
  "engine_runtime_compatibility ops e =
     (if en_poisoned e \<and> st_mode (en_state e) = BlockAll
      then \<lparr>rc_level = KernelNative, rc_reason = EmergencyBlockAll\<rparr>
      else for_policy (op_kind ops (en_host e)) (st_mode (en_state e))
             (state_application_interception (en_state e)))"

definition engine_learning_status :: "'w engine \<Rightarrow> learning_status" where
  "engine_learning_status e =
     (let summary = index_summary (en_application_learning_admission e) in
      \<lparr>ls_per_uid_limit = u32_saturating (ll_per_uid (en_learning_limits e)),
       ls_per_application_limit = u32_saturating (ll_per_application (en_learning_limits e)),
       ls_automatic_rule_limit = u32_saturating MAX_AUTOMATIC_LEARNED_RULES,
       ls_total_rule_limit = u32_saturating MAX_RULES,
       ls_automatic_rules = u32_saturating (qs_automatic_rules summary),
       ls_saturated_uids = u32_saturating (qs_saturated_uids summary),
       ls_saturated_applications = u32_saturating (qs_saturated_applications summary),
       ls_quota_skipped_observations = en_quota_skipped_observations e\<rparr>)"

definition status_response :: "'w host_ops \<Rightarrow> 'w engine \<Rightarrow> response" where
  "status_response ops e =
     (if en_fatal e then ErrorResponse fatal_protocol_error
      else Status (st_revision (en_state e)) (st_mode (en_state e))
             (u32_saturating (length (st_rules (en_state e)))) (op_kind ops (en_host e))
             (en_nfqueue_counters e))"

definition status_v2_response :: "'w host_ops \<Rightarrow> 'w engine \<Rightarrow> response" where
  "status_v2_response ops e =
     (if en_fatal e then ErrorResponse fatal_protocol_error
      else StatusV2 (st_revision (en_state e)) (st_mode (en_state e))
             (u32_saturating (length (st_rules (en_state e)))) (op_kind ops (en_host e))
             (en_nfqueue_counters e) (engine_runtime_compatibility ops e))"

definition status_v3_response :: "'w host_ops \<Rightarrow> 'w engine \<Rightarrow> response" where
  "status_v3_response ops e =
     (if en_fatal e then ErrorResponse fatal_protocol_error
      else StatusV3 (st_revision (en_state e)) (st_mode (en_state e))
             (u32_saturating (length (st_rules (en_state e)))) (op_kind ops (en_host e))
             (en_nfqueue_counters e) (engine_runtime_compatibility ops e) (engine_learning_status e))"

definition status_v4_response :: "'w host_ops \<Rightarrow> 'w engine \<Rightarrow> response" where
  "status_v4_response ops e =
     (if en_fatal e then ErrorResponse fatal_protocol_error
      else StatusV4 (st_revision (en_state e)) (st_mode (en_state e))
             (u32_saturating (length (st_rules (en_state e)))) (op_kind ops (en_host e))
             (en_nfqueue_counters e) (engine_runtime_compatibility ops e) (engine_learning_status e)
             (st_enforcement_strategy (en_state e)))"

definition rules_page :: "state \<Rightarrow> uuid option \<Rightarrow> u16 \<Rightarrow> rule list \<times> uuid option" where
  "rules_page s after requested_limit =
     (let limit = unat (clamp_page_limit requested_limit);
          matching = rules_after s after;
          rules = take limit matching in
      (rules, if drop limit matching = [] then None
              else if rules = [] then None else Some (rule_id (last rules))))"

definition rules_page_response :: "uuid option \<Rightarrow> u16 \<Rightarrow> 'w engine \<Rightarrow> response" where
  "rules_page_response after requested_limit e =
     (if en_fatal e then ErrorResponse fatal_protocol_error
      else let (rules, next_after) = rules_page (en_state e) after requested_limit
           in RulesPage (st_revision (en_state e)) rules next_after)"

end
