(* ===== verification/Engine_Invariant.thy ===== *)
theory Engine_Invariant
  imports Engine Learning_Properties Snapshot_Properties
begin

text \<open>
  The invariant of the policy engine: what the kernel runs and what is on disk, whatever fails.
  The firewall backend and the state store are the interface \<open>policy_host\<close>: what the engine relies
  on is only that a call that reports success did what it says, that the two do not touch each
  other, and that a load returns what is stored and valid. Calls that report a failure may leave
  anything behind.
\<close>

section \<open>Backend and store as an interface\<close>

datatype kernel_policy = InstalledPolicy snapshot | InstalledBlockAll | UnknownPolicy

locale policy_host =
  fixes ops :: "'w host_ops"
    and kern :: "'w \<Rightarrow> kernel_policy"
    and disk :: "'w \<Rightarrow> state option"
  assumes apply_ok: "op_apply ops sn h = (Inr u, h') \<Longrightarrow> kern h' = InstalledPolicy sn"
    and apply_disk: "op_apply ops sn h = (r, h') \<Longrightarrow> disk h' = disk h"
    and fail_closed_ok: "op_fail_closed ops h = (Inr u, h') \<Longrightarrow> kern h' = InstalledBlockAll"
    and fail_closed_disk: "op_fail_closed ops h = (r, h') \<Longrightarrow> disk h' = disk h"
    and load_ok: "op_load ops h = (Inr stored, h') \<Longrightarrow> stored = disk h"
    and load_valid: "op_load ops h = (Inr (Some s), h') \<Longrightarrow> state_inv s"
    and load_keeps: "op_load ops h = (l, h') \<Longrightarrow> disk h' = disk h \<and> kern h' = kern h"
    and save_ok: "op_save ops s h = (Inr u, h') \<Longrightarrow> disk h' = Some s"
    and save_kernel: "op_save ops s h = (r, h') \<Longrightarrow> kern h' = kern h"

section \<open>The invariant\<close>

text \<open>The kernel runs the policy of the state, or, while learning, the policy of the state before
  the accept rules that were learned since.\<close>

definition agrees :: "kernel_policy \<Rightarrow> state \<Rightarrow> bool" where
  "agrees k s \<longleftrightarrow> (\<exists>s0. k = InstalledPolicy (state_snapshot s0)
     \<and> (s0 = s \<or> st_mode s = Learning \<and> learning_grows s0 s))"

definition caches_current :: "'w engine \<Rightarrow> bool" where
  "caches_current e \<longleftrightarrow>
     en_application_policy e = build_application_decision_policy (en_state e)
     \<and> en_application_learning_admission e
         = build_application_learning_admission (en_state e) (en_learning_limits e)"

text \<open>A reservation of the store is always held by the learning thread's transaction, so waiting
  for it ends.\<close>

definition reserved_by_learner :: "'w engine \<Rightarrow> bool" where
  "reserved_by_learner e \<longleftrightarrow> (\<forall>token. en_learning_reservation e = Some token
     \<longrightarrow> (\<exists>t. en_learner e = PreparedTransaction t \<and> lt_token t = token))"

definition transaction_based_on :: "learning_transaction \<Rightarrow> 'w engine \<Rightarrow> bool" where
  "transaction_based_on t e \<longleftrightarrow>
     en_learning_persistence e = LearningInFlight (lt_token t)
     \<and> en_superseded_learning_transaction e = None
     \<and> lt_previous t = en_state e \<and> en_pending_candidate e = Some (lt_candidate t)
     \<and> st_mode (en_state e) = Learning \<and> learning_grows (en_state e) (lt_candidate t)
     \<and> state_inv (lt_candidate t)"

definition no_transaction_pending :: "'w engine \<Rightarrow> bool" where
  "no_transaction_pending e \<longleftrightarrow>
     (\<forall>token. en_learning_persistence e \<noteq> LearningInFlight token) \<and> en_pending_candidate e = None"

definition durable :: "('w \<Rightarrow> state option) \<Rightarrow> 'w engine \<Rightarrow> bool" where
  "durable disk e =
     (case en_learner e of
        NoTransaction \<Rightarrow>
          en_learning_reservation e = None \<and> no_transaction_pending e
          \<and> en_superseded_learning_transaction e = None \<and> disk (en_host e) = Some (en_state e)
      | PreparedTransaction t \<Rightarrow>
          en_learning_reservation e = Some (lt_token t) \<and> transaction_based_on t e
          \<and> disk (en_host e) = Some (en_state e)
      | PersistedTransaction t outcome \<Rightarrow>
          en_learning_reservation e = None
          \<and> (en_superseded_learning_transaction e = Some (lt_token t) \<and> no_transaction_pending e
               \<and> disk (en_host e) = Some (en_state e)
             \<or> transaction_based_on t e
               \<and> (outcome = LearningSaved \<longrightarrow> disk (en_host e) = Some (lt_candidate t))
               \<and> (outcome = LearningPreviousRetained \<longrightarrow> disk (en_host e) = Some (en_state e))))"

definition running :: "('w \<Rightarrow> kernel_policy) \<Rightarrow> ('w \<Rightarrow> state option) \<Rightarrow> 'w engine \<Rightarrow> bool" where
  "running kern disk e \<longleftrightarrow> \<not> en_restart_required e \<and> durable disk e
     \<and> (agrees (kern (en_host e)) (en_state e)
        \<or> kern (en_host e) = InstalledBlockAll
          \<and> (en_startup_policy e = StartupPending \<or> st_mode (en_state e) = BlockAll))"

definition quarantined :: "('w \<Rightarrow> kernel_policy) \<Rightarrow> ('w \<Rightarrow> state option) \<Rightarrow> 'w engine \<Rightarrow> bool" where
  "quarantined kern disk e \<longleftrightarrow> kern (en_host e) = InstalledBlockAll
     \<and> (en_restart_required e \<longrightarrow> en_learning_reservation e = None
          \<and> st_mode (en_state e) = BlockAll \<and> disk (en_host e) = Some (en_state e))"

definition sound :: "'w engine \<Rightarrow> bool" where
  "sound e \<longleftrightarrow> state_inv (en_state e) \<and> caches_current e \<and> reserved_by_learner e
     \<and> is_none_or (en_pending_candidate e) state_inv \<and> (en_fatal e \<longrightarrow> en_poisoned e)"

definition engine_inv :: "('w \<Rightarrow> kernel_policy) \<Rightarrow> ('w \<Rightarrow> state option) \<Rightarrow> 'w engine \<Rightarrow> bool" where
  "engine_inv kern disk e \<longleftrightarrow> sound e
     \<and> (\<not> en_fatal e \<longrightarrow> (if en_poisoned e then quarantined kern disk e else running kern disk e))"

lemma agrees_state [simp]: "agrees (InstalledPolicy (state_snapshot s)) s"
  by (auto simp: agrees_def)

lemma agrees_grows: "agrees k s \<Longrightarrow> st_mode s = Learning \<Longrightarrow> learning_grows s t \<Longrightarrow> agrees k t"
  unfolding agrees_def by (metis learning_grows_def learning_grows_trans)

section \<open>The calls\<close>

context policy_host
begin

lemma backend_apply_cases:
  assumes "backend_apply ops sn e = (r, e')"
  obtains h where "e' = e\<lparr>en_host := h\<rparr>" "disk h = disk (en_host e)"
    "r = Inr () \<longrightarrow> kern h = InstalledPolicy sn"
proof -
  obtain h where h: "op_apply ops sn (en_host e) = (r, h)" "e' = e\<lparr>en_host := h\<rparr>"
    using assms by (auto simp: backend_apply_def split: prod.splits)
  show ?thesis by (rule that [OF h(2)]) (use h(1) apply_ok apply_disk in blast)+
qed

lemma backend_fail_closed_cases:
  assumes "backend_fail_closed ops e = (r, e')"
  obtains h where "e' = e\<lparr>en_host := h\<rparr>" "disk h = disk (en_host e)"
    "r = Inr () \<longrightarrow> kern h = InstalledBlockAll"
proof -
  obtain h where h: "op_fail_closed ops (en_host e) = (r, h)" "e' = e\<lparr>en_host := h\<rparr>"
    using assms by (auto simp: backend_fail_closed_def split: prod.splits)
  show ?thesis by (rule that [OF h(2)]) (use h(1) fail_closed_ok fail_closed_disk in blast)+
qed

lemma store_save_cases:
  assumes "store_save ops s e = (r, e')"
  obtains h where "e' = e\<lparr>en_host := h\<rparr>" "kern h = kern (en_host e)"
    "r = Inr () \<longrightarrow> disk h = Some s"
proof -
  obtain h where h: "op_save ops s (en_host e) = (r, h)" "e' = e\<lparr>en_host := h\<rparr>"
    using assms by (auto simp: store_save_def split: prod.splits)
  show ?thesis by (rule that [OF h(2)]) (use h(1) save_ok save_kernel in blast)+
qed

lemma store_load_cases:
  assumes "store_load ops e = (r, e')"
  obtains h where "e' = e\<lparr>en_host := h\<rparr>" "kern h = kern (en_host e)" "disk h = disk (en_host e)"
    "\<forall>s. r = Inr s \<longrightarrow> s = disk (en_host e)"
proof -
  obtain h where h: "op_load ops (en_host e) = (r, h)" "e' = e\<lparr>en_host := h\<rparr>"
    using assms by (auto simp: store_load_def split: prod.splits)
  show ?thesis by (rule that [OF h(2)]) (use h(1) load_ok load_keeps in blast)+
qed

lemma failed_save_previous:
  assumes "persisted_state_after_failed_save ops previous candidate e = (p, e')"
  obtains h where "e' = e\<lparr>en_host := h\<rparr>" "kern h = kern (en_host e)" "disk h = disk (en_host e)"
    "p = PersistedPrevious \<longrightarrow> disk h = Some previous"
proof -
  obtain r e1 where l: "store_load ops e = (r, e1)" by fastforce
  obtain h where h: "e1 = e\<lparr>en_host := h\<rparr>" "kern h = kern (en_host e)" "disk h = disk (en_host e)"
    "\<forall>s. r = Inr s \<longrightarrow> s = disk (en_host e)"
    using store_load_cases [OF l] by blast
  show ?thesis
    by (rule that [of h]) (use assms l h in \<open>auto simp: persisted_state_after_failed_save_def
        persisted_state_after_failed_save_result_def split: sum.splits option.splits if_splits\<close>)
qed

lemma persist_learning_cases:
  assumes "persist_learning ops token previous candidate e = (outcome, e')"
    and "en_learning_reservation e = Some token"
  obtains h where "e' = e\<lparr>en_host := h, en_learning_reservation := None\<rparr>" "kern h = kern (en_host e)"
    "outcome = LearningSaved \<longrightarrow> disk h = Some candidate"
    "outcome = LearningPreviousRetained \<longrightarrow> disk h = Some previous"
proof -
  obtain r1 e1 where s1: "store_save ops candidate e = (r1, e1)" by fastforce
  obtain h1 where h1: "e1 = e\<lparr>en_host := h1\<rparr>" "kern h1 = kern (en_host e)" "r1 = Inr () \<longrightarrow> disk h1 = Some candidate"
    using store_save_cases [OF s1] by blast
  show ?thesis
  proof (cases r1)
    case (Inr u)
    then show ?thesis
      using assms s1 h1 by (intro that [of h1]) (auto simp: persist_learning_def cancel_learning_reservation_def)
  next
    case (Inl x)
    obtain p e2 where s2: "persisted_state_after_failed_save ops previous candidate e1 = (p, e2)" by fastforce
    obtain h2 where h2: "e2 = e1\<lparr>en_host := h2\<rparr>" "kern h2 = kern (en_host e1)" "p = PersistedPrevious \<longrightarrow> disk h2 = Some previous"
      using failed_save_previous [OF s2] by blast
    show ?thesis
    proof (cases p)
      case PersistedPrevious
      then show ?thesis
        using assms Inl s1 h1 s2 h2
        by (intro that [of h2]) (auto simp: persist_learning_def cancel_learning_reservation_def)
    next
      case PersistedCandidateOrUnknown
      obtain r3 e3 where s3: "store_save ops previous e2 = (r3, e3)" by fastforce
      obtain h3 where h3: "e3 = e2\<lparr>en_host := h3\<rparr>" "kern h3 = kern (en_host e2)" "r3 = Inr () \<longrightarrow> disk h3 = Some previous"
        using store_save_cases [OF s3] by blast
      show ?thesis
        using assms Inl PersistedCandidateOrUnknown s1 h1 s2 h2 s3 h3
        by (intro that [of h3])
          (auto simp: persist_learning_def cancel_learning_reservation_def split: sum.splits)
    qed
  qed
qed

text \<open>An exclusive access first lets the learning thread finish a reserved write.\<close>

lemma wait_cases:
  assumes "reserved_by_learner e"
  obtains h l where "wait_until_exclusive ops e = e\<lparr>en_host := h, en_learning_reservation := None, en_learner := l\<rparr>"
    "kern h = kern (en_host e)"
    "l = en_learner e \<and> en_learning_reservation e = None \<and> h = en_host e
     \<or> (\<exists>t outcome. en_learner e = PreparedTransaction t \<and> l = PersistedTransaction t outcome)"
proof (cases "en_learning_reservation e")
  case None
  then show ?thesis by (intro that [where h = "en_host e" and l = "en_learner e"]) (auto simp: wait_until_exclusive_def)
next
  case (Some token)
  then obtain t where t: "en_learner e = PreparedTransaction t" "lt_token t = token"
    using assms by (auto simp: reserved_by_learner_def)
  obtain outcome e1 where p: "persist_learning ops token (lt_previous t) (lt_candidate t) e = (outcome, e1)"
    by fastforce
  obtain h where "e1 = e\<lparr>en_host := h, en_learning_reservation := None\<rparr>" "kern h = kern (en_host e)"
    using persist_learning_cases [OF p Some] by blast
  then show ?thesis
    using Some t p by (intro that [where h = h and l = "PersistedTransaction t outcome"])
      (auto simp: wait_until_exclusive_def learner_persist_def)
qed

lemma save_exclusive_cases:
  assumes "save_exclusive ops s e = (r, e')" "reserved_by_learner e"
  obtains h l where "e' = e\<lparr>en_host := h, en_learning_reservation := None, en_learner := l\<rparr>"
    "kern h = kern (en_host e)" "r = Inr () \<longrightarrow> disk h = Some s"
    "l = en_learner e \<and> en_learning_reservation e = None
     \<or> (\<exists>t outcome. en_learner e = PreparedTransaction t \<and> l = PersistedTransaction t outcome)"
proof -
  obtain h l where w: "wait_until_exclusive ops e = e\<lparr>en_host := h, en_learning_reservation := None, en_learner := l\<rparr>"
    "kern h = kern (en_host e)"
    "l = en_learner e \<and> en_learning_reservation e = None \<and> h = en_host e
     \<or> (\<exists>t outcome. en_learner e = PreparedTransaction t \<and> l = PersistedTransaction t outcome)"
    by (rule wait_cases [OF assms(2)])
  have "store_save ops s (wait_until_exclusive ops e) = (r, e')"
    using assms(1) by (simp add: save_exclusive_def)
  then obtain h' where n: "e' = (wait_until_exclusive ops e)\<lparr>en_host := h'\<rparr>"
    "kern h' = kern (en_host (wait_until_exclusive ops e))" "r = Inr () \<longrightarrow> disk h' = Some s"
    using store_save_cases by blast
  show ?thesis
  proof (rule that [where h = h' and l = l])
    show "e' = e\<lparr>en_host := h', en_learning_reservation := None, en_learner := l\<rparr>"
      unfolding n(1) w(1) by simp
    show "kern h' = kern (en_host e)" using n(2) w(2) unfolding w(1) by simp
  qed (use n(3) w(3) in blast)+
qed

lemma engine_failed_save_previous:
  assumes "engine_persisted_state_after_failed_save ops previous candidate e = (p, e')" "reserved_by_learner e"
    and "en_learning_reservation e = None"
  obtains h where "e' = e\<lparr>en_host := h\<rparr>" "kern h = kern (en_host e)"
    "p = PersistedPrevious \<longrightarrow> disk h = Some previous"
proof -
  have "load_exclusive ops e = store_load ops e"
    using assms(3) by (simp add: load_exclusive_def wait_until_exclusive_def)
  then have "persisted_state_after_failed_save ops previous candidate e = (p, e')"
    using assms(1) by (simp add: engine_persisted_state_after_failed_save_def persisted_state_after_failed_save_def)
  then show ?thesis by (rule failed_save_previous) (use that in blast)
qed

section \<open>Emergency\<close>

end

lemma collect_rules_wf: "omap_wf (collect_rules rs)"
  by (induction rs rule: rev_induct) (simp_all add: collect_rules_snoc omap_wf_insert, simp add: collect_rules_def)

lemma state_from_snapshot_inv:
  "state_from_snapshot json sn = Inr s \<Longrightarrow> state_inv s \<and> st_mode s = sn_mode sn"
  by (auto simp: state_from_snapshot_def res_simps Let_def state_validate_Inr state_inv_def collect_rules_wf)

lemma replace_state_fields [simp]:
  "en_state (replace_state s e) = s" "en_host (replace_state s e) = en_host e"
  "en_poisoned (replace_state s e) = en_poisoned e" "en_fatal (replace_state s e) = en_fatal e"
  "en_restart_required (replace_state s e) = en_restart_required e"
  "en_learning_reservation (replace_state s e) = en_learning_reservation e"
  "en_learner (replace_state s e) = en_learner e" "en_pending_candidate (replace_state s e) = None"
  "en_startup_policy (replace_state s e) = en_startup_policy e"
  "en_learning_persistence (replace_state s e) = en_learning_persistence e"
  "en_superseded_learning_transaction (replace_state s e) = en_superseded_learning_transaction e"
  "en_learning_limits (replace_state s e) = en_learning_limits e"
  "en_application_policy (replace_state s e) = build_application_decision_policy s"
  "en_application_learning_admission (replace_state s e) =
     build_application_learning_admission s (en_learning_limits e)"
  by (simp_all add: replace_state_def clear_pending_application_learning_def)

lemma replace_state_sound:
  "state_inv s \<Longrightarrow> sound e \<Longrightarrow> sound (replace_state s e)"
  by (simp add: sound_def caches_current_def reserved_by_learner_def)

context policy_host
begin

lemma emergency_quarantines:
  assumes "sound e"
  shows "engine_inv kern disk (enter_emergency_fail_closed ops env floor e)
    \<and> en_poisoned (enter_emergency_fail_closed ops env floor e)"
proof -
  let ?retained = "case en_pending_candidate e of Some s \<Rightarrow> s | None \<Rightarrow> en_state e"
  define e0 where "e0 = e\<lparr>en_poisoned := True, en_learning_persistence := LearningPaused, en_restart_required := False\<rparr>"
  obtain r1 e1 where f: "backend_fail_closed ops e0 = (r1, e1)" by fastforce
  obtain h where h: "e1 = e0\<lparr>en_host := h\<rparr>" "r1 = Inr () \<longrightarrow> kern h = InstalledBlockAll"
    using backend_fail_closed_cases [OF f] by blast
  have sound1: "sound e1"
    using assms by (simp add: h e0_def sound_def caches_current_def reserved_by_learner_def)
  show ?thesis
  proof (cases r1)
    case (Inl x)
    then have "enter_emergency_fail_closed ops env floor e = e1\<lparr>en_fatal := True, en_restart_required := True\<rparr>"
      using f by (simp add: enter_emergency_fail_closed_def Let_def flip: e0_def)
    then show ?thesis using sound1
      by (simp add: engine_inv_def sound_def caches_current_def reserved_by_learner_def) (simp add: h e0_def)
  next
    case (Inr u)
    define sn where "sn = \<lparr>sn_revision = counter_increment (max floor (st_revision ?retained)),
      sn_flow_generation = st_flow_generation ?retained, sn_mode = BlockAll,
      sn_rules = sn_rules (state_snapshot ?retained)\<rparr>"
    show ?thesis
    proof (cases "state_from_snapshot (env_json env) sn")
      case (Inl x)
      then have "enter_emergency_fail_closed ops env floor e = e1\<lparr>en_fatal := True, en_restart_required := True\<rparr>"
        using f Inr by (simp add: enter_emergency_fail_closed_def Let_def sn_def flip: e0_def)
      then show ?thesis using sound1
        by (simp add: engine_inv_def sound_def caches_current_def reserved_by_learner_def) (simp add: h e0_def)
    next
      case ok: (Inr s)
      have s: "state_inv s" "st_mode s = BlockAll"
        using state_from_snapshot_inv [OF ok] by (simp_all add: sn_def)
      define e2 where "e2 = (replace_state s e1)\<lparr>en_events := clear_counter_snapshot (en_events (replace_state s e1))\<rparr>"
      have sound2: "sound e2" "reserved_by_learner e2"
        using replace_state_sound [OF s(1) sound1]
        by (simp_all add: e2_def sound_def caches_current_def reserved_by_learner_def)
      obtain r3 e3 where v: "save_exclusive ops s e2 = (r3, e3)" by fastforce
      obtain h3 l where e3: "e3 = e2\<lparr>en_host := h3, en_learning_reservation := None, en_learner := l\<rparr>"
          "kern h3 = kern (en_host e2)" "r3 = Inr () \<longrightarrow> disk h3 = Some s"
        using save_exclusive_cases [OF v sound2(2)] by blast
      have k3: "kern h3 = InstalledBlockAll"
        using e3(2) h Inr by (simp add: e2_def)
      have sound3: "sound e3"
        using sound2(1) by (simp add: e3(1) sound_def caches_current_def reserved_by_learner_def)
      have result: "enter_emergency_fail_closed ops env floor e =
          (case r3 of Inr _ \<Rightarrow> e3\<lparr>en_restart_required := True\<rparr> | Inl _ \<Rightarrow> e3)"
        using f Inr ok v by (simp add: enter_emergency_fail_closed_def Let_def e2_def flip: e0_def sn_def
            split: sum.split)
      show ?thesis
        using result sound3 k3 e3(3) s(2)
        by (cases r3) (simp_all add: engine_inv_def quarantined_def sound_def caches_current_def
            reserved_by_learner_def, simp_all add: e3(1) e2_def h e0_def)
    qed
  qed
qed

end

section \<open>Settled engines\<close>

text \<open>Between learning transactions the store holds the state, and a transaction that the learning
  thread still has was superseded.\<close>

definition settled :: "('w \<Rightarrow> state option) \<Rightarrow> 'w engine \<Rightarrow> bool" where
  "settled disk e \<longleftrightarrow> en_learning_reservation e = None \<and> no_transaction_pending e
     \<and> disk (en_host e) = Some (en_state e)
     \<and> (en_learner e = NoTransaction \<and> en_superseded_learning_transaction e = None
        \<or> (\<exists>t outcome. en_learner e = PersistedTransaction t outcome
             \<and> en_superseded_learning_transaction e = Some (lt_token t)))"

lemma durable_settled:
  "durable disk e \<Longrightarrow> (\<And>token. en_learning_persistence e \<noteq> LearningInFlight token) \<Longrightarrow> settled disk e"
  by (auto simp: durable_def settled_def transaction_based_on_def split: learner.splits)

lemma settled_durable: "settled disk e \<Longrightarrow> durable disk e"
  by (auto simp: durable_def settled_def)

lemmas engine_inv_defs = engine_inv_def sound_def caches_current_def reserved_by_learner_def
  running_def quarantined_def

lemma publish_committed_fields [simp]:
  "en_state (publish_committed es e) = en_state e" "en_host (publish_committed es e) = en_host e"
  "en_poisoned (publish_committed es e) = en_poisoned e" "en_fatal (publish_committed es e) = en_fatal e"
  "en_restart_required (publish_committed es e) = en_restart_required e"
  "en_learning_reservation (publish_committed es e) = en_learning_reservation e"
  "en_learner (publish_committed es e) = en_learner e"
  "en_pending_candidate (publish_committed es e) = en_pending_candidate e"
  "en_startup_policy (publish_committed es e) = en_startup_policy e"
  "en_learning_persistence (publish_committed es e) = en_learning_persistence e"
  "en_superseded_learning_transaction (publish_committed es e) = en_superseded_learning_transaction e"
  "en_learning_limits (publish_committed es e) = en_learning_limits e"
  "en_application_policy (publish_committed es e) = en_application_policy e"
  "en_application_learning_admission (publish_committed es e) = en_application_learning_admission e"
  by (simp_all add: publish_committed_def)

text \<open>The engine with a new state that is installed and stored.\<close>

lemma replaced_running:
  assumes "settled disk e" "state_inv s" "sound e"
    and "e' = publish_committed es ((replace_state s (e\<lparr>en_host := h\<rparr>))\<lparr>en_learning_persistence := LearningActive\<rparr>)"
    and "disk h = Some s" "agrees (kern h) s" "\<not> en_restart_required e" "\<not> en_poisoned e"
  shows "engine_inv kern disk e' \<and> settled disk e'"
  using assms by (auto simp: engine_inv_defs settled_def no_transaction_pending_def intro!: settled_durable)

text \<open>What a privileged change leaves behind: the candidate installed and stored; or the previous
  state installed and stored; or quarantine.\<close>

definition committed ::
    "('w \<Rightarrow> kernel_policy) \<Rightarrow> ('w \<Rightarrow> state option) \<Rightarrow> state \<Rightarrow> 'w engine \<Rightarrow> bool" where
  "committed kern disk s e \<longleftrightarrow> \<not> en_poisoned e \<and> en_state e = s \<and> disk (en_host e) = Some s
     \<and> (kern (en_host e) = InstalledPolicy (state_snapshot s)
        \<or> kern (en_host e) = InstalledBlockAll \<and> st_mode s = BlockAll)"

definition commit_outcome ::
    "('w \<Rightarrow> kernel_policy) \<Rightarrow> ('w \<Rightarrow> state option) \<Rightarrow> state \<Rightarrow> 'w engine
      \<Rightarrow> (protocol_error + 'a) \<times> 'w engine \<Rightarrow> bool" where
  "commit_outcome kern disk candidate e m \<longleftrightarrow> engine_inv kern disk (snd m)
     \<and> (case fst m of
          Inr _ \<Rightarrow> committed kern disk candidate (snd m) \<and> en_fatal (snd m) = en_fatal e
            \<and> en_learning_persistence (snd m) = LearningActive
        | Inl _ \<Rightarrow> en_fatal (snd m) \<or> en_poisoned (snd m)
            \<or> committed kern disk (en_state e) (snd m) \<and> en_fatal (snd m) = en_fatal e)"

definition block_all_outcome ::
    "('w \<Rightarrow> kernel_policy) \<Rightarrow> ('w \<Rightarrow> state option) \<Rightarrow> engine_env \<Rightarrow> 'w engine
      \<Rightarrow> (protocol_error + u64) \<times> 'w engine \<Rightarrow> bool" where
  "block_all_outcome kern disk env e m \<longleftrightarrow> engine_inv kern disk (snd m)
     \<and> (case fst m of
          Inr revision \<Rightarrow> \<exists>pending event s. en_pending_candidate e = Some pending
            \<and> set_mode_at BlockAll (env_now env 0) pending = (Inr event, s)
            \<and> committed kern disk s (snd m) \<and> st_revision s = revision \<and> en_fatal (snd m) = en_fatal e
            \<and> en_learning_persistence (snd m) = LearningActive
        | Inl _ \<Rightarrow> en_fatal (snd m) \<or> en_poisoned (snd m) \<or> snd m = e)"

text \<open>Rolling back only replaces the host, the events aside.\<close>

lemma rolled_back:
  assumes "running kern disk e" "\<not> en_poisoned e" "settled disk e" "sound e"
    and "kern h = InstalledPolicy (state_snapshot (en_state e))" "disk h = Some (en_state e)"
  shows "commit_outcome kern disk candidate e (Inl x, e\<lparr>en_host := h\<rparr>)"
    "commit_outcome kern disk candidate e (Inl x, e\<lparr>en_host := h, en_events := b\<rparr>)"
  using assms
  by (auto simp: commit_outcome_def committed_def engine_inv_defs settled_def no_transaction_pending_def
      intro!: settled_durable)

lemma host_sound: "sound e \<Longrightarrow> sound (e\<lparr>en_host := h\<rparr>)"
  by (simp add: engine_inv_defs)

context policy_host
begin

lemma emergency_outcome:
  "sound e' \<Longrightarrow> commit_outcome kern disk candidate e
     (Inl x, enter_emergency_fail_closed ops env floor e')"
  using emergency_quarantines [of e'] by (simp add: commit_outcome_def)

lemma commit_apply_failed:
  assumes "running kern disk e" "\<not> en_poisoned e" "settled disk e" "sound e"
    and "backend_apply ops (state_snapshot candidate) e = (Inl x, e1)"
  shows "commit_outcome kern disk candidate e (commit ops env candidate events e)"
proof -
  obtain h1 where h1: "e1 = e\<lparr>en_host := h1\<rparr>" "disk h1 = disk (en_host e)"
    using backend_apply_cases [OF assms(5)] by blast
  obtain r2 e2 where a2: "backend_apply ops (state_snapshot (en_state e)) e1 = (r2, e2)" by fastforce
  obtain h2 where h2: "e2 = e1\<lparr>en_host := h2\<rparr>" "disk h2 = disk (en_host e1)"
      "r2 = Inr () \<longrightarrow> kern h2 = InstalledPolicy (state_snapshot (en_state e))"
    using backend_apply_cases [OF a2] by blast
  show ?thesis
  proof (cases r2)
    case (Inl y)
    have "sound e2" using host_sound [OF assms(4)] by (simp add: h1(1) h2(1))
    then show ?thesis
      using Inl assms(5) a2 emergency_outcome by (simp add: commit_def Let_def)
  next
    case (Inr u)
    have "disk h2 = Some (en_state e)" using h1 h2(2) assms(3) by (simp add: settled_def)
    then show ?thesis
      using rolled_back(2) [OF assms(1-4)] h2(3) Inr assms(5) a2
      by (simp add: commit_def Let_def h1(1) h2(1))
  qed
qed

lemma settled_save:
  assumes "settled disk e" "save_exclusive ops s (e\<lparr>en_host := h0\<rparr>) = (r, e')"
  obtains h where "e' = e\<lparr>en_host := h\<rparr>" "kern h = kern h0" "r = Inr () \<longrightarrow> disk h = Some s"
proof -
  have "store_save ops s (e\<lparr>en_host := h0\<rparr>) = (r, e')"
    using assms by (simp add: save_exclusive_def wait_until_exclusive_def settled_def)
  then obtain h where "e' = e\<lparr>en_host := h0\<rparr>\<lparr>en_host := h\<rparr>" "kern h = kern (en_host (e\<lparr>en_host := h0\<rparr>))"
      "r = Inr () \<longrightarrow> disk h = Some s"
    using store_save_cases by blast
  then show ?thesis by (intro that [of h]) simp_all
qed

lemma settled_load:
  assumes "settled disk e"
    and "engine_persisted_state_after_failed_save ops previous candidate (e\<lparr>en_host := h0\<rparr>) = (p, e')"
  obtains h where "e' = e\<lparr>en_host := h\<rparr>" "kern h = kern h0" "p = PersistedPrevious \<longrightarrow> disk h = Some previous"
proof -
  have "reserved_by_learner (e\<lparr>en_host := h0\<rparr>)" "en_learning_reservation (e\<lparr>en_host := h0\<rparr>) = None"
    using assms(1) by (simp_all add: reserved_by_learner_def settled_def)
  then obtain h where "e' = e\<lparr>en_host := h0\<rparr>\<lparr>en_host := h\<rparr>" "kern h = kern (en_host (e\<lparr>en_host := h0\<rparr>))"
      "p = PersistedPrevious \<longrightarrow> disk h = Some previous"
    using engine_failed_save_previous [OF assms(2)] by blast
  then show ?thesis by (intro that [of h]) simp_all
qed

lemma storage_rollback:
  assumes "settled disk e"
    and "(case p of PersistedPrevious \<Rightarrow> (Inr (), e\<lparr>en_host := h0\<rparr>)
          | PersistedCandidateOrUnknown \<Rightarrow> save_exclusive ops previous (e\<lparr>en_host := h0\<rparr>)) = (r, e')"
    and "p = PersistedPrevious \<longrightarrow> disk h0 = Some previous"
  obtains h where "e' = e\<lparr>en_host := h\<rparr>" "kern h = kern h0" "r = Inr () \<longrightarrow> disk h = Some previous"
proof (cases p)
  case PersistedPrevious
  then show ?thesis using assms(2,3) by (intro that [of h0]) auto
next
  case PersistedCandidateOrUnknown
  then have "save_exclusive ops previous (e\<lparr>en_host := h0\<rparr>) = (r, e')" using assms(2) by simp
  then show ?thesis by (rule settled_save [OF assms(1)]) (use that in blast)
qed

lemma commit_save_failed:
  assumes "running kern disk e" "\<not> en_poisoned e" "settled disk e" "sound e"
    and "backend_apply ops (state_snapshot candidate) e = (Inr u, e\<lparr>en_host := h1\<rparr>)"
    and "save_exclusive ops candidate (e\<lparr>en_host := h1\<rparr>) = (Inl y, e2)"
  shows "commit_outcome kern disk candidate e (commit ops env candidate events e)"
proof -
  obtain h2 where h2: "e2 = e\<lparr>en_host := h2\<rparr>" by (rule settled_save [OF assms(3,6)])
  obtain r3 e3 where a3: "backend_apply ops (state_snapshot (en_state e)) e2 = (r3, e3)" by fastforce
  obtain h3 where h3: "e3 = e2\<lparr>en_host := h3\<rparr>" "r3 = Inr () \<longrightarrow> kern h3 = InstalledPolicy (state_snapshot (en_state e))"
    using backend_apply_cases [OF a3] by blast
  have e3: "e3 = e\<lparr>en_host := h3\<rparr>" by (simp add: h3(1) h2)
  obtain p e4 where a4: "engine_persisted_state_after_failed_save ops (en_state e) candidate e3 = (p, e4)" by fastforce
  obtain h4 where h4: "e4 = e\<lparr>en_host := h4\<rparr>" "kern h4 = kern h3" "p = PersistedPrevious \<longrightarrow> disk h4 = Some (en_state e)"
    by (rule settled_load [OF assms(3) a4 [unfolded e3]])
  obtain r5 e5 where a5: "(case p of PersistedPrevious \<Rightarrow> (Inr (), e4)
      | PersistedCandidateOrUnknown \<Rightarrow> save_exclusive ops (en_state e) e4) = (r5, e5)" by fastforce
  obtain h5 where h5: "e5 = e\<lparr>en_host := h5\<rparr>" "kern h5 = kern h4" "r5 = Inr () \<longrightarrow> disk h5 = Some (en_state e)"
    by (rule storage_rollback [OF assms(3) a5 [unfolded h4(1)] h4(3)])
  have result: "commit ops env candidate events e =
      (if \<not> is_ok r3 \<or> \<not> is_ok r5
       then (let e = enter_emergency_fail_closed ops env (max (st_revision (en_state e)) (st_revision candidate)) e5
             in (Inl (emergency_protocol_error e), e))
       else (Inl (protocol_error_new Internal (ascii ''state persistence failed; previous policy restored'')), e5))"
    using assms(5,6) a3 a4 a5 by (simp add: commit_def Let_def)
  show ?thesis
  proof (cases "is_ok r3 \<and> is_ok r5")
    case True
    then have "kern h5 = InstalledPolicy (state_snapshot (en_state e))" "disk h5 = Some (en_state e)"
      using h5 h4(2) h3(2) by (auto simp: is_ok_iff)
    then show ?thesis using True result rolled_back(1) [OF assms(1-4)] by (simp add: h5(1))
  next
    case False
    then show ?thesis
      using result emergency_outcome [OF host_sound [OF assms(4)]] by (auto simp: Let_def h5(1))
  qed
qed

lemma commit_meaning:
  assumes "running kern disk e" "\<not> en_poisoned e" "settled disk e" "sound e" "state_inv candidate"
  shows "commit_outcome kern disk candidate e (commit ops env candidate events e)"
proof -
  obtain r1 e1 where a1: "backend_apply ops (state_snapshot candidate) e = (r1, e1)" by fastforce
  obtain h1 where h1: "e1 = e\<lparr>en_host := h1\<rparr>" "r1 = Inr () \<longrightarrow> kern h1 = InstalledPolicy (state_snapshot candidate)"
    using backend_apply_cases [OF a1] by blast
  obtain r2 e2 where s2: "save_exclusive ops candidate (e\<lparr>en_host := h1\<rparr>) = (r2, e2)" by fastforce
  obtain h2 where h2: "e2 = e\<lparr>en_host := h2\<rparr>" "kern h2 = kern h1" "r2 = Inr () \<longrightarrow> disk h2 = Some candidate"
    by (rule settled_save [OF assms(3) s2])
  show ?thesis
  proof (cases r1)
    case (Inl x)
    then show ?thesis using commit_apply_failed [OF assms(1-4)] a1 by simp
  next
    case applied: (Inr u)
    show ?thesis
    proof (cases r2)
      case (Inl y)
      then show ?thesis using commit_save_failed [OF assms(1-4)] a1 s2 applied by (simp add: h1(1))
    next
      case (Inr v)
      define e' where "e' = publish_committed events ((replace_state candidate (e\<lparr>en_host := h2\<rparr>))
          \<lparr>en_learning_persistence := LearningActive\<rparr>)"
      have "commit ops env candidate events e = (Inr (), e')"
        using a1 s2 applied Inr by (simp add: commit_def Let_def h1(1) h2(1) e'_def)
      moreover have "engine_inv kern disk e'" "disk h2 = Some candidate"
          "kern h2 = InstalledPolicy (state_snapshot candidate)"
        using replaced_running [OF assms(3,5,4) e'_def, of kern] h1(2) h2 applied Inr assms(1,2)
        by (simp_all add: running_def)
      ultimately show ?thesis
        using assms(2) by (simp add: commit_outcome_def committed_def e'_def)
    qed
  qed
qed

text \<open>BlockAll during a learning transaction: the kernel is closed first, then the store is written
  after the transaction's own write, and the transaction is superseded.\<close>

lemma in_flight:
  assumes "durable disk e" "en_learning_persistence e = LearningInFlight token"
  obtains t where "lt_token t = token" "transaction_based_on t e" "en_pending_candidate e = Some (lt_candidate t)"
    "en_learner e = PreparedTransaction t \<and> en_learning_reservation e = Some token
     \<or> (\<exists>outcome. en_learner e = PersistedTransaction t outcome) \<and> en_learning_reservation e = None"
  using assms
  by (auto simp: durable_def transaction_based_on_def no_transaction_pending_def split: learner.splits)

lemma save_twice:
  assumes "(case save_exclusive ops s e of (Inr _, e) \<Rightarrow> (Inr (), e) | (Inl _, e) \<Rightarrow> save_exclusive ops s e) = (r, e')"
    and "reserved_by_learner e"
  obtains h l where "e' = e\<lparr>en_host := h, en_learning_reservation := None, en_learner := l\<rparr>"
    "kern h = kern (en_host e)" "r = Inr () \<longrightarrow> disk h = Some s"
    "l = en_learner e \<and> en_learning_reservation e = None
     \<or> (\<exists>t outcome. en_learner e = PreparedTransaction t \<and> l = PersistedTransaction t outcome)"
proof -
  obtain r1 e1 where s1: "save_exclusive ops s e = (r1, e1)" by fastforce
  obtain h1 l where e1: "e1 = e\<lparr>en_host := h1, en_learning_reservation := None, en_learner := l\<rparr>"
      "kern h1 = kern (en_host e)" "r1 = Inr () \<longrightarrow> disk h1 = Some s"
      "l = en_learner e \<and> en_learning_reservation e = None
       \<or> (\<exists>t outcome. en_learner e = PreparedTransaction t \<and> l = PersistedTransaction t outcome)"
    by (rule save_exclusive_cases [OF s1 assms(2)])
  show ?thesis
  proof (cases r1)
    case (Inr u)
    then show ?thesis using assms(1) s1 e1 by (intro that [where h = h1 and l = l]) simp_all
  next
    case (Inl x)
    then have s2: "store_save ops s e1 = (r, e')"
      using assms(1) s1 by (simp add: save_exclusive_def wait_until_exclusive_def e1(1))
    obtain h2 where "e' = e1\<lparr>en_host := h2\<rparr>" "kern h2 = kern (en_host e1)" "r = Inr () \<longrightarrow> disk h2 = Some s"
      by (rule store_save_cases [OF s2])
    then show ?thesis using e1(2,4) by (intro that [where h = h2 and l = l]) (simp_all add: e1(1))
  qed
qed

lemma set_mode_at_keeps:
  assumes "set_mode_at m now s = (Inr event, s')" "state_inv s"
  shows "state_inv s' \<and> st_mode s' = m"
proof -
  obtain strategy where m: "set_mode_with_strategy_at m strategy now s = (Inr event, s')"
    using assms(1) by (simp add: set_mode_at_def)
  moreover have "st_mode s' = m" using m by (auto simp: set_mode_with_strategy_at_Inr)
  ultimately show ?thesis using set_mode_keeps [OF assms(2)] by blast
qed

lemma superseded_inv:
  assumes "sound e" "state_inv s" "st_mode s = BlockAll" "en_learning_reservation e = None"
    and "en_learner e = PersistedTransaction t outcome" "kern (en_host e) = InstalledBlockAll"
    and "\<not> en_poisoned e" "\<not> en_restart_required e"
  shows "engine_inv kern disk ((replace_state s e)\<lparr>en_superseded_learning_transaction := Some (lt_token t),
      en_poisoned := True, en_learning_persistence := LearningPaused, en_restart_required := False\<rparr>)" (is ?paused)
    and "disk (en_host e) = Some s \<longrightarrow> (let e' = publish_committed events
      ((replace_state s e)\<lparr>en_superseded_learning_transaction := Some (lt_token t),
        en_learning_persistence := LearningActive\<rparr>) in
      engine_inv kern disk e' \<and> committed kern disk s e')" (is "_ \<longrightarrow> (let e' = ?e in _)")
proof -
  have sound: "sound (replace_state s e)"
    using assms(1,2) by (intro replace_state_sound)
  then show ?paused using assms by (simp add: engine_inv_defs)
  have "disk (en_host e) = Some s \<longrightarrow> durable disk ?e"
    using assms by (auto simp: settled_def no_transaction_pending_def intro!: settled_durable)
  then show "disk (en_host e) = Some s \<longrightarrow> (let e' = ?e in
      engine_inv kern disk e' \<and> committed kern disk s e')"
    using sound assms by (simp add: engine_inv_defs committed_def Let_def)
qed

lemma commit_block_all_meaning:
  assumes inv: "engine_inv kern disk e" "running kern disk e" "\<not> en_poisoned e"
    and "en_learning_persistence e = LearningInFlight token"
  shows "block_all_outcome kern disk env e (commit_block_all_during_learning ops env token e)"
proof -
  obtain t where t: "lt_token t = token" "transaction_based_on t e" "en_pending_candidate e = Some (lt_candidate t)"
    "en_learner e = PreparedTransaction t \<and> en_learning_reservation e = Some token
     \<or> (\<exists>outcome. en_learner e = PersistedTransaction t outcome) \<and> en_learning_reservation e = None"
    using in_flight [of e token] inv(2) assms(4) by (auto simp: running_def)
  have unchanged: "block_all_outcome kern disk env e (Inl x, e)" for x
    using inv(1) by (simp add: block_all_outcome_def)
  obtain r0 blocked where m: "set_mode_at BlockAll (env_now env 0) (lt_candidate t) = (r0, blocked)" by fastforce
  show ?thesis
  proof (cases "is_ok r0 \<and> is_ok (state_validate (env_json env) blocked)")
    case False
    then show ?thesis using m t(3) unchanged
      by (cases r0; cases "state_validate (env_json env) blocked") (auto simp: commit_block_all_during_learning_def)
  next
    case True
    then obtain event where r0: "r0 = Inr event" "state_validate (env_json env) blocked = Inr ()"
      by (auto simp: is_ok_iff)
    have blocked: "state_inv blocked" "st_mode blocked = BlockAll"
      using set_mode_at_keeps [of BlockAll _ "lt_candidate t" event blocked] m r0 t(2)
      by (auto simp: transaction_based_on_def)
    obtain r1 e1 where f: "backend_fail_closed ops e = (r1, e1)" by fastforce
    obtain h1 where h1: "e1 = e\<lparr>en_host := h1\<rparr>" "r1 = Inr () \<longrightarrow> kern h1 = InstalledBlockAll"
      using backend_fail_closed_cases [OF f] by blast
    have sound1: "sound e1" using host_sound [of e h1] inv(1) by (simp add: engine_inv_def h1(1))
    have res1: "reserved_by_learner e1" using sound1 by (simp add: sound_def)
    obtain r2 e2 where s2: "(case save_exclusive ops blocked e1 of (Inr _, e) \<Rightarrow> (Inr (), e)
        | (Inl _, e) \<Rightarrow> save_exclusive ops blocked e) = (r2, e2)" by fastforce
    obtain h2 l where e2: "e2 = e1\<lparr>en_host := h2, en_learning_reservation := None, en_learner := l\<rparr>"
        "kern h2 = kern (en_host e1)" "r2 = Inr () \<longrightarrow> disk h2 = Some blocked"
        "l = en_learner e1 \<and> en_learning_reservation e1 = None
         \<or> (\<exists>t outcome. en_learner e1 = PreparedTransaction t \<and> l = PersistedTransaction t outcome)"
      by (rule save_twice [OF s2 res1])
    obtain outcome where l: "l = PersistedTransaction t outcome"
      using e2(4) t(4) by (auto simp: h1(1))
    have sound2: "sound e2" using sound1 by (simp add: e2(1) engine_inv_defs)
    show ?thesis
    proof (cases r1)
      case (Inl x)
      then show ?thesis using t(3) m r0 f sound1
        by (simp add: commit_block_all_during_learning_def block_all_outcome_def engine_inv_defs)
    next
      case (Inr u)
      then have "kern (en_host e2) = InstalledBlockAll" using e2(2) h1 by (simp add: e2(1))
      moreover have "\<not> en_poisoned e2" "\<not> en_restart_required e2" "en_fatal e2 = en_fatal e"
        using inv(2,3) by (simp_all add: e2(1) h1(1) running_def)
      moreover have "en_learning_reservation e2 = None" "en_learner e2 = PersistedTransaction t outcome"
        by (simp_all add: e2(1) l)
      ultimately have super: "engine_inv kern disk ((replace_state blocked e2)
            \<lparr>en_superseded_learning_transaction := Some token, en_poisoned := True,
             en_learning_persistence := LearningPaused, en_restart_required := False\<rparr>)"
          "disk (en_host e2) = Some blocked \<longrightarrow> (let e' = publish_committed (en_pending_events e @ [event])
             ((replace_state blocked e2)\<lparr>en_superseded_learning_transaction := Some token,
               en_learning_persistence := LearningActive\<rparr>) in
             engine_inv kern disk e' \<and> committed kern disk blocked e')" and fatal: "en_fatal e2 = en_fatal e"
        using superseded_inv [OF sound2 blocked, of t outcome] by (simp_all add: t(1))
      have f': "backend_fail_closed ops e = (Inr u, e1)" using f Inr by simp
      show ?thesis
      proof (cases r2)
        case (Inl y)
        then show ?thesis using t(3) m r0 f' s2 super(1)
          by (simp add: commit_block_all_during_learning_def block_all_outcome_def Let_def h1(1))
      next
        case (Inr v)
        then have "disk (en_host e2) = Some blocked" using e2(3) by (simp add: e2(1))
        then show ?thesis using t(3) m r0 f' s2 super(2) fatal Inr
          by (simp add: commit_block_all_during_learning_def block_all_outcome_def Let_def h1(1))
      qed
    qed
  qed
qed

end

end
