(* ===== verification/Engine_Steps.thy ===== *)
theory Engine_Steps
  imports Engine_Invariant Template_Migration
begin

text \<open>
  The runs of the policy engine: every method the daemon's threads call under the engine lock is a
  step, with whatever environment, faults and arguments, and the invariant of \<open>Engine_Invariant\<close>
  holds after every one of them.
\<close>

section \<open>Control requests are runs of the policy\<close>

lemma core_step_Inr [simp]: "core_step env m = Inr (x, t) \<longleftrightarrow> m = (Inr x, t)"
  by (cases m) (auto simp: core_step_def split: sum.splits)

lemma control_set_rule_enabled_step:
  "control_set_rule_enabled env n i enabled s = Inr (x, t) \<Longrightarrow> policy_step s t"
  by (auto simp: control_set_rule_enabled_def res_simps split: if_splits prod.splits
      intro: policy_step.intros rule_step.intros)

lemma group_member_step_step:
  "group_member_step env action n member s = Inr (es, t) \<Longrightarrow> policy_step s t"
  by (auto simp: group_member_step_def res_simps Let_def split: outbound_group_action.splits prod.splits
      intro: policy_step.intros rule_step.intros control_set_rule_enabled_step)

lemma group_members_run:
  "group_members_loop env action n members es s = Inr (es', t) \<Longrightarrow> policy_step\<^sup>*\<^sup>* s t"
  by (induction members arbitrary: n es s)
    (auto simp: res_simps intro: converse_rtranclp_into_rtranclp dest!: group_member_step_step)

lemma group_members_run_nonempty:
  assumes "group_members_loop env action n members es s = Inr (es', t)" "members \<noteq> []"
  shows "policy_step\<^sup>+\<^sup>+ s t"
  using assms by (cases members) (auto simp: res_simps intro: rtranclp_into_tranclp2
      dest!: group_member_step_step group_members_run)

lemma control_runs:
  "apply_control_to_candidate env request s = Inr (x, t) \<Longrightarrow> policy_step\<^sup>+\<^sup>+ s t"
  by (cases request)
    (auto simp: res_simps enforce_at_def set_mode_at_def create_rule_def apply_outbound_group_to_candidate_def
      Let_def split: prod.splits intro: policy_step.intros rule_step.intros
      control_set_rule_enabled_step group_members_run_nonempty)

lemma control_runs_keep:
  assumes "policy_step\<^sup>+\<^sup>+ s t" "state_inv s"
  shows "state_inv t \<and> unat (st_revision s) < unat (st_revision t)
    \<and> st_flow_generation s \<le> st_flow_generation t"
  using assms
proof (induction rule: tranclp_induct)
  case (base t)
  then show ?case using policy_step_keeps policy_step_generation policy_step_revision by (simp; blast)
next
  case (step t u)
  then have "state_inv t" "unat (st_revision u) = Suc (unat (st_revision t))"
      "st_flow_generation t \<le> st_flow_generation u"
    using policy_step_generation policy_step_revision by blast+
  then show ?case using step policy_step_keeps by (auto intro: order_trans)
qed

text \<open>What a control request does, whatever fails in the host.\<close>

definition control_candidate :: "engine_env \<Rightarrow> control_request \<Rightarrow> rule option \<Rightarrow> 'w engine \<Rightarrow> state \<Rightarrow> bool" where
  "control_candidate env request affected e s \<longleftrightarrow>
     (\<exists>events. apply_control_to_candidate env request (en_state e) = Inr ((events, affected), s))
     \<or> requests_block_all request \<and> affected = None
       \<and> (\<exists>pending event. en_pending_candidate e = Some pending
            \<and> set_mode_at BlockAll (env_now env 0) pending = (Inr event, s))"

definition control_outcome ::
    "('w \<Rightarrow> kernel_policy) \<Rightarrow> ('w \<Rightarrow> state option) \<Rightarrow> engine_env \<Rightarrow> control_request \<Rightarrow> 'w engine
      \<Rightarrow> (protocol_error + ack) \<times> 'w engine \<Rightarrow> bool" where
  "control_outcome kern disk env request e m \<longleftrightarrow> engine_inv kern disk (snd m)
     \<and> (case fst m of
          Inr a \<Rightarrow> \<exists>s. control_candidate env request (ack_affected_rule a) e s \<and> ack_revision a = st_revision s
            \<and> committed kern disk s (snd m) \<and> \<not> en_fatal (snd m)
            \<and> en_learning_persistence (snd m) = LearningActive
        | Inl _ \<Rightarrow> snd m = e \<or> en_fatal (snd m) \<or> en_poisoned (snd m)
            \<or> committed kern disk (en_state e) (snd m))"

context policy_host
begin

lemma control_commits:
  assumes inv: "engine_inv kern disk e" "\<not> en_poisoned e"
    and idle: "\<And>token. en_learning_persistence e \<noteq> LearningInFlight token"
    and candidate: "apply_control_to_candidate env request (en_state e) = Inr ((events, affected), s)"
  shows "control_outcome kern disk env request e
    (thenS (commit ops env s events e) (\<lambda>_ e. (Inr (ack_new (st_revision s) affected), e)))"
proof -
  have e: "running kern disk e" "sound e" "\<not> en_fatal e" "settled disk e"
    using inv durable_settled [of disk e] idle by (auto simp: engine_inv_def sound_def running_def)
  then have "state_inv s"
    using control_runs_keep [OF control_runs [OF candidate]] by (simp add: sound_def)
  from commit_meaning [OF e(1) inv(2) e(4,2) this, of env events] show ?thesis
    using e(3) candidate
    by (cases "commit ops env s events e"; cases "fst (commit ops env s events e)")
      (auto simp: commit_outcome_def control_outcome_def control_candidate_def ack_new_def)
qed

lemma handle_control_meaning:
  assumes "engine_inv kern disk e"
  shows "control_outcome kern disk env request e (handle_control ops env request e)"
proof -
  have same: "control_outcome kern disk env request e (Inl x, e)" for x
    using assms by (simp add: control_outcome_def)
  show ?thesis
  proof (cases "en_poisoned e \<or> expected_revision request \<noteq> st_revision (en_state e)")
    case True
    then show ?thesis using same by (auto simp: handle_control_def)
  next
    case live: False
    then have run: "running kern disk e" "\<not> en_fatal e"
      using assms by (auto simp: engine_inv_def sound_def)
    show ?thesis
    proof (cases "\<exists>token. en_learning_persistence e = LearningInFlight token")
      case True
      then obtain token where token: "en_learning_persistence e = LearningInFlight token" by blast
      from commit_block_all_meaning [OF assms run(1) _ token, of env] live run(2) show ?thesis
        using same token
        by (cases "commit_block_all_during_learning ops env token e";
            cases "fst (commit_block_all_during_learning ops env token e)")
          (auto simp: handle_control_def block_all_outcome_def control_outcome_def control_candidate_def ack_new_def)
    next
      case False
      then have idle: "\<And>token. en_learning_persistence e \<noteq> LearningInFlight token" by simp
      then have body: "handle_control ops env request e =
          tryS (apply_control_to_candidate env request (en_state e)) e (\<lambda>((events, affected), s).
          tryS (map_err (core_protocol_error env) (state_validate (env_json env) s)) e (\<lambda>_.
          thenS (commit ops env s events e) (\<lambda>_ e. (Inr (ack_new (st_revision s) affected), e))))"
        using live by (simp add: handle_control_def split: learning_persistence.split)
      show ?thesis
        using control_commits [OF assms _ idle] live same unfolding body
        by (auto simp: tryS_def split: sum.splits)
    qed
  qed
qed

end

section \<open>Automatic learning\<close>

lemma durable_unrelated [simp]:
  "durable disk (e\<lparr>en_events := b\<rparr>) = durable disk e"
  "durable disk (e\<lparr>en_quota_skipped_observations := q\<rparr>) = durable disk e"
  "durable disk (e\<lparr>en_nfqueue_counters := c\<rparr>) = durable disk e"
  "durable disk (e\<lparr>en_startup_policy := p\<rparr>) = durable disk e"
  by (simp_all add: durable_def transaction_based_on_def no_transaction_pending_def split: learner.split)

lemma durable_host: "disk h = disk (en_host e) \<Longrightarrow> durable disk e \<Longrightarrow> durable disk (e\<lparr>en_host := h\<rparr>)"
  by (simp add: durable_def transaction_based_on_def no_transaction_pending_def split: learner.splits)

lemma engine_inv_unrelated [simp]:
  "engine_inv kern disk (e\<lparr>en_events := b\<rparr>) = engine_inv kern disk e"
  "engine_inv kern disk (e\<lparr>en_quota_skipped_observations := q\<rparr>) = engine_inv kern disk e"
  "engine_inv kern disk (e\<lparr>en_nfqueue_counters := c\<rparr>) = engine_inv kern disk e"
  by (simp_all add: engine_inv_defs)

lemma quota_inv [simp]:
  "engine_inv kern disk (record_learning_quota_skipped n e) = engine_inv kern disk e"
  by (simp add: record_learning_quota_skipped_def)

lemma paused_inv:
  assumes "engine_inv kern disk e" "\<not> en_poisoned e" "en_learner e = NoTransaction"
  shows "engine_inv kern disk (e\<lparr>en_learning_persistence := LearningPaused\<rparr>)"
  using assms by (simp add: engine_inv_defs durable_def no_transaction_pending_def)

lemma prepared_inv:
  assumes "engine_inv kern disk e" "\<not> en_poisoned e" "en_learner e = NoTransaction"
    and "st_mode (en_state e) = Learning" "learning_grows (en_state e) candidate" "state_inv candidate"
  shows "engine_inv kern disk (e\<lparr>en_learning_reservation := Some token, en_next_learning_transaction := token,
      en_pending_admission := admission, en_pending_candidate := Some candidate, en_pending_events := events,
      en_learning_persistence := LearningInFlight token,
      en_learner := PreparedTransaction \<lparr>lt_token = token, lt_previous = en_state e, lt_candidate = candidate,
        lt_events = events\<rparr>\<rparr>)"
  using assms by (auto simp: engine_inv_defs durable_def transaction_based_on_def)

lemma learned_candidate:
  assumes "state_inv s"
    and "learn_new_application_endpoints_with_limits net_from draws es m limits s = (Inr outs, t)"
  shows "learning_grows s t \<and> state_inv t"
  using learning_refines [OF assms(1), of limits m net_from draws es] run_keeps [OF _ assms(1)] assms(2)
  by (auto simp: run_result_def)

lemma prepare_keeps:
  assumes "engine_inv kern disk e" "en_learner e = NoTransaction"
    and "prepare_application_learning env generation es e = (r, e')"
  shows "engine_inv kern disk e'"
proof (cases "en_poisoned e \<or> st_mode (en_state e) \<noteq> Learning")
  case True
  then show ?thesis using assms by (auto simp: prepare_application_learning_def)
next
  case live: False
  have inv: "state_inv (en_state e)" using assms(1) by (simp add: engine_inv_def sound_def)
  have free: "en_learning_reservation e = None"
    using assms(1,2) live by (simp add: engine_inv_defs durable_def)
  have e1: "engine_inv kern disk (record_learning_quota_skipped n e)"
      "\<not> en_poisoned (record_learning_quota_skipped n e)"
      "en_learner (record_learning_quota_skipped n e) = NoTransaction"
      "st_mode (en_state (record_learning_quota_skipped n e)) = Learning" for n
    using assms(1,2) live by (simp, simp_all add: record_learning_quota_skipped_def)
  note prep = prepared_inv [OF e1]
  show ?thesis
    using assms(3) assms(1) e1 paused_inv [OF e1(1-3)] live prep free learned_candidate [OF inv]
    by (auto simp: prepare_application_learning_def Let_def tryS_def reserve_learning_def
        record_learning_quota_skipped_def fail_if_def split: if_splits prod.splits sum.splits core_error.splits)
qed

context policy_host
begin

lemma learner_persist_keeps:
  assumes "engine_inv kern disk e"
  shows "engine_inv kern disk (learner_persist ops e)"
proof (cases "en_learner e")
  case (PreparedTransaction t)
  obtain outcome e1 where p: "persist_learning ops (lt_token t) (lt_previous t) (lt_candidate t) e = (outcome, e1)"
    by fastforce
  then have result: "learner_persist ops e = e1\<lparr>en_learner := PersistedTransaction t outcome\<rparr>"
    using PreparedTransaction by (simp add: learner_persist_def)
  show ?thesis
  proof (cases "en_learning_reservation e = Some (lt_token t)")
    case True
    then obtain h where h: "e1 = e\<lparr>en_host := h, en_learning_reservation := None\<rparr>" "kern h = kern (en_host e)"
        "outcome = LearningSaved \<longrightarrow> disk h = Some (lt_candidate t)"
        "outcome = LearningPreviousRetained \<longrightarrow> disk h = Some (lt_previous t)"
      using persist_learning_cases [OF p] by blast
    have "\<not> en_poisoned e \<and> \<not> en_fatal e \<Longrightarrow> durable disk (learner_persist ops e)"
      using assms PreparedTransaction h(3,4) unfolding result h(1)
      by (auto simp: engine_inv_def running_def durable_def transaction_based_on_def)
    then show ?thesis
      using assms True h(2) unfolding result h(1) by (auto simp: engine_inv_defs split: if_splits)
  next
    case False
    moreover have "en_learning_reservation e = None"
      using assms False PreparedTransaction
      by (cases "en_learning_reservation e") (auto simp: engine_inv_def sound_def reserved_by_learner_def)
    ultimately show ?thesis
      using assms p PreparedTransaction unfolding result
      by (auto simp: persist_learning_def engine_inv_defs durable_def)
  qed
qed (use assms in \<open>simp_all add: learner_persist_def\<close>)

lemma emergency_inv: "sound e \<Longrightarrow> engine_inv kern disk (enter_emergency_fail_closed ops env floor e)"
  using emergency_quarantines by blast

lemma finalize_keeps:
  assumes "engine_inv kern disk e" "en_learner e = PersistedTransaction t outcome"
    and "finalize_application_learning ops env t outcome e = (r, e')"
  shows "engine_inv kern disk e'"
proof -
  define e1 where "e1 = e\<lparr>en_learner := NoTransaction\<rparr>"
  have sound: "sound e1" using assms(1,2) by (auto simp: e1_def engine_inv_defs)
  note emergency = emergency_inv [OF sound]
  show ?thesis
  proof (cases "en_poisoned e")
    case True
    then have "engine_inv kern disk e1" "engine_inv kern disk (e1\<lparr>en_superseded_learning_transaction := None\<rparr>)"
      using assms(1) sound by (auto simp: e1_def engine_inv_defs)
    then show ?thesis using assms(3) True
      by (auto simp: finalize_application_learning_def Let_def e1_def split: if_splits)
  next
    case False
    have run: "running kern disk e" "\<not> en_fatal e" using assms(1) False by (auto simp: engine_inv_def sound_def)
    then consider (superseded) "en_superseded_learning_transaction e = Some (lt_token t)"
          "settled disk (e1\<lparr>en_superseded_learning_transaction := None\<rparr>)"
      | (based) "transaction_based_on t e" "en_learning_reservation e = None"
          "outcome = LearningSaved \<longrightarrow> disk (en_host e) = Some (lt_candidate t)"
          "outcome = LearningPreviousRetained \<longrightarrow> disk (en_host e) = Some (en_state e)"
      using assms(2) by (auto simp: running_def durable_def settled_def no_transaction_pending_def e1_def)
    then show ?thesis
    proof cases
      case superseded
      have "engine_inv kern disk (e1\<lparr>en_superseded_learning_transaction := None\<rparr>)"
        using settled_durable [OF superseded(2)] run False sound by (auto simp: engine_inv_defs e1_def)
      then show ?thesis using assms(3) superseded(1)
        by (auto simp: finalize_application_learning_def Let_def e1_def)
    next
      case based
      then have tx: "en_superseded_learning_transaction e = None" "lt_previous t = en_state e"
          "en_learning_persistence e = LearningInFlight (lt_token t)" "state_inv (lt_candidate t)"
          "st_mode (en_state e) = Learning" "learning_grows (en_state e) (lt_candidate t)"
        by (simp_all add: transaction_based_on_def)
      show ?thesis
      proof (cases outcome)
        case LearningUnsafe
        then show ?thesis using assms(3) emergency tx run False
          by (auto simp: finalize_application_learning_def Let_def e1_def)
      next
        case LearningPreviousRetained
        have "settled disk ((clear_pending_application_learning e1)\<lparr>en_learning_persistence := LearningPaused\<rparr>)"
          using based LearningPreviousRetained tx
          by (simp add: settled_def clear_pending_application_learning_def e1_def no_transaction_pending_def)
        then show ?thesis
          using assms(3) tx run False LearningPreviousRetained settled_durable sound
          by (auto simp: finalize_application_learning_def Let_def e1_def engine_inv_defs
              clear_pending_application_learning_def)
      next
        case LearningSaved
        define e2 where "e2 = publish_committed (lt_events t)
          ((replace_state (lt_candidate t) e1)\<lparr>en_learning_persistence := LearningActive\<rparr>)"
        have "settled disk e2"
          using based LearningSaved tx by (simp add: settled_def e1_def e2_def no_transaction_pending_def)
        moreover have "agrees (kern (en_host e)) (lt_candidate t)
            \<or> kern (en_host e) = InstalledBlockAll \<and> en_startup_policy e = StartupPending"
          using agrees_grows [OF _ tx(5,6)] run(1) tx(5) by (auto simp: running_def)
        moreover have "sound e2"
          using replace_state_sound [OF tx(4) sound] by (simp add: e2_def engine_inv_defs)
        ultimately have "engine_inv kern disk e2"
          using settled_durable run False unfolding engine_inv_def running_def by (auto simp: e2_def e1_def)
        then show ?thesis using assms(3) tx run False LearningSaved
          by (auto simp: finalize_application_learning_def Let_def e1_def e2_def)
      qed
    qed
  qed
qed

end

section \<open>Repair, quarantine and activation\<close>

context policy_host
begin

lemma repair_keeps:
  assumes "engine_inv kern disk e" "repair_policy ops env expected e = (r, e')"
  shows "engine_inv kern disk e'"
proof (cases "en_poisoned e \<or> restart_required e \<or> st_revision (en_state e) \<noteq> expected")
  case True
  then show ?thesis using assms by (auto simp: repair_policy_def split: if_splits)
next
  case False
  obtain r1 e1 where a: "backend_apply ops (state_snapshot (en_state e)) e = (r1, e1)" by fastforce
  obtain h where h: "e1 = e\<lparr>en_host := h\<rparr>" "disk h = disk (en_host e)"
      "r1 = Inr () \<longrightarrow> kern h = InstalledPolicy (state_snapshot (en_state e))"
    using backend_apply_cases [OF a] by blast
  have run: "running kern disk e" "sound e" using assms(1) False by (auto simp: engine_inv_def sound_def)
  have "durable disk e1" using run(1) h(2) by (simp add: h(1) running_def durable_host)
  then have "r1 = Inr () \<longrightarrow> engine_inv kern disk e1"
    using run h(3) False by (auto simp: engine_inv_defs h(1))
  moreover have "sound e1" using run(2) by (simp add: h(1) host_sound)
  ultimately show ?thesis
    using assms(2) False a emergency_inv
    by (auto simp: repair_policy_def restart_required_def Let_def split: sum.splits)
qed

lemma runtime_quarantine_keeps:
  assumes "engine_inv kern disk e"
  shows "engine_inv kern disk (quarantine_after_runtime_failure ops env e)"
proof (cases "en_startup_policy e = StartupPending")
  case True
  let ?e = "e\<lparr>en_poisoned := True, en_learning_persistence := LearningPaused\<rparr>"
  obtain r1 e1 where f: "backend_fail_closed ops ?e = (r1, e1)" by fastforce
  obtain h where h: "e1 = ?e\<lparr>en_host := h\<rparr>" "disk h = disk (en_host ?e)"
      "r1 = Inr () \<longrightarrow> kern h = InstalledBlockAll"
    using backend_fail_closed_cases [OF f] by blast
  have "engine_inv kern disk (e1\<lparr>en_fatal := True\<rparr>)"
    using assms by (auto simp: h(1) engine_inv_defs)
  moreover have "r1 = Inr () \<longrightarrow> engine_inv kern disk e1"
    using assms h(2,3) by (auto simp: h(1) engine_inv_defs split: if_splits)
  ultimately show ?thesis
    using True f by (auto simp: quarantine_after_runtime_failure_def Let_def split: sum.splits)
next
  case False
  then show ?thesis using assms emergency_inv
    by (auto simp: quarantine_after_runtime_failure_def engine_inv_def)
qed

lemma poison_quarantine_keeps:
  assumes "engine_inv kern disk e"
  shows "engine_inv kern disk (quarantine_after_engine_poison ops e)"
proof -
  let ?e = "e\<lparr>en_poisoned := True, en_fatal := True, en_restart_required := True,
    en_learning_persistence := LearningPaused, en_events := clear_counter_snapshot (en_events e)\<rparr>"
  obtain r1 e1 where f: "backend_fail_closed ops ?e = (r1, e1)" by fastforce
  obtain h where "e1 = ?e\<lparr>en_host := h\<rparr>" using backend_fail_closed_cases [OF f] by blast
  then show ?thesis
    using assms f by (simp add: quarantine_after_engine_poison_def engine_inv_defs)
qed

lemma activation_keeps:
  assumes "engine_inv kern disk e" "\<not> en_poisoned e" "activate_startup_policy ops e = (Inr u, e')"
  shows "engine_inv kern disk e' \<and> en_startup_policy e' = StartupActive"
proof (cases "en_startup_policy e")
  case StartupActive
  then show ?thesis using assms by (simp add: activate_startup_policy_def)
next
  case StartupPending
  obtain r1 e1 where a: "backend_apply ops (state_snapshot (en_state e)) e = (r1, e1)" by fastforce
  obtain h where h: "e1 = e\<lparr>en_host := h\<rparr>" "disk h = disk (en_host e)"
      "r1 = Inr () \<longrightarrow> kern h = InstalledPolicy (state_snapshot (en_state e))"
    using backend_apply_cases [OF a] by blast
  have run: "running kern disk e" "sound e" using assms(1,2) by (auto simp: engine_inv_def sound_def)
  have "durable disk e1" using run(1) h(2) by (simp add: h(1) running_def durable_host)
  then have "r1 = Inr () \<longrightarrow> engine_inv kern disk (e1\<lparr>en_startup_policy := StartupActive\<rparr>)"
    using run h(3) assms(2) by (auto simp: engine_inv_defs h(1))
  then show ?thesis
    using assms(3) StartupPending a by (auto simp: activate_startup_policy_def split: sum.splits prod.splits)
qed

end

section \<open>Startup\<close>

lemma ensure_templates_loop_grows:
  assumes "ensure_templates_loop json draws m groups sz outs s = (res, t)" "state_inv s"
  shows "state_inv t \<and> templates_grow s t"
  using assms
proof (induction groups arbitrary: sz outs s)
  case (Cons g gs)
  obtain r s' where ins: "insert_application_group_template (draws (length outs)) g s = (r, s')"
    by (cases "insert_application_group_template (draws (length outs)) g s")
  show ?case
  proof (cases r)
    case (Inl e)
    then have "s' = s" using ins insert_template_error by blast
    then show ?thesis using Cons.prems ins Inl by auto
  next
    case (Inr out)
    from insert_template_added [OF ins [unfolded Inr]]
    have add: "added (lo_rule out) s s'" and spec: "rule_spec (lo_rule out) = template_spec g" by blast+
    have rb: "roll_back (lo_rule out) (st_revision s) (st_flow_generation s) s' = s"
      by (rule roll_back_added [OF Cons.prems(2) add])
    have grown: "state_inv s'" "templates_grow s s'"
      using added_inv template_added_templates_grow Cons.prems(2) add spec by blast+
    then show ?thesis
      using Cons.prems ins Inr rb Cons.IH [OF _ grown(1)] templates_grow_trans [OF grown(2)]
      by (fastforce simp: Let_def split: sum.splits if_splits)
  qed
qed simp

lemma ensure_templates_grow:
  assumes "ensure_application_group_templates json draws m s = (res, t)" "state_inv s"
  shows "state_inv t \<and> templates_grow s t"
  using assms ensure_templates_loop_grows [OF _ assms(2)]
  by (auto simp: ensure_application_group_templates_def
      ensure_application_group_templates_with_size_limit_def tryS_def split: sum.splits)

lemma rotate_startup_Inr:
  assumes "rotate_startup_flow_generation s = (Inr u, t)" "state_inv s"
  shows "state_inv t \<and> t = s\<lparr>st_flow_generation := st_flow_generation s + 1\<rparr>
    \<and> st_flow_generation s < st_flow_generation t"
proof -
  have "st_flow_generation s < MAX_FLOW_GENERATION" and
    r: "rotate_flow_generation (st_flow_generation s + 1) s = (Inr (), t)"
    using assms(1) by (auto simp: rotate_startup_flow_generation_def split: if_splits sum.splits prod.splits)
  then have "st_flow_generation s < st_flow_generation s + 1" using generation_succ by blast
  then show ?thesis using r rotate_inv [OF assms(2) r] by (auto simp: rotate_flow_generation_def split: if_splits)
qed

text \<open>The engine that startup hands over, given what the store held.\<close>

definition started_from :: "state option \<Rightarrow> state \<Rightarrow> bool" where
  "started_from stored s \<longleftrightarrow>
     (case stored of
        Some old \<Rightarrow> st_flow_generation old < st_flow_generation s
          \<and> templates_grow (old\<lparr>st_flow_generation := st_flow_generation old + 1\<rparr>) s
      | None \<Rightarrow> st_mode s = Learning \<and> st_rules s = [])"

context policy_host
begin

lemma startup_state_Inr:
  assumes "startup_state ops env h = (Inr s, h')" "kern h = InstalledBlockAll"
  shows "state_inv s \<and> started_from (disk h) s \<and> disk h' = Some s \<and> kern h' = InstalledBlockAll"
proof -
  obtain r h1 where l: "op_load ops h = (r, h1)" by fastforce
  note load = load_keeps [OF l]
  from assms(1) l obtain stored where r: "r = Inr stored"
    by (cases r) (auto simp: startup_state_def split: prod.splits sum.splits)
  then have stored: "stored = disk h" using load_ok l by blast
  have saved: "disk h' = Some t \<and> kern h' = InstalledBlockAll" if "op_save ops t h1 = (Inr v, h')" for t v
    using save_ok [OF that] save_kernel [OF that] load assms(2) by simp
  show ?thesis
  proof (cases stored)
    case None
    obtain event learning v v' where m: "set_mode_at Learning (env_now env 0) state_new = (Inr event, learning)"
        and rot: "rotate_startup_flow_generation learning = (Inr v, s)" and sv: "op_save ops s h1 = (Inr v', h')"
      using assms(1) l r None by (auto simp: startup_state_def split: prod.splits sum.splits)
    have "state_inv learning" "st_mode learning = Learning"
      using set_mode_at_keeps [OF m state_new_inv] by simp_all
    moreover have "st_rules learning = []" using m
      by (auto simp: set_mode_at_def set_mode_with_strategy_at_Inr state_new_def)
    ultimately show ?thesis
      using rotate_startup_Inr [OF rot] saved [OF sv] stored None by (auto simp: started_from_def)
  next
    case (Some old)
    obtain v rotated outs v' where rot: "rotate_startup_flow_generation old = (Inr v, rotated)"
        and mig: "ensure_application_group_templates (env_json env) (env_draws env) MAX_RULES rotated = (Inr outs, s)"
        and sv: "op_save ops s h1 = (Inr v', h')"
      using assms(1) l r Some by (auto simp: startup_state_def split: prod.splits sum.splits)
    have "state_inv old" using load_valid l r Some by blast
    note rotated = rotate_startup_Inr [OF rot this]
    then have "state_inv s" "templates_grow rotated s" using ensure_templates_grow [OF mig] by blast+
    moreover have "st_flow_generation s = st_flow_generation rotated"
      using \<open>templates_grow rotated s\<close> by (simp add: templates_grow_def learning_grows_def)
    ultimately have "started_from (Some old) s" using rotated by (auto simp: started_from_def)
    then show ?thesis using \<open>state_inv s\<close> saved [OF sv] stored Some by simp
  qed
qed

lemma initial_inv:
  assumes "state_inv s" "disk h = Some s" "kern h = InstalledBlockAll"
  shows "engine_inv kern disk (engine_initial limits events s h)"
  using assms by (simp add: engine_inv_defs engine_initial_def durable_def no_transaction_pending_def)

lemma startup_meaning:
  assumes "load_with_learning_limits ops env events limits h = (Inr e, h')"
  shows "engine_inv kern disk e \<and> started_from (disk h) (en_state e) \<and> en_host e = h'
    \<and> disk h' = Some (en_state e) \<and> kern h' = InstalledBlockAll \<and> en_startup_policy e = StartupPending"
proof -
  obtain u h1 s where f: "op_fail_closed ops h = (Inr u, h1)" and st: "startup_state ops env h1 = (Inr s, h')"
      and e: "e = engine_initial limits events s h'"
    using assms by (auto simp: load_with_learning_limits_def split: prod.splits sum.splits)
  have "kern h1 = InstalledBlockAll" "disk h1 = disk h"
    using fail_closed_ok [OF f] fail_closed_disk [OF f] by simp_all
  then show ?thesis using startup_state_Inr [OF st] initial_inv [of s h'] by (simp add: e) (simp add: engine_initial_def)
qed

text \<open>A start that fails leaves BlockAll, unless the backend reported that it could not.\<close>

lemma startup_failure:
  assumes "load_with_learning_limits ops env events limits h = (Inl x, h')"
  shows "kern h' = InstalledBlockAll \<or> (\<exists>h1 reason. op_fail_closed ops h1 = (Inl reason, h'))"
proof (cases "op_fail_closed ops h")
  case (Pair r h1)
  show ?thesis
  proof (cases r)
    case (Inl reason)
    then show ?thesis using assms Pair by (auto simp: load_with_learning_limits_def)
  next
    case (Inr u)
    then have shut: "kern h1 = InstalledBlockAll" using fail_closed_ok Pair by blast
    have st: "startup_state ops env h1 = (Inl x, h')"
      using assms Pair Inr by (auto simp: load_with_learning_limits_def split: prod.splits sum.splits)
    obtain l h2 where l: "op_load ops h1 = (l, h2)" by fastforce
    have k2: "kern h2 = InstalledBlockAll" using load_keeps [OF l] shut by simp
    have save: "kern h3 = InstalledBlockAll" if "op_save ops s h2 = (q, h3)" for s q h3
      using save_kernel [OF that] k2 by simp
    show ?thesis using st l k2 save fail_closed_ok
      by (auto simp: startup_state_def split: prod.splits sum.splits option.splits)
  qed
qed

end

section \<open>Runs\<close>

text \<open>One step is one call under the engine lock: a control request of a client, the learning
  thread's prepare, write and finalize, the NFQUEUE threads' admission checks and counters, the
  monitor's counter events and repairs, subscriptions, quarantine, and the activation at startup. A
  failing activation ends the daemon. Activation of an engine that is already quarantined is not a
  step of this relation; \<open>Engine_Properties\<close> shows what it does.\<close>

inductive engine_step :: "'w host_ops \<Rightarrow> 'w engine \<Rightarrow> 'w engine \<Rightarrow> bool" for ops where
  controlled: "handle_control ops env request e = (r, e') \<Longrightarrow> engine_step ops e e'"
| prepared: "en_learner e = NoTransaction \<Longrightarrow>
    prepare_application_learning env generation es e = (p, e') \<Longrightarrow> engine_step ops e e'"
| learner_wrote: "engine_step ops e (learner_persist ops e)"
| finalized: "en_learner e = PersistedTransaction t outcome \<Longrightarrow>
    finalize_application_learning ops env t outcome e = (n, e') \<Longrightarrow> engine_step ops e e'"
| admitted: "application_learning_queue_admission env m generation endpoint e = (q, e') \<Longrightarrow> engine_step ops e e'"
| counted: "engine_step ops e (e\<lparr>en_nfqueue_counters := counters\<rparr>)"
| published: "publish_counters_if_current expected fw now e = (b, e') \<Longrightarrow> engine_step ops e e'"
| subscribed: "engine_step ops e (e\<lparr>en_events := bus\<rparr>)"
| repaired: "repair_policy ops env expected e = (b', e') \<Longrightarrow> engine_step ops e e'"
| quarantined_runtime: "engine_step ops e (quarantine_after_runtime_failure ops env e)"
| quarantined_poison: "engine_step ops e (quarantine_after_engine_poison ops e)"
| activated: "\<not> en_poisoned e \<Longrightarrow> activate_startup_policy ops e = (Inr u, e') \<Longrightarrow> engine_step ops e e'"

inductive engine_reachable :: "'w host_ops \<Rightarrow> 'w engine \<Rightarrow> bool" for ops where
  started: "load_with_learning_limits ops env events limits h = (Inr e, h') \<Longrightarrow> engine_reachable ops e"
| stepped: "engine_reachable ops e \<Longrightarrow> engine_step ops e e' \<Longrightarrow> engine_reachable ops e'"

lemma admission_inv:
  "application_learning_queue_admission env m generation endpoint e = (q, e') \<Longrightarrow> engine_inv kern disk e
    \<Longrightarrow> engine_inv kern disk e'"
  by (auto simp: application_learning_queue_admission_def tryS_def Let_def
      split: sum.splits if_splits application_learning_admission.splits)

lemma publish_counters_inv:
  "publish_counters_if_current expected fw now e = (b, e') \<Longrightarrow> engine_inv kern disk e
    \<Longrightarrow> engine_inv kern disk e'"
  by (auto simp: publish_counters_if_current_def split: if_splits)

context policy_host
begin

lemma step_keeps: "engine_step ops e e' \<Longrightarrow> engine_inv kern disk e \<Longrightarrow> engine_inv kern disk e'"
proof (induction rule: engine_step.induct)
  case (controlled env request e r e')
  then show ?case using handle_control_meaning [of e env request] by (simp add: control_outcome_def)
next
  case (activated e u e')
  then show ?case using activation_keeps by blast
qed (auto intro: prepare_keeps learner_persist_keeps finalize_keeps admission_inv publish_counters_inv
    repair_keeps runtime_quarantine_keeps poison_quarantine_keeps)

lemma reachable_inv: "engine_reachable ops e \<Longrightarrow> engine_inv kern disk e"
  by (induction rule: engine_reachable.induct) (use startup_meaning step_keeps in blast)+

end

end
