(* ===== verification/Storage.thy ===== *)
theory Storage
  imports Policy_Invariant
begin

text \<open>
  The state store of \<open>src/crates/openshield-core/src/storage.rs\<close>: \<open>AtomicStateStore\<close> with its
  checks of owner, mode and file type, its bounded \<open>load\<close>, and \<open>save\<close> through a temporary file, a
  rename and two syncs.

  The store runs on a file system in which every call may fail and the machine may stop. A file
  system holds what its directory entries name now and, for every path, the earlier entries that a
  crash may bring back because the directory was not synced since. The script of outcomes decides
  the calls: a call that succeeds, a call that fails (a failing write has written a prefix), or the
  machine stopping, after which nothing changes any more. The bytes of a state and back are
  \<open>serde_json\<close>'s and are parameters; so is the identifier in a temporary name.
\<close>

section \<open>Paths\<close>

text \<open>A \<open>PathBuf\<close> as its components.\<close>

datatype path_component = RootDir | CurDir | ParentDir | Normal ustring

type_synonym path = "path_component list"

definition path_parent :: "path \<Rightarrow> path option" where
  "path_parent p = (if p = [] \<or> last p = RootDir then None else Some (butlast p))"

definition path_file_name :: "path \<Rightarrow> ustring option" where
  "path_file_name p =
     (if p = [] then None else case last p of Normal name \<Rightarrow> Some name | _ \<Rightarrow> None)"

definition with_file_name :: "ustring \<Rightarrow> path \<Rightarrow> path" where
  "with_file_name name p =
     (case path_file_name p of None \<Rightarrow> p | Some _ \<Rightarrow> butlast p) @ [Normal name]"

section \<open>File system\<close>

datatype file_kind = RegularFile | DirectoryFile | SymbolicLink | OtherFile

record inode =
  in_kind :: file_kind
  in_uid :: u32
  in_mode :: u32
  in_bytes :: "u8 list"
  in_synced :: bool

datatype io_error_kind = NotFoundError | AlreadyExistsError | OtherIoError nat

datatype io_outcome = Works | Fails nat nat | MachineStops

record disk =
  dk_entries :: "path \<Rightarrow> inode option"
  dk_shadows :: "path \<Rightarrow> inode option list"
  dk_outcomes :: "io_outcome list"
  dk_stopped :: bool
  dk_uid :: u32
  dk_umask :: u32

text \<open>The outcome of the next call; a stopped machine answers nothing more.\<close>

definition next_outcome :: "disk \<Rightarrow> io_outcome \<times> disk" where
  "next_outcome d =
     (if dk_stopped d then (MachineStops, d)
      else case dk_outcomes d of
          [] \<Rightarrow> (Works, d)
        | MachineStops # rest \<Rightarrow> (MachineStops, d\<lparr>dk_stopped := True, dk_outcomes := rest\<rparr>)
        | out # rest \<Rightarrow> (out, d\<lparr>dk_outcomes := rest\<rparr>))"

text \<open>A call: what it does when it works, and what a failing one may have done before.\<close>

definition syscall ::
    "(disk \<Rightarrow> (io_error_kind + 'a) \<times> disk) \<Rightarrow> (nat \<Rightarrow> disk \<Rightarrow> disk) \<Rightarrow> disk
     \<Rightarrow> (io_error_kind + 'a) \<times> disk" where
  "syscall works partly d =
     (case next_outcome d of
        (Works, d) \<Rightarrow> works d
      | (Fails errno n, d) \<Rightarrow> (Inl (OtherIoError errno), partly n d)
      | (MachineStops, d) \<Rightarrow> (Inl (OtherIoError 0), d))"

abbreviation no_effect :: "nat \<Rightarrow> disk \<Rightarrow> disk" where "no_effect \<equiv> \<lambda>_ d. d"

definition set_entry :: "path \<Rightarrow> inode option \<Rightarrow> disk \<Rightarrow> disk" where
  "set_entry p i d = d\<lparr>dk_entries := (dk_entries d)(p := i)\<rparr>"

text \<open>A change of the directory: until it is synced, a crash may undo it.\<close>

definition relink :: "path \<Rightarrow> inode option \<Rightarrow> disk \<Rightarrow> disk" where
  "relink p i d =
     (set_entry p i d)\<lparr>dk_shadows := (dk_shadows d)(p := dk_entries d p # dk_shadows d p)\<rparr>"

definition symlink_metadata :: "path \<Rightarrow> disk \<Rightarrow> (io_error_kind + inode) \<times> disk" where
  "symlink_metadata p =
     syscall (\<lambda>d. (ok_or NotFoundError (dk_entries d p), d)) no_effect"

text \<open>Opening with \<open>O_NOFOLLOW\<close> refuses a symbolic link (\<open>ELOOP\<close>, 40).\<close>

definition open_read :: "path \<Rightarrow> disk \<Rightarrow> (io_error_kind + path) \<times> disk" where
  "open_read p =
     syscall (\<lambda>d. (case dk_entries d p of
         None \<Rightarrow> Inl NotFoundError
       | Some i \<Rightarrow> if in_kind i = SymbolicLink then Inl (OtherIoError 40) else Inr p, d)) no_effect"

unbundle bit_operations_syntax

definition create_new :: "path \<Rightarrow> u32 \<Rightarrow> disk \<Rightarrow> (io_error_kind + path) \<times> disk" where
  "create_new p m =
     syscall (\<lambda>d. case dk_entries d p of
         Some _ \<Rightarrow> (Inl AlreadyExistsError, d)
       | None \<Rightarrow> (Inr p, relink p (Some \<lparr>in_kind = RegularFile, in_uid = dk_uid d,
             in_mode = m AND NOT (dk_umask d), in_bytes = [], in_synced = False\<rparr>) d)) no_effect"

definition handle_metadata :: "path \<Rightarrow> disk \<Rightarrow> (io_error_kind + inode) \<times> disk" where
  "handle_metadata handle =
     syscall (\<lambda>d. (ok_or NotFoundError (dk_entries d handle), d)) no_effect"

definition append_bytes :: "path \<Rightarrow> u8 list \<Rightarrow> disk \<Rightarrow> disk" where
  "append_bytes handle bytes d =
     (case dk_entries d handle of
        None \<Rightarrow> d
      | Some i \<Rightarrow> set_entry handle (Some (i\<lparr>in_bytes := in_bytes i @ bytes, in_synced := False\<rparr>)) d)"

definition file_write_all :: "path \<Rightarrow> u8 list \<Rightarrow> disk \<Rightarrow> (io_error_kind + unit) \<times> disk" where
  "file_write_all handle bytes =
     syscall (\<lambda>d. (Inr (), append_bytes handle bytes d)) (\<lambda>n. append_bytes handle (take n bytes))"

definition file_read_bounded :: "path \<Rightarrow> nat \<Rightarrow> disk \<Rightarrow> (io_error_kind + u8 list) \<times> disk" where
  "file_read_bounded handle limit =
     syscall (\<lambda>d. (map_err id (ok_or NotFoundError
       (map_option (\<lambda>i. take limit (in_bytes i)) (dk_entries d handle))), d)) no_effect"

definition file_sync_all :: "path \<Rightarrow> disk \<Rightarrow> (io_error_kind + unit) \<times> disk" where
  "file_sync_all handle =
     syscall (\<lambda>d. (Inr (), case dk_entries d handle of
         None \<Rightarrow> d | Some i \<Rightarrow> set_entry handle (Some (i\<lparr>in_synced := True\<rparr>)) d)) no_effect"

definition rename_path :: "path \<Rightarrow> path \<Rightarrow> disk \<Rightarrow> (io_error_kind + unit) \<times> disk" where
  "rename_path src dst =
     syscall (\<lambda>d. case dk_entries d src of
         None \<Rightarrow> (Inl NotFoundError, d)
       | Some i \<Rightarrow>
           if is_some_and (dk_entries d dst) (\<lambda>old. in_kind old = DirectoryFile)
           then (Inl (OtherIoError 21), d)
           else (Inr (), relink src None (relink dst (Some i) d))) no_effect"

definition open_directory :: "path \<Rightarrow> disk \<Rightarrow> (io_error_kind + path) \<times> disk" where
  "open_directory p =
     syscall (\<lambda>d. (map_err id (ok_or NotFoundError (map_option (\<lambda>_. p) (dk_entries d p))), d)) no_effect"

definition directory_sync_all :: "path \<Rightarrow> disk \<Rightarrow> (io_error_kind + unit) \<times> disk" where
  "directory_sync_all dir =
     syscall (\<lambda>d. (Inr (), d\<lparr>dk_shadows := (\<lambda>p. if path_parent p = Some dir then [] else dk_shadows d p)\<rparr>))
       no_effect"

definition remove_file :: "path \<Rightarrow> disk \<Rightarrow> (io_error_kind + unit) \<times> disk" where
  "remove_file p =
     syscall (\<lambda>d. case dk_entries d p of
         None \<Rightarrow> (Inl NotFoundError, d) | Some _ \<Rightarrow> (Inr (), relink p None d)) no_effect"

section \<open>The store\<close>

definition STATE_FILE_MODE :: u32 where "STATE_FILE_MODE = 0x180"

record atomic_state_store =
  ass_path :: path
  ass_required_owner :: u32

definition root_owned :: "path \<Rightarrow> atomic_state_store" where
  "root_owned p = \<lparr>ass_path = p, ass_required_owner = 0\<rparr>"

datatype storage_error =
    StorageIo string path io_error_kind
  | MissingParent path
  | MissingFileName path
  | UnsafeFileType path
  | WrongOwner path u32 u32
  | InsecureDirectoryMode path u32
  | InsecureFileMode path u32
  | StateTooLarge nat
  | InvalidJson ustring
  | InvalidState core_error

record state_codec_ops =
  codec_json :: "state json"
  codec_to_vec :: "state \<Rightarrow> ustring + u8 list"
  codec_from_slice :: "u8 list \<Rightarrow> ustring + state"
  codec_uuid_text :: ustring

definition io_call ::
    "string \<Rightarrow> path \<Rightarrow> (io_error_kind + 'a) \<times> disk \<Rightarrow> (storage_error + 'a) \<times> disk" where
  "io_call operation p m = (map_err (StorageIo operation p) (fst m), snd m)"

definition validate_owner :: "path \<Rightarrow> inode \<Rightarrow> u32 \<Rightarrow> storage_error + unit" where
  "validate_owner p metadata required_owner =
     fail_if (in_uid metadata \<noteq> required_owner) (WrongOwner p required_owner (in_uid metadata))"

definition validate_parent :: "atomic_state_store \<Rightarrow> disk \<Rightarrow> (storage_error + path) \<times> disk" where
  "validate_parent store d =
     tryS (ok_or (MissingParent (ass_path store))
             (case path_parent (ass_path store) of Some p \<Rightarrow> if p = [] then None else Some p | None \<Rightarrow> None)) d
       (\<lambda>parent.
     thenS (io_call ''inspect state directory'' parent (symlink_metadata parent d)) (\<lambda>metadata d.
     if in_kind metadata = SymbolicLink \<or> in_kind metadata \<noteq> DirectoryFile
     then (Inl (UnsafeFileType parent), d)
     else
       tryS (validate_owner parent metadata (ass_required_owner store)) d (\<lambda>_.
       let m = in_mode metadata AND 0x1FF in
       if m AND 0x12 \<noteq> 0 then (Inl (InsecureDirectoryMode parent m), d) else (Inr parent, d))))"

definition validate_existing_file ::
    "atomic_state_store \<Rightarrow> disk \<Rightarrow> (storage_error + inode option) \<times> disk" where
  "validate_existing_file store d =
     (case symlink_metadata (ass_path store) d of
        (Inr metadata, d) \<Rightarrow>
          if in_kind metadata = SymbolicLink \<or> in_kind metadata \<noteq> RegularFile
          then (Inl (UnsafeFileType (ass_path store)), d)
          else
            tryS (validate_owner (ass_path store) metadata (ass_required_owner store)) d (\<lambda>_.
            let m = in_mode metadata AND 0x1FF in
            if m \<noteq> STATE_FILE_MODE then (Inl (InsecureFileMode (ass_path store) m), d)
            else (Inr (Some metadata), d))
      | (Inl NotFoundError, d) \<Rightarrow> (Inr None, d)
      | (Inl source, d) \<Rightarrow> (Inl (StorageIo ''inspect state file'' (ass_path store) source), d))"

definition temporary_path :: "state_codec_ops \<Rightarrow> atomic_state_store \<Rightarrow> storage_error + path" where
  "temporary_path codec store =
     bindE (ok_or (MissingFileName (ass_path store)) (path_file_name (ass_path store))) (\<lambda>file_name.
     Inr (with_file_name (file_name @ ascii ''.'' @ codec_uuid_text codec @ ascii ''.tmp'') (ass_path store)))"

definition load_contents ::
    "state_codec_ops \<Rightarrow> atomic_state_store \<Rightarrow> disk \<Rightarrow> (storage_error + state) \<times> disk" where
  "load_contents codec store d =
     (let p = ass_path store in
      thenS (io_call ''open state file'' p (open_read p d)) (\<lambda>handle d.
      thenS (io_call ''inspect open state file'' p (handle_metadata handle d)) (\<lambda>metadata d.
      if in_kind metadata \<noteq> RegularFile then (Inl (UnsafeFileType p), d)
      else
        tryS (validate_owner p metadata (ass_required_owner store)) d (\<lambda>_.
        let m = in_mode metadata AND 0x1FF in
        if m \<noteq> STATE_FILE_MODE then (Inl (InsecureFileMode p m), d)
        else
          thenS (io_call ''read state file'' p (file_read_bounded handle (MAX_STATE_BYTES + 1) d)) (\<lambda>bytes d.
          if MAX_STATE_BYTES < length bytes then (Inl (StateTooLarge (length bytes)), d)
          else
            tryS (map_err InvalidJson (codec_from_slice codec bytes)) d (\<lambda>s.
            tryS (map_err InvalidState (state_validate (codec_json codec) s)) d (\<lambda>_. (Inr s, d))))))))"

definition atomic_load ::
    "state_codec_ops \<Rightarrow> atomic_state_store \<Rightarrow> disk \<Rightarrow> (storage_error + state option) \<times> disk" where
  "atomic_load codec store d =
     thenS (validate_parent store d) (\<lambda>_ d.
     thenS (validate_existing_file store d) (\<lambda>existing d.
     if existing = None then (Inr None, d)
     else thenS (load_contents codec store d) (\<lambda>s d. (Inr (Some s), d))))"

definition replace_steps ::
    "atomic_state_store \<Rightarrow> path \<Rightarrow> path \<Rightarrow> u8 list \<Rightarrow> path \<Rightarrow> disk \<Rightarrow> (storage_error + unit) \<times> disk" where
  "replace_steps store parent temporary bytes handle d =
     thenS (io_call ''write temporary state file'' temporary (file_write_all handle bytes d)) (\<lambda>_ d.
     thenS (io_call ''sync temporary state file'' temporary (file_sync_all handle d)) (\<lambda>_ d.
     thenS (io_call ''replace state file'' (ass_path store) (rename_path temporary (ass_path store) d)) (\<lambda>_ d.
     io_call ''sync state directory'' parent
       (thenS (open_directory parent d) (\<lambda>directory d. directory_sync_all directory d)))))"

definition write_temporary ::
    "atomic_state_store \<Rightarrow> path \<Rightarrow> path \<Rightarrow> u8 list \<Rightarrow> path \<Rightarrow> disk \<Rightarrow> (storage_error + unit) \<times> disk" where
  "write_temporary store parent temporary bytes handle d =
     thenS (io_call ''inspect temporary state file'' temporary (handle_metadata handle d)) (\<lambda>metadata d.
     tryS (validate_owner temporary metadata (ass_required_owner store)) d (\<lambda>_.
     if in_mode metadata AND 0x1FF \<noteq> STATE_FILE_MODE
     then (Inl (InsecureFileMode temporary (in_mode metadata AND 0x1FF)), d)
     else replace_steps store parent temporary bytes handle d))"

definition save_bytes ::
    "state_codec_ops \<Rightarrow> atomic_state_store \<Rightarrow> path \<Rightarrow> u8 list \<Rightarrow> disk \<Rightarrow> (storage_error + unit) \<times> disk" where
  "save_bytes codec store parent bytes d =
     tryS (temporary_path codec store) d (\<lambda>temporary.
     case create_new temporary STATE_FILE_MODE d of
       (Inl source, d) \<Rightarrow> (Inl (StorageIo ''create temporary state file'' temporary source), d)
     | (Inr handle, d) \<Rightarrow>
         (case write_temporary store parent temporary bytes handle d of
            (Inr _, d) \<Rightarrow> (Inr (), d)
          | (Inl error, d) \<Rightarrow> (Inl error, snd (remove_file temporary d))))"

definition atomic_save ::
    "state_codec_ops \<Rightarrow> atomic_state_store \<Rightarrow> state \<Rightarrow> disk \<Rightarrow> (storage_error + unit) \<times> disk" where
  "atomic_save codec store s d =
     tryS (map_err InvalidState (state_validate (codec_json codec) s)) d (\<lambda>_.
     thenS (validate_parent store d) (\<lambda>parent d.
     thenS (validate_existing_file store d) (\<lambda>_ d.
     tryS (map_err InvalidJson (codec_to_vec codec s)) d (\<lambda>bytes.
     if MAX_STATE_BYTES < length bytes then (Inl (StateTooLarge (length bytes)), d)
     else save_bytes codec store parent bytes d))))"

definition load_or_fail_closed ::
    "state_codec_ops \<Rightarrow> atomic_state_store \<Rightarrow> disk \<Rightarrow> (storage_error + state) \<times> disk" where
  "load_or_fail_closed codec store d =
     thenS (atomic_load codec store d) (\<lambda>stored d.
     (Inr (case stored of Some s \<Rightarrow> s | None \<Rightarrow> state_new), d))"

end
