(* ===== verification/Storage_Properties.thy ===== *)
theory Storage_Properties
  imports Storage
begin

text \<open>
  What the state store promises: a save is all or nothing for every sequence of failing calls and
  wherever the machine stops, a load only trusts a private regular file and validated contents, and
  a load after a save returns what was saved.
\<close>

section \<open>System calls\<close>

definition same_files :: "disk \<Rightarrow> disk \<Rightarrow> bool" where
  "same_files d d' \<longleftrightarrow> dk_entries d' = dk_entries d \<and> dk_shadows d' = dk_shadows d
     \<and> dk_uid d' = dk_uid d \<and> dk_umask d' = dk_umask d"

definition changes_only :: "path \<Rightarrow> disk \<Rightarrow> disk \<Rightarrow> bool" where
  "changes_only t d d' \<longleftrightarrow> dk_uid d' = dk_uid d \<and> dk_umask d' = dk_umask d
     \<and> (\<forall>p. p \<noteq> t \<longrightarrow> dk_entries d' p = dk_entries d p \<and> dk_shadows d' p = dk_shadows d p)"

lemma same_files_refl [simp]: "same_files d d"
  by (simp add: same_files_def)

lemma same_files_trans [trans]: "same_files d d1 \<Longrightarrow> same_files d1 d2 \<Longrightarrow> same_files d d2"
  by (simp add: same_files_def)

lemma changes_only_refl [simp]: "changes_only t d d"
  by (simp add: changes_only_def)

lemma changes_only_trans [trans]: "changes_only t d d1 \<Longrightarrow> changes_only t d1 d2 \<Longrightarrow> changes_only t d d2"
  by (simp add: changes_only_def)

lemma same_files_changes_only: "same_files d d' \<Longrightarrow> changes_only t d d'"
  by (simp add: same_files_def changes_only_def)

lemma next_outcome_same: "next_outcome d = (out, d') \<Longrightarrow> same_files d d'"
  by (auto simp: next_outcome_def same_files_def split: if_splits list.splits io_outcome.splits)

text \<open>A call works on the same files, fails after a part of its work, or does nothing.\<close>

lemma syscall_cases:
  assumes "syscall works partly d = (r, d')"
  obtains (worked) d0 where "same_files d d0" "works d0 = (r, d')"
    | (failed) d0 e n where "same_files d d0" "r = Inl (OtherIoError e)" "d' = partly n d0"
    | (stopped) e where "same_files d d'" "r = Inl (OtherIoError e)"
proof (cases "next_outcome d")
  case (Pair out d0)
  have "same_files d d0" by (rule next_outcome_same [OF Pair])
  then show thesis using assms Pair that by (cases out) (auto simp: syscall_def)
qed

lemma symlink_metadata_cases:
  assumes "symlink_metadata p d = (r, d')"
  shows "same_files d d'" "r = Inr i \<Longrightarrow> dk_entries d p = Some i"
    "r = Inl NotFoundError \<Longrightarrow> dk_entries d p = None"
  using assms [unfolded symlink_metadata_def]
  by (cases rule: syscall_cases; auto simp: same_files_def ok_or_def split: option.splits)+

lemma handle_metadata_cases:
  assumes "handle_metadata h d = (r, d')"
  shows "same_files d d'" "r = Inr i \<Longrightarrow> dk_entries d h = Some i"
  using assms [unfolded handle_metadata_def]
  by (cases rule: syscall_cases; auto simp: same_files_def ok_or_def split: option.splits)+

lemma open_read_cases:
  assumes "open_read p d = (r, d')"
  shows "same_files d d'" "r = Inr h \<Longrightarrow> h = p \<and> dk_entries d p \<noteq> None"
  using assms [unfolded open_read_def]
  by (cases rule: syscall_cases; auto simp: same_files_def split: option.splits if_splits)+

lemma file_read_cases:
  assumes "file_read_bounded h limit d = (r, d')"
  shows "same_files d d'" "r = Inr bytes \<Longrightarrow> \<exists>i. dk_entries d h = Some i \<and> bytes = take limit (in_bytes i)"
  using assms [unfolded file_read_bounded_def]
  by (cases rule: syscall_cases; auto simp: same_files_def ok_or_def res_simps split: option.splits)+

lemma create_new_cases:
  assumes "create_new t m d = (r, d')"
  shows "changes_only t d d'" "r = Inl e \<Longrightarrow> same_files d d'"
    "r = Inr h \<Longrightarrow> h = t \<and> dk_entries d t = None \<and> (\<exists>i. dk_entries d' t = Some i \<and> in_bytes i = [] \<and> in_kind i = RegularFile)"
  using assms [unfolded create_new_def]
  by (cases rule: syscall_cases;
      auto simp: same_files_def changes_only_def relink_def set_entry_def split: option.splits)+

lemma append_bytes_only: "changes_only h d (append_bytes h bytes d)"
  by (auto simp: append_bytes_def changes_only_def set_entry_def split: option.splits)

lemma changes_only_after: "same_files d d0 \<Longrightarrow> changes_only h d0 d' \<Longrightarrow> changes_only h d d'"
  by (simp add: changes_only_def same_files_def)

lemma file_write_all_cases:
  assumes "file_write_all h bytes d = (r, d')"
  shows "changes_only h d d'"
    "r = Inr u \<Longrightarrow> dk_entries d h = Some i \<Longrightarrow>
       dk_entries d' h = Some (i\<lparr>in_bytes := in_bytes i @ bytes, in_synced := False\<rparr>)"
  using assms [unfolded file_write_all_def]
  by (cases rule: syscall_cases; auto intro: changes_only_after append_bytes_only same_files_changes_only;
      simp add: same_files_def append_bytes_def set_entry_def)+

lemma file_sync_all_cases:
  assumes "file_sync_all h d = (r, d')"
  shows "changes_only h d d'"
    "r = Inr u \<Longrightarrow> dk_entries d h = Some i \<Longrightarrow> dk_entries d' h = Some (i\<lparr>in_synced := True\<rparr>)"
  using assms [unfolded file_sync_all_def]
  by (cases rule: syscall_cases;
      auto simp: same_files_def changes_only_def set_entry_def split: option.splits)+

lemma rename_path_cases:
  assumes "rename_path t p d = (r, d')" "t \<noteq> p"
  shows "r = Inl e \<Longrightarrow> same_files d d'"
    "r = Inr u \<Longrightarrow> dk_entries d' p = dk_entries d t \<and> dk_shadows d' p = dk_entries d p # dk_shadows d p"
  using assms(1) [unfolded rename_path_def] assms(2)
  by (cases rule: syscall_cases;
      auto simp: same_files_def relink_def set_entry_def split: option.splits if_splits)+

lemma open_directory_cases:
  assumes "open_directory dir d = (r, d')"
  shows "same_files d d'" "r = Inr h \<Longrightarrow> h = dir"
  using assms [unfolded open_directory_def]
  by (cases rule: syscall_cases; auto simp: same_files_def ok_or_def res_simps split: option.splits)+

lemma directory_sync_cases:
  assumes "directory_sync_all dir d = (r, d')"
  shows "dk_entries d' = dk_entries d" "r = Inl e \<Longrightarrow> same_files d d'"
    "r = Inr u \<Longrightarrow> path_parent p = Some dir \<Longrightarrow> dk_shadows d' p = []"
  using assms [unfolded directory_sync_all_def]
  by (cases rule: syscall_cases; auto simp: same_files_def)+

lemma remove_file_cases:
  assumes "remove_file t d = (r, d')"
  shows "changes_only t d d'"
  using assms [unfolded remove_file_def]
  by (cases rule: syscall_cases;
      auto simp: same_files_def changes_only_def relink_def set_entry_def split: option.splits)

section \<open>Saving\<close>

unbundle bit_operations_syntax

lemma io_call_eq [simp]:
  "io_call operation p m = (Inr x, d) \<longleftrightarrow> m = (Inr x, d)"
  "io_call operation p m = (Inl e, d) \<longleftrightarrow> (\<exists>source. m = (Inl source, d) \<and> e = StorageIo operation p source)"
  by (cases m; auto simp: io_call_def res_simps)+

lemma thenS_cases:
  assumes "thenS m k = (r, d')"
  obtains (error) e where "m = (Inl e, d')" "r = Inl e"
    | (ok) x d1 where "m = (Inr x, d1)" "k x d1 = (r, d')"
  using assms by (cases m; cases "fst m") auto

lemma tryS_cases:
  assumes "tryS m d k = (r, d')"
  obtains (error) e where "m = Inl e" "r = Inl e" "d' = d"
    | (ok) x where "m = Inr x" "k x = (r, d')"
  using assms by (cases m) auto

definition private_file :: "atomic_state_store \<Rightarrow> inode \<Rightarrow> bool" where
  "private_file store i \<longleftrightarrow> in_kind i = RegularFile \<and> in_uid i = ass_required_owner store
     \<and> in_mode i AND 0x1FF = STATE_FILE_MODE"

text \<open>The state file holds exactly the new bytes, synced; the directory may still remember the file
  it replaced.\<close>

definition replaced_by :: "atomic_state_store \<Rightarrow> u8 list \<Rightarrow> disk \<Rightarrow> disk \<Rightarrow> bool" where
  "replaced_by store bytes d d' \<longleftrightarrow>
     (\<exists>i. dk_entries d' (ass_path store) = Some i \<and> private_file store i \<and> in_bytes i = bytes \<and> in_synced i)
     \<and> (dk_shadows d' (ass_path store) = []
        \<or> dk_shadows d' (ass_path store) = dk_entries d (ass_path store) # dk_shadows d (ass_path store))"

lemma directory_synced:
  assumes "thenS (open_directory dir d) (\<lambda>directory d. directory_sync_all directory d) = (r, d')"
    and "path_parent p = Some dir"
  shows "dk_entries d' = dk_entries d" "dk_shadows d' p = [] \<or> dk_shadows d' p = dk_shadows d p"
    "r = Inr u \<Longrightarrow> dk_shadows d' p = []"
proof -
  consider (error) e where "same_files d d'" "r = Inl e"
    | (ok) d1 where "same_files d d1" "directory_sync_all dir d1 = (r, d')"
    using assms(1) open_directory_cases by (cases rule: thenS_cases) blast+
  then have "dk_entries d' = dk_entries d \<and> (dk_shadows d' p = [] \<or> dk_shadows d' p = dk_shadows d p)
    \<and> (r = Inr u \<longrightarrow> dk_shadows d' p = [])"
  proof cases
    case ok
    then show ?thesis
      using directory_sync_cases(1,2) [OF ok(2)] directory_sync_cases(3) [OF ok(2) _ assms(2)]
      by (cases r) (auto simp: same_files_def)
  qed (auto simp: same_files_def)
  then show "dk_entries d' = dk_entries d" "dk_shadows d' p = [] \<or> dk_shadows d' p = dk_shadows d p"
    "r = Inr u \<Longrightarrow> dk_shadows d' p = []" by blast+
qed

text \<open>Writing, syncing and renaming the temporary file: until the rename only the temporary file
  changes, and after it the state file is complete.\<close>

lemma replace_effect:
  assumes "replace_steps store parent t bytes t d = (r, d')" "t \<noteq> ass_path store"
    and "dk_entries d t = Some i0" "in_bytes i0 = []" "private_file store i0"
    and "path_parent (ass_path store) = Some parent"
  shows "(\<exists>e. r = Inl e) \<and> changes_only t d d'
    \<or> replaced_by store bytes d d' \<and> (r = Inr () \<longrightarrow> dk_shadows d' (ass_path store) = [])"
  using assms(1) [unfolded replace_steps_def]
proof (cases rule: thenS_cases)
  case (error e)
  then show ?thesis using file_write_all_cases(1) by fastforce
next
  case wrote: (ok u d2)
  then have d2: "changes_only t d d2" "dk_entries d2 t = Some (i0\<lparr>in_bytes := bytes, in_synced := False\<rparr>)"
    using file_write_all_cases(1) file_write_all_cases(2) [OF _ refl assms(3)] assms(4) by fastforce+
  from wrote(2) show ?thesis
  proof (cases rule: thenS_cases)
    case (error e)
    then show ?thesis using file_sync_all_cases(1) d2(1) changes_only_trans by fastforce
  next
    case synced: (ok u d3)
    then have d3: "changes_only t d d3" "dk_entries d3 t = Some (i0\<lparr>in_bytes := bytes, in_synced := True\<rparr>)"
      using file_sync_all_cases(1) d2(1) changes_only_trans file_sync_all_cases(2) [OF _ refl d2(2)] by fastforce+
    from synced(2) show ?thesis
    proof (cases rule: thenS_cases)
      case (error e)
      then show ?thesis
        using rename_path_cases(1) [OF _ assms(2)] d3(1) same_files_changes_only changes_only_trans by fastforce
    next
      case renamed: (ok u d4)
      then have d4: "dk_entries d4 (ass_path store) = Some (i0\<lparr>in_bytes := bytes, in_synced := True\<rparr>)"
        "dk_shadows d4 (ass_path store) = dk_entries d (ass_path store) # dk_shadows d (ass_path store)"
        using rename_path_cases(2) [OF _ assms(2)] d3 assms(2) by (auto simp: changes_only_def)
      obtain r0 where sync: "thenS (open_directory parent d4) (\<lambda>directory d. directory_sync_all directory d) = (r0, d')"
          and r0: "r = Inr () \<longrightarrow> r0 = Inr ()"
        using renamed(2) by (cases r) auto
      show ?thesis
        using directory_synced [OF sync assms(6)] r0 d4 assms(5) by (auto simp: replaced_by_def private_file_def)
    qed
  qed
qed

lemma write_effect:
  assumes "write_temporary store parent t bytes t d = (r, d')" "t \<noteq> ass_path store"
    and "dk_entries d t = Some i0" "in_bytes i0 = []" "in_kind i0 = RegularFile"
    and "path_parent (ass_path store) = Some parent"
  shows "(\<exists>e. r = Inl e) \<and> changes_only t d d'
    \<or> replaced_by store bytes d d' \<and> (r = Inr () \<longrightarrow> dk_shadows d' (ass_path store) = [])"
  using assms(1) [unfolded write_temporary_def]
proof (cases rule: thenS_cases)
  case (error e)
  then show ?thesis using handle_metadata_cases(1) same_files_changes_only by fastforce
next
  case (ok m d1)
  then have m: "m = i0" "same_files d d1" using handle_metadata_cases assms(3) by fastforce+
  from ok(2) show ?thesis
  proof (cases rule: tryS_cases)
    case (error e)
    then show ?thesis using m(2) same_files_changes_only by blast
  next
    case owner: (ok u)
    show ?thesis
    proof (cases "in_mode m AND 0x1FF \<noteq> STATE_FILE_MODE")
      case True
      then show ?thesis using owner(2) m(2) same_files_changes_only by auto
    next
      case False
      then have priv: "private_file store i0" and run: "replace_steps store parent t bytes t d1 = (r, d')"
        using owner assms(5) m(1)
        by (auto simp: private_file_def validate_owner_def fail_if_def split: if_splits)
      have "dk_entries d1 t = Some i0" using m(2) assms(3) by (simp add: same_files_def)
      from replace_effect [OF run assms(2) this assms(4) priv assms(6)] show ?thesis
        using m(2) by (auto simp: changes_only_def same_files_def replaced_by_def)
    qed
  qed
qed

lemma temporary_path_differs:
  assumes "temporary_path codec store = Inr t"
  shows "t \<noteq> ass_path store"
proof -
  obtain name where name: "path_file_name (ass_path store) = Some name"
      "t = butlast (ass_path store) @ [Normal (name @ ascii ''.'' @ codec_uuid_text codec @ ascii ''.tmp'')]"
    using assms by (auto simp: temporary_path_def res_simps with_file_name_def ok_or_def split: option.splits)
  then have "ass_path store \<noteq> []" "last (ass_path store) = Normal name"
    by (auto simp: path_file_name_def split: if_splits path_component.splits)
  then have "ass_path store = butlast (ass_path store) @ [Normal name]" by (metis append_butlast_last_id)
  then show ?thesis using name(2) by (metis append_is_Nil_conv append_self_conv ascii_def butlast_snoc last_snoc
        list.map_disc_iff list.discI path_component.inject)
qed

definition private_directory :: "atomic_state_store \<Rightarrow> inode \<Rightarrow> bool" where
  "private_directory store i \<longleftrightarrow> in_kind i = DirectoryFile \<and> in_uid i = ass_required_owner store
     \<and> in_mode i AND 0x1FF AND 0x12 = 0"

lemma validate_parent_cases:
  assumes "validate_parent store d = (r, d')"
  shows "same_files d d'"
    "r = Inr parent \<Longrightarrow> path_parent (ass_path store) = Some parent \<and> parent \<noteq> []
       \<and> (\<exists>i. dk_entries d parent = Some i \<and> private_directory store i)"
proof -
  have "same_files d d' \<and> (r = Inr parent \<longrightarrow> path_parent (ass_path store) = Some parent \<and> parent \<noteq> []
      \<and> (\<exists>i. dk_entries d parent = Some i \<and> private_directory store i))"
    using assms [unfolded validate_parent_def]
  proof (cases rule: tryS_cases)
    case (ok dir)
    then have dir: "path_parent (ass_path store) = Some dir" "dir \<noteq> []" by (auto simp: ok_or_def split: option.splits if_splits)
    from ok(2) show ?thesis
    proof (cases rule: thenS_cases)
      case (error e)
      then show ?thesis using symlink_metadata_cases(1) by fastforce
    next
      case (ok m d1)
      then have "same_files d d1" "dk_entries d dir = Some m" using symlink_metadata_cases by fastforce+
      then show ?thesis using ok(2) dir
        by (auto simp: private_directory_def validate_owner_def fail_if_def Let_def and.assoc split: if_splits)
    qed
  qed auto
  then show "same_files d d'" "r = Inr parent \<Longrightarrow> path_parent (ass_path store) = Some parent \<and> parent \<noteq> []
       \<and> (\<exists>i. dk_entries d parent = Some i \<and> private_directory store i)" by blast+
qed

lemma validate_existing_cases:
  assumes "validate_existing_file store d = (r, d')"
  shows "same_files d d'" "r = Inr None \<Longrightarrow> dk_entries d (ass_path store) = None"
    "r = Inr (Some i) \<Longrightarrow> dk_entries d (ass_path store) = Some i \<and> private_file store i"
proof -
  obtain m d1 where m: "symlink_metadata (ass_path store) d = (m, d1)" by fastforce
  note sc = symlink_metadata_cases [OF m]
  have d': "d' = d1" using assms m by (auto simp: validate_existing_file_def validate_owner_def fail_if_def Let_def
        split: sum.splits io_error_kind.splits if_splits)
  then show "same_files d d'" using sc(1) by simp
  show "r = Inr None \<Longrightarrow> dk_entries d (ass_path store) = None"
    using assms m sc(3) by (auto simp: validate_existing_file_def validate_owner_def fail_if_def Let_def
        split: sum.splits io_error_kind.splits if_splits)
  show "r = Inr (Some i) \<Longrightarrow> dk_entries d (ass_path store) = Some i \<and> private_file store i"
    using assms m sc(2) by (auto simp: validate_existing_file_def validate_owner_def fail_if_def Let_def
        private_file_def split: sum.splits io_error_kind.splits if_splits)
qed

lemma same_then: "same_files d d1 \<Longrightarrow> replaced_by store bytes d1 d' \<Longrightarrow> replaced_by store bytes d d'"
  by (simp add: same_files_def replaced_by_def)

lemma replaced_then_cleaned:
  "replaced_by store bytes d d1 \<Longrightarrow> changes_only t d1 d2 \<Longrightarrow> t \<noteq> ass_path store \<Longrightarrow> replaced_by store bytes d d2"
  by (simp add: changes_only_def replaced_by_def)

lemma save_bytes_effect:
  assumes "save_bytes codec store parent bytes d = (r, d')" "path_parent (ass_path store) = Some parent"
  shows "(\<exists>e. r = Inl e) \<and> dk_entries d' (ass_path store) = dk_entries d (ass_path store)
       \<and> dk_shadows d' (ass_path store) = dk_shadows d (ass_path store)
    \<or> replaced_by store bytes d d' \<and> (r = Inr () \<longrightarrow> dk_shadows d' (ass_path store) = [])"
  using assms(1) [unfolded save_bytes_def]
proof (cases rule: tryS_cases)
  case (ok t)
  have t: "t \<noteq> ass_path store" by (rule temporary_path_differs [OF ok(1)])
  obtain c d1 where c: "create_new t STATE_FILE_MODE d = (c, d1)" by fastforce
  note cc = create_new_cases [OF c]
  show ?thesis
  proof (cases c)
    case (Inl e)
    then show ?thesis using ok(2) c cc(2) by (auto simp: same_files_def)
  next
    case (Inr h)
    then obtain i where h: "h = t" "dk_entries d1 t = Some i" "in_bytes i = []" "in_kind i = RegularFile"
      using cc(3) by blast
    obtain w d2 where w: "write_temporary store parent t bytes t d1 = (w, d2)" by fastforce
    obtain q d3 where q: "remove_file t d2 = (q, d3)" by fastforce
    have result: "r = w \<and> d' = (case w of Inr _ \<Rightarrow> d2 | Inl _ \<Rightarrow> d3)"
      using ok(2) c Inr h(1) w q by (auto split: sum.splits)
    have kept: "dk_entries x (ass_path store) = dk_entries d (ass_path store)
        \<and> dk_shadows x (ass_path store) = dk_shadows d (ass_path store)" if "changes_only t d1 x" for x
      using cc(1) that t by (simp add: changes_only_def)
    have new: "replaced_by store bytes d x" if "replaced_by store bytes d1 x" for x
      using cc(1) that t by (simp add: changes_only_def replaced_by_def)
    show ?thesis
    proof (cases w)
      case (Inr u)
      then have "replaced_by store bytes d1 d'" "dk_shadows d' (ass_path store) = []" "r = Inr u"
        using write_effect [OF w t h(2-4) assms(2)] result by auto
      then show ?thesis using new by blast
    next
      case (Inl e)
      then have "r = Inl e" "changes_only t d1 d2 \<or> replaced_by store bytes d1 d2" "d' = d3"
        using write_effect [OF w t h(2-4) assms(2)] result by auto
      then show ?thesis
        using kept [OF changes_only_trans [OF _ remove_file_cases [OF q]]]
          new [OF replaced_then_cleaned [OF _ remove_file_cases [OF q] t]] by blast
    qed
  qed
qed auto

text \<open>What a save does to the state file: nothing, or the whole replacement.\<close>

lemma save_effect:
  assumes "atomic_save codec store s d = (r, d')"
  shows "(\<exists>e. r = Inl e) \<and> dk_entries d' (ass_path store) = dk_entries d (ass_path store)
       \<and> dk_shadows d' (ass_path store) = dk_shadows d (ass_path store)
    \<or> (\<exists>bytes. codec_to_vec codec s = Inr bytes \<and> length bytes \<le> MAX_STATE_BYTES
         \<and> state_validate (codec_json codec) s = Inr () \<and> replaced_by store bytes d d'
         \<and> (r = Inr () \<longrightarrow> dk_shadows d' (ass_path store) = []))"
  using assms [unfolded atomic_save_def]
proof (cases rule: tryS_cases)
  case valid: (ok u)
  from valid(2) show ?thesis
  proof (cases rule: thenS_cases)
    case (error e)
    then show ?thesis using validate_parent_cases(1) by (fastforce simp: same_files_def)
  next
    case par: (ok parent d1)
    note pc = validate_parent_cases(1) [OF par(1)] validate_parent_cases(2) [OF par(1) refl]
    from par(2) show ?thesis
    proof (cases rule: thenS_cases)
      case (error e)
      then show ?thesis using validate_existing_cases(1) pc(1) by (fastforce simp: same_files_def)
    next
      case ex: (ok existing d2)
      have s2: "same_files d d2" using pc(1) validate_existing_cases(1) [OF ex(1)] same_files_trans by blast
      from ex(2) show ?thesis
      proof (cases rule: tryS_cases)
        case (ok bytes)
        show ?thesis
        proof (cases "MAX_STATE_BYTES < length bytes")
          case False
          then have "save_bytes codec store parent bytes d2 = (r, d')" using ok(2) by simp
          from save_bytes_effect [OF this] pc(2) show ?thesis
            using s2 same_then [OF s2] ok(1) valid(1) False by (auto simp: same_files_def res_simps)
        qed (use ok(2) s2 in \<open>auto simp: same_files_def\<close>)
      qed (use s2 in \<open>auto simp: same_files_def\<close>)
    qed
  qed
qed auto

text \<open>What the state file may contain after a crash: the contents of the file its directory entry
  names now, or of one it named since the directory was last synced; a file that was not synced may
  contain anything.\<close>

definition inode_contents :: "inode option \<Rightarrow> u8 list option set" where
  "inode_contents v =
     (case v of None \<Rightarrow> {None} | Some i \<Rightarrow> if in_synced i then {Some (in_bytes i)} else range Some)"

definition crash_contents :: "disk \<Rightarrow> path \<Rightarrow> u8 list option set" where
  "crash_contents d p = (\<Union>v\<in>set (dk_entries d p # dk_shadows d p). inode_contents v)"

definition current_contents :: "disk \<Rightarrow> path \<Rightarrow> u8 list option" where
  "current_contents d p = map_option in_bytes (dk_entries d p)"

lemma replaced_contents:
  assumes "replaced_by store bytes d d'"
  shows "crash_contents d' (ass_path store) \<subseteq> insert (Some bytes) (crash_contents d (ass_path store))"
    "current_contents d' (ass_path store) = Some bytes"
    "dk_shadows d' (ass_path store) = [] \<Longrightarrow> crash_contents d' (ass_path store) = {Some bytes}"
  using assms by (auto simp: replaced_by_def crash_contents_def current_contents_def inode_contents_def)

text \<open>C3: a save is atomic. Whatever calls fail and wherever the machine stops, the state file
  afterwards reads as before or as exactly the bytes of the new state, and so does every content
  a crash may leave behind; only a state that passes validation and fits the limit is ever written,
  and when the save reports success, a crash can leave nothing but the new bytes.\<close>

theorem save_is_atomic:
  assumes "atomic_save codec store s d = (r, d')"
  shows "crash_contents d' (ass_path store) \<subseteq> crash_contents d (ass_path store)
        \<and> current_contents d' (ass_path store) = current_contents d (ass_path store) \<and> (\<exists>e. r = Inl e)
      \<or> (\<exists>bytes. codec_to_vec codec s = Inr bytes \<and> length bytes \<le> MAX_STATE_BYTES
          \<and> state_validate (codec_json codec) s = Inr ()
          \<and> crash_contents d' (ass_path store) \<subseteq> insert (Some bytes) (crash_contents d (ass_path store))
          \<and> current_contents d' (ass_path store) = Some bytes
          \<and> (r = Inr () \<longrightarrow> crash_contents d' (ass_path store) = {Some bytes}))"
  using save_effect [OF assms]
proof (elim disjE exE conjE)
  fix e
  assume "r = Inl e" "dk_entries d' (ass_path store) = dk_entries d (ass_path store)"
    "dk_shadows d' (ass_path store) = dk_shadows d (ass_path store)"
  then show ?thesis by (simp add: crash_contents_def current_contents_def)
next
  fix bytes
  assume "codec_to_vec codec s = Inr bytes" "length bytes \<le> MAX_STATE_BYTES"
    "state_validate (codec_json codec) s = Inr ()" "replaced_by store bytes d d'"
    "r = Inr () \<longrightarrow> dk_shadows d' (ass_path store) = []"
  then show ?thesis using replaced_contents by blast
qed

section \<open>Loading\<close>

definition stored_file :: "state_codec_ops \<Rightarrow> atomic_state_store \<Rightarrow> disk \<Rightarrow> state \<Rightarrow> bool" where
  "stored_file codec store d s \<longleftrightarrow>
     (\<exists>i. dk_entries d (ass_path store) = Some i \<and> private_file store i
        \<and> length (in_bytes i) \<le> MAX_STATE_BYTES \<and> codec_from_slice codec (in_bytes i) = Inr s
        \<and> state_validate (codec_json codec) s = Inr ())"

lemma decode_effect:
  assumes "tryS (map_err InvalidJson (codec_from_slice codec bytes)) d (\<lambda>s.
      tryS (map_err InvalidState (state_validate (codec_json codec) s)) d (\<lambda>_. (Inr s, d))) = (r, d')"
  shows "d' = d \<and> (\<forall>s. r = Inr s \<longrightarrow> codec_from_slice codec bytes = Inr s
      \<and> state_validate (codec_json codec) s = Inr ())"
  using assms
  by (cases "codec_from_slice codec bytes";
      cases "state_validate (codec_json codec) (projr (codec_from_slice codec bytes))") auto

lemma load_contents_effect:
  assumes "load_contents codec store d = (r, d')"
  shows "same_files d d' \<and> (\<forall>s. r = Inr s \<longrightarrow> stored_file codec store d s)"
  using assms [unfolded load_contents_def Let_def]
proof (cases rule: thenS_cases)
  case (error e)
  then obtain x where "open_read (ass_path store) d = (Inl x, d')" by auto
  then show ?thesis using open_read_cases(1) error(2) by blast
next
  case opened: (ok h d1)
  then have o: "open_read (ass_path store) d = (Inr h, d1)" by simp
  have h: "h = ass_path store" using open_read_cases(2) [OF o refl] by simp
  from opened(2) show ?thesis
  proof (cases rule: thenS_cases)
    case (error e)
    then obtain x where "handle_metadata h d1 = (Inl x, d')" by auto
    then show ?thesis using open_read_cases(1) [OF o] handle_metadata_cases(1) same_files_trans error(2) by blast
  next
    case inspected: (ok m d2)
    then have m: "handle_metadata h d1 = (Inr m, d2)" by simp
    have d2: "same_files d d2" "dk_entries d (ass_path store) = Some m"
      using open_read_cases(1) [OF o] handle_metadata_cases(1) [OF m] handle_metadata_cases(2) [OF m refl] h
      by (simp_all add: same_files_def)
    show ?thesis
    proof (cases "private_file store m")
      case False
      then show ?thesis using inspected(2) d2(1)
        by (auto simp: private_file_def validate_owner_def fail_if_def split: if_splits)
    next
      case True
      then have "thenS (io_call ''read state file'' (ass_path store)
          (file_read_bounded h (MAX_STATE_BYTES + 1) d2)) (\<lambda>bytes d.
          if MAX_STATE_BYTES < length bytes then (Inl (StateTooLarge (length bytes)), d)
          else
            tryS (map_err InvalidJson (codec_from_slice codec bytes)) d (\<lambda>s.
            tryS (map_err InvalidState (state_validate (codec_json codec) s)) d (\<lambda>_. (Inr s, d)))) = (r, d')"
        using inspected(2) by (simp add: private_file_def validate_owner_def fail_if_def)
      then show ?thesis
      proof (cases rule: thenS_cases)
        case (error e)
        then obtain x where "file_read_bounded h (MAX_STATE_BYTES + 1) d2 = (Inl x, d')" by auto
        then show ?thesis using d2(1) file_read_cases(1) same_files_trans error(2) by blast
      next
        case (ok bytes d3)
        then have f: "file_read_bounded h (MAX_STATE_BYTES + 1) d2 = (Inr bytes, d3)" by simp
        have d3: "same_files d d3" "bytes = take (MAX_STATE_BYTES + 1) (in_bytes m)"
          using file_read_cases(1) [OF f] file_read_cases(2) [OF f refl] d2 h by (auto simp: same_files_def)
        show ?thesis
        proof (cases "MAX_STATE_BYTES < length bytes")
          case True
          then show ?thesis using ok(2) d3(1) by auto
        next
          case False
          then have "bytes = in_bytes m" using d3(2) by auto
          then show ?thesis using decode_effect [of codec bytes d3 r d'] ok(2) False True d2(2) d3(1)
            by (auto simp: stored_file_def)
        qed
      qed
    qed
  qed
qed

lemma load_effect:
  assumes "atomic_load codec store d = (r, d')"
  shows "same_files d d'" "r = Inr None \<Longrightarrow> dk_entries d (ass_path store) = None"
    "r = Inr (Some s) \<Longrightarrow> stored_file codec store d s \<and> (\<exists>parent dir. path_parent (ass_path store) = Some parent
       \<and> dk_entries d parent = Some dir \<and> private_directory store dir)"
proof -
  have "same_files d d' \<and> (r = Inr None \<longrightarrow> dk_entries d (ass_path store) = None)
    \<and> (r = Inr (Some s) \<longrightarrow> stored_file codec store d s \<and> (\<exists>parent dir. path_parent (ass_path store) = Some parent
       \<and> dk_entries d parent = Some dir \<and> private_directory store dir))"
    using assms [unfolded atomic_load_def]
  proof (cases rule: thenS_cases)
    case (error e)
    then show ?thesis using validate_parent_cases(1) by fastforce
  next
    case par: (ok parent d1)
    note pc = validate_parent_cases(1) [OF par(1)] validate_parent_cases(2) [OF par(1) refl]
    from par(2) show ?thesis
    proof (cases rule: thenS_cases)
      case (error e)
      then show ?thesis using validate_existing_cases(1) pc(1) same_files_trans by fastforce
    next
      case ex: (ok existing d2)
      have d2: "same_files d d2" using validate_existing_cases(1) [OF ex(1)] pc(1) same_files_trans by blast
      show ?thesis
      proof (cases existing)
        case None
        then have "dk_entries d1 (ass_path store) = None" using validate_existing_cases(2) [OF ex(1)] by simp
        then show ?thesis using ex(2) None d2 pc(1) by (auto simp: same_files_def)
      next
        case (Some i)
        obtain q d3 where q: "load_contents codec store d2 = (q, d3)" by fastforce
        have same: "stored_file codec store d2 t = stored_file codec store d t" for t
          using d2 by (simp add: stored_file_def same_files_def)
        have d3: "same_files d d3" "\<forall>t. q = Inr t \<longrightarrow> stored_file codec store d t"
          using load_contents_effect [OF q] d2 same_files_trans same by blast+
        have "r = (case q of Inl e \<Rightarrow> Inl e | Inr t \<Rightarrow> Inr (Some t)) \<and> d' = d3"
          using ex(2) Some q by (cases q) auto
        then show ?thesis using d3 pc(2) by (cases q) auto
      qed
    qed
  qed
  then show "same_files d d'" "r = Inr None \<Longrightarrow> dk_entries d (ass_path store) = None"
    "r = Inr (Some s) \<Longrightarrow> stored_file codec store d s \<and> (\<exists>parent dir. path_parent (ass_path store) = Some parent
       \<and> dk_entries d parent = Some dir \<and> private_directory store dir)" by blast+
qed

text \<open>a load trusts nothing but a private file. The directory it reads from is a real
  directory of the required owner that nobody else may write to, the file is a regular file of that
  owner with mode 0600 and no more than the limit of bytes, and a state is returned only if those
  bytes decode to it and it passes validation; that there is no state is reported only when there
  is no file. A load changes nothing.\<close>

theorem load_trusts_private_files:
  assumes "atomic_load codec store d = (r, d')"
  shows "same_files d d' \<and> (r = Inr None \<longrightarrow> dk_entries d (ass_path store) = None)
    \<and> (\<forall>s. r = Inr (Some s) \<longrightarrow> stored_file codec store d s
         \<and> (\<exists>parent dir. path_parent (ass_path store) = Some parent
              \<and> dk_entries d parent = Some dir \<and> private_directory store dir))"
  using load_effect [OF assms] by blast

section \<open>Loading what was saved\<close>

text \<open>The calls of a save touch the temporary file and the state file only.\<close>

definition changes_within :: "path set \<Rightarrow> disk \<Rightarrow> disk \<Rightarrow> bool" where
  "changes_within T d d' \<longleftrightarrow> (\<forall>q. q \<notin> T \<longrightarrow> dk_entries d' q = dk_entries d q)"

lemma changes_within_intros [simp, intro]:
  "changes_within T d d" "same_files d d' \<Longrightarrow> changes_within T d d'"
  "changes_only t d d' \<Longrightarrow> t \<in> T \<Longrightarrow> changes_within T d d'"
  by (auto simp: changes_within_def same_files_def changes_only_def)

lemma changes_within_trans: "changes_within T d d1 \<Longrightarrow> changes_within T d1 d2 \<Longrightarrow> changes_within T d d2"
  by (simp add: changes_within_def)

lemma thenS_within:
  assumes "changes_within T d (snd m)" "\<And>x. changes_within T (snd m) (snd (k x (snd m)))"
  shows "changes_within T d (snd (thenS m k))"
  using assms changes_within_trans by (cases m; cases "fst m") force+

lemma tryS_within: "(\<And>x. changes_within T d (snd (k x))) \<Longrightarrow> changes_within T d (snd (tryS r d k))"
  by (cases r) simp_all

lemma io_call_within [simp]: "snd (io_call operation p m) = snd m"
  by (simp add: io_call_def)

lemma rename_path_within:
  assumes "rename_path t p d = (r, d')"
  shows "changes_within {t, p} d d'"
  using assms [unfolded rename_path_def]
  by (cases rule: syscall_cases)
    (auto simp: changes_within_def same_files_def relink_def set_entry_def split: option.splits if_splits)

lemma directory_sync_within: "directory_sync_all dir d = (r, d') \<Longrightarrow> changes_within T d d'"
  using directory_sync_cases(1) by (simp add: changes_within_def)

lemma calls_within:
  "changes_within {t, p} d (snd (rename_path t p d))"
  "changes_within T d (snd (directory_sync_all dir d))"
  "changes_within T d (snd (open_directory dir d))"
  "changes_within T d (snd (handle_metadata h d))"
  "t \<in> T \<Longrightarrow> changes_within T d (snd (file_write_all t bytes d))"
  "t \<in> T \<Longrightarrow> changes_within T d (snd (file_sync_all t d))"
  using rename_path_within [OF surjective_pairing] directory_sync_within [OF surjective_pairing]
    open_directory_cases(1) [OF surjective_pairing] handle_metadata_cases(1) [OF surjective_pairing]
    file_write_all_cases(1) [OF surjective_pairing] file_sync_all_cases(1) [OF surjective_pairing]
  by blast+

lemma replace_steps_within: "changes_within {t, ass_path store} d (snd (replace_steps store parent t bytes t d))"
  unfolding replace_steps_def
  by (rule thenS_within, simp add: calls_within)+ (simp, rule thenS_within; simp add: calls_within)

lemma write_temporary_within: "changes_within {t, ass_path store} d (snd (write_temporary store parent t bytes t d))"
  unfolding write_temporary_def
  by (rule thenS_within, simp add: calls_within) (rule tryS_within, simp add: replace_steps_within)

lemma save_bytes_within:
  assumes "save_bytes codec store parent bytes d = (r, d')" "temporary_path codec store = Inr t"
  shows "changes_within {t, ass_path store} d d'"
proof -
  obtain c d1 where c: "create_new t STATE_FILE_MODE d = (c, d1)" by fastforce
  have d1: "changes_within {t, ass_path store} d d1" using create_new_cases(1) [OF c] by blast
  obtain w d2 where w: "write_temporary store parent t bytes t d1 = (w, d2)" by fastforce
  have d2: "changes_within {t, ass_path store} d d2"
    using changes_within_trans [OF d1] write_temporary_within [of t store d1 parent bytes] w by simp
  obtain q d3 where q: "remove_file t d2 = (q, d3)" by fastforce
  have d3: "changes_within {t, ass_path store} d d3"
    using changes_within_trans [OF d2] remove_file_cases [OF q] by blast
  show ?thesis
  proof (cases c)
    case (Inl e)
    then show ?thesis using assms c d1 by (simp add: save_bytes_def)
  next
    case (Inr h)
    then have "h = t" using create_new_cases(3) [OF c] by blast
    then show ?thesis using assms c Inr w q d2 d3 by (cases w) (auto simp: save_bytes_def)
  qed
qed

lemma save_success:
  assumes "atomic_save codec store s d = (Inr u, d')"
  obtains parent dir where "path_parent (ass_path store) = Some parent" "parent \<noteq> []"
    "dk_entries d' parent = Some dir" "private_directory store dir" "\<not> dk_stopped d'"
proof -
  obtain parent d1 existing d2 bytes where par: "validate_parent store d = (Inr parent, d1)"
      and ex: "validate_existing_file store d1 = (Inr existing, d2)"
      and sv: "save_bytes codec store parent bytes d2 = (Inr u, d')"
    using assms by (auto simp: atomic_save_def res_simps split: if_splits)
  obtain t where t: "temporary_path codec store = Inr t" using sv by (auto simp: save_bytes_def res_simps)
  note pc = validate_parent_cases(1) [OF par] validate_parent_cases(2) [OF par refl]
  obtain dir where dir: "dk_entries d parent = Some dir" "private_directory store dir" using pc(2) by blast
  have "length parent < length (ass_path store)"
    using pc(2) by (auto simp: path_parent_def split: if_splits)
  moreover have "length t = length (ass_path store)"
    using t by (auto simp: temporary_path_def res_simps with_file_name_def path_file_name_def
        split: if_splits option.splits path_component.splits)
  ultimately have "parent \<notin> {t, ass_path store}" by auto
  then have "dk_entries d' parent = Some dir"
    using save_bytes_within [OF sv t] pc(1) validate_existing_cases(1) [OF ex] dir(1)
    by (simp add: changes_within_def same_files_def)
  moreover have "\<not> dk_stopped d'"
    using sv t by (auto simp: save_bytes_def write_temporary_def replace_steps_def res_simps directory_sync_all_def
        syscall_def next_outcome_def split: if_splits sum.splits prod.splits io_outcome.splits list.splits)
  ultimately show thesis using that pc(2) dir(2) by blast
qed

lemma quiet_syscall: "\<not> dk_stopped d \<Longrightarrow> dk_outcomes d = [] \<Longrightarrow> syscall works partly d = works d"
  by (simp add: syscall_def next_outcome_def)

lemmas quiet_calls = symlink_metadata_def open_read_def handle_metadata_def file_read_bounded_def quiet_syscall

lemma quiet_load:
  assumes "\<not> dk_stopped d" "dk_outcomes d = []" "stored_file codec store d s"
    and "path_parent (ass_path store) = Some parent" "parent \<noteq> []"
    and "dk_entries d parent = Some dir" "private_directory store dir"
  shows "atomic_load codec store d = (Inr (Some s), d)"
proof -
  have "validate_parent store d = (Inr parent, d)"
    using assms by (simp add: validate_parent_def quiet_calls ok_or_def io_call_def private_directory_def
        validate_owner_def fail_if_def Let_def and.assoc)
  moreover obtain i where i: "dk_entries d (ass_path store) = Some i" "private_file store i"
      "length (in_bytes i) \<le> MAX_STATE_BYTES" "codec_from_slice codec (in_bytes i) = Inr s"
      "state_validate (codec_json codec) s = Inr ()"
    using assms(3) by (auto simp: stored_file_def)
  moreover have "validate_existing_file store d = (Inr (Some i), d)"
    using i assms(1,2) by (simp add: validate_existing_file_def quiet_calls ok_or_def private_file_def
        validate_owner_def fail_if_def Let_def)
  moreover have "load_contents codec store d = (Inr s, d)"
    using i assms(1,2) by (simp add: load_contents_def quiet_calls ok_or_def io_call_def private_file_def
        validate_owner_def fail_if_def Let_def)
  ultimately show ?thesis by (simp add: atomic_load_def)
qed

text \<open>What \<open>serde_json\<close> promises: what it writes reads back, and a state that was read keeps its rules in
  a map.\<close>

locale state_codec =
  fixes codec :: state_codec_ops
  assumes decode_encode: "codec_to_vec codec s = Inr bytes \<Longrightarrow> codec_from_slice codec bytes = Inr s"
    and decode_wf: "codec_from_slice codec bytes = Inr s \<Longrightarrow> omap_wf (st_rules s)"
begin

lemma saved_file:
  assumes "atomic_save codec store s d = (Inr u, d')"
  shows "stored_file codec store d' s"
  using save_effect [OF assms] decode_encode by (auto simp: replaced_by_def stored_file_def)

lemma loaded_after_save:
  assumes "atomic_save codec store s d = (Inr u, d')" "dk_outcomes d' = []"
  shows "atomic_load codec store d' = (Inr (Some s), d')"
  by (rule save_success [OF assms(1)]) (use quiet_load saved_file [OF assms(1)] assms(2) in blast)

lemma loaded_inv: "stored_file codec store d s \<Longrightarrow> state_inv s"
  using decode_wf by (auto simp: stored_file_def state_inv_def state_validate_Inr)

end

text \<open>C37: what was saved is what is loaded. After a save that reported success, a load whose calls
  succeed returns exactly the saved state, provided the JSON library reads back what it wrote; it
  passes every check of owner, mode and type that the load makes.\<close>

theorem load_after_save:
  assumes "state_codec codec" "atomic_save codec store s d = (Inr u, d')" "dk_outcomes d' = []"
  shows "atomic_load codec store d' = (Inr (Some s), d')"
  by (rule state_codec.loaded_after_save [OF assms])

section \<open>Saving on a quiet machine\<close>

text \<open>A disk on which a save can work: no call fails, the directory is private, the state file is
  absent or private, the temporary name is free, and new files belong to the owner with mode 0600.\<close>

definition ready :: "state_codec_ops \<Rightarrow> atomic_state_store \<Rightarrow> disk \<Rightarrow> bool" where
  "ready codec store d \<longleftrightarrow> \<not> dk_stopped d \<and> dk_outcomes d = []
     \<and> (case path_parent (ass_path store) of
          None \<Rightarrow> False
        | Some parent \<Rightarrow> parent \<noteq> [] \<and> is_some_and (dk_entries d parent) (private_directory store))
     \<and> is_none_or (dk_entries d (ass_path store)) (private_file store)
     \<and> (case temporary_path codec store of Inl _ \<Rightarrow> False | Inr t \<Rightarrow> dk_entries d t = None)
     \<and> dk_uid d = ass_required_owner store
     \<and> STATE_FILE_MODE AND NOT (dk_umask d) AND 0x1FF = STATE_FILE_MODE"

lemma ready_validate:
  assumes "ready codec store d"
  obtains parent existing where "validate_parent store d = (Inr parent, d)"
    "validate_existing_file store d = (Inr existing, d)" "path_parent (ass_path store) = Some parent"
    "dk_entries d parent \<noteq> None"
proof -
  obtain parent dir where p: "path_parent (ass_path store) = Some parent" "parent \<noteq> []"
      "dk_entries d parent = Some dir" "private_directory store dir"
    using assms by (auto simp: ready_def is_some_and_iff split: option.splits)
  have quiet: "\<not> dk_stopped d" "dk_outcomes d = []" using assms by (simp_all add: ready_def)
  have "validate_parent store d = (Inr parent, d)"
    using p quiet by (simp add: validate_parent_def quiet_calls ok_or_def io_call_def private_directory_def
        validate_owner_def fail_if_def Let_def and.assoc)
  moreover have "validate_existing_file store d = (Inr (dk_entries d (ass_path store)), d)"
    using assms quiet by (auto simp: ready_def is_none_or_iff validate_existing_file_def quiet_calls ok_or_def
        private_file_def validate_owner_def fail_if_def Let_def split: option.splits)
  ultimately show thesis using that p by blast
qed

lemma quiet_replace:
  assumes "\<not> dk_stopped d" "dk_outcomes d = []" "dk_entries d t = Some i" "private_file store i" "in_bytes i = []"
    and "t \<noteq> ass_path store" "is_none_or (dk_entries d (ass_path store)) (private_file store)"
    and "parent \<noteq> t" "parent \<noteq> ass_path store" "dk_entries d parent \<noteq> None"
  obtains d' where "write_temporary store parent t bytes t d = (Inr (), d')"
    "\<not> dk_stopped d'" "dk_outcomes d' = []" "dk_uid d' = dk_uid d" "dk_umask d' = dk_umask d"
    "dk_entries d' = (dk_entries d)(ass_path store := Some (i\<lparr>in_bytes := bytes, in_synced := True\<rparr>), t := None)"
proof -
  have target: "is_some_and (dk_entries d (ass_path store)) (\<lambda>old. in_kind old = DirectoryFile) = False"
    using assms(7) by (auto simp: is_none_or_iff is_some_and_iff private_file_def)
  obtain p where p: "dk_entries d parent = Some p" using assms(10) by blast
  have eq: "write_temporary store parent t bytes t d = (Inr (), snd (write_temporary store parent t bytes t d))
    \<and> \<not> dk_stopped (snd (write_temporary store parent t bytes t d))
    \<and> dk_outcomes (snd (write_temporary store parent t bytes t d)) = []
    \<and> dk_uid (snd (write_temporary store parent t bytes t d)) = dk_uid d
    \<and> dk_umask (snd (write_temporary store parent t bytes t d)) = dk_umask d
    \<and> dk_entries (snd (write_temporary store parent t bytes t d)) =
        (dk_entries d)(ass_path store := Some (i\<lparr>in_bytes := bytes, in_synced := True\<rparr>), t := None)"
    using assms(1-6,8,9) target p
    by (simp add: write_temporary_def replace_steps_def quiet_calls file_write_all_def file_sync_all_def
        rename_path_def open_directory_def directory_sync_all_def append_bytes_def set_entry_def relink_def
        io_call_def ok_or_def validate_owner_def fail_if_def private_file_def fun_upd_twist)
  show thesis by (rule that [of "snd (write_temporary store parent t bytes t d)"]) (use eq in simp_all)
qed

lemma ready_save:
  assumes "ready codec store d" "state_validate (codec_json codec) s = Inr ()"
    and "codec_to_vec codec s = Inr bytes" "length bytes \<le> MAX_STATE_BYTES"
  shows "\<exists>d'. atomic_save codec store s d = (Inr (), d') \<and> ready codec store d'"
proof -
  obtain parent existing where p: "validate_parent store d = (Inr parent, d)"
      "validate_existing_file store d = (Inr existing, d)" "path_parent (ass_path store) = Some parent"
      "dk_entries d parent \<noteq> None"
    by (rule ready_validate [OF assms(1)])
  obtain t where t: "temporary_path codec store = Inr t" "dk_entries d t = None"
    using assms(1) by (auto simp: ready_def split: sum.splits)
  have len: "length parent < length (ass_path store)" "length t = length (ass_path store)"
    using p(3) t(1) by (auto simp: path_parent_def temporary_path_def res_simps with_file_name_def path_file_name_def
        split: if_splits option.splits path_component.splits)
  then have parent: "parent \<noteq> t" "parent \<noteq> ass_path store" by auto
  note tp = temporary_path_differs [OF t(1)]
  define i where "i = \<lparr>in_kind = RegularFile, in_uid = dk_uid d,
    in_mode = STATE_FILE_MODE AND NOT (dk_umask d), in_bytes = [], in_synced = False\<rparr>"
  have created: "create_new t STATE_FILE_MODE d = (Inr t, relink t (Some i) d)"
    using t(2) assms(1) by (simp add: create_new_def quiet_syscall ready_def i_def)
  have i: "private_file store i" "in_bytes i = []"
    using assms(1) by (simp_all add: private_file_def i_def ready_def and.assoc)
  obtain d' where d': "write_temporary store parent t bytes t (relink t (Some i) d) = (Inr (), d')"
      "\<not> dk_stopped d'" "dk_outcomes d' = []" "dk_uid d' = dk_uid d" "dk_umask d' = dk_umask d"
      "dk_entries d' = (dk_entries d)(ass_path store := Some (i\<lparr>in_bytes := bytes, in_synced := True\<rparr>), t := None)"
    by (rule quiet_replace [of "relink t (Some i) d" t i store parent bytes])
      (use assms(1) tp parent i p(4) in \<open>auto simp: relink_def set_entry_def ready_def fun_upd_twist\<close>)
  have "atomic_save codec store s d = (Inr (), d')"
    using assms(2-4) p t(1) created d'(1) by (simp add: atomic_save_def save_bytes_def)
  moreover have "private_file store (i\<lparr>in_bytes := bytes, in_synced := True\<rparr>)"
    using i(1) by (simp add: private_file_def)
  then have "ready codec store d'"
    using assms(1) d' t p(3) parent tp by (simp add: ready_def)
  ultimately show ?thesis by blast
qed

section \<open>A file system to run on\<close>

text \<open>A codec for the states of a table, and a directory of root.\<close>

fun table_index :: "'a \<Rightarrow> 'a list \<Rightarrow> nat option" where
  "table_index s [] = None"
| "table_index s (t # ts) = (if s = t then Some 0 else map_option Suc (table_index s ts))"

definition table_codec :: "state list \<Rightarrow> state_codec_ops" where
  "table_codec states =
     \<lparr>codec_json = \<lparr>json_state_writes = (\<lambda>_. ([2], None)), json_rule_len = (\<lambda>_. Inr 0)\<rparr>,
      codec_to_vec = (\<lambda>s. case table_index s states of
          Some n \<Rightarrow> if n < 256 then Inr [of_nat n] else Inl (ascii ''table overflow'')
        | None \<Rightarrow> Inl (ascii ''unknown state'')),
      codec_from_slice = (\<lambda>bytes. case bytes of
          [b] \<Rightarrow> if unat b < length states then Inr (states ! unat b) else Inl (ascii ''unknown index'')
        | _ \<Rightarrow> Inl (ascii ''expected value'')),
      codec_uuid_text = ascii ''u''\<rparr>"

lemma table_index_Some: "table_index s ts = Some n \<Longrightarrow> n < length ts \<and> ts ! n = s"
  by (induction ts arbitrary: n) (auto split: if_splits)

lemma table_codec_laws:
  assumes "list_all (\<lambda>s. omap_wf (st_rules s)) states"
  shows "state_codec (table_codec states)"
  using assms table_index_Some
  by unfold_locales (fastforce simp: table_codec_def list_all_length unat_of_nat split: option.splits if_splits list.splits)+

interpretation new_codec: state_codec "table_codec [state_new]"
  by (rule table_codec_laws) (simp add: state_new_def)

definition sample_store :: atomic_state_store where
  "sample_store = root_owned [RootDir, Normal (ascii ''lib''), Normal (ascii ''state'')]"

definition sample_disk :: "io_outcome list \<Rightarrow> disk" where
  "sample_disk outcomes =
     \<lparr>dk_entries = [[RootDir, Normal (ascii ''lib'')] \<mapsto>
        \<lparr>in_kind = DirectoryFile, in_uid = 0, in_mode = 0x1C0, in_bytes = [], in_synced = True\<rparr>],
      dk_shadows = (\<lambda>_. []), dk_outcomes = outcomes, dk_stopped = False, dk_uid = 0, dk_umask = 0x3F\<rparr>"

lemma sample_ready: "ready (table_codec states) sample_store (sample_disk [])"
  by (simp add: ready_def sample_disk_def sample_store_def root_owned_def table_codec_def path_parent_def
      is_none_or_iff temporary_path_def path_file_name_def ok_or_def with_file_name_def private_directory_def
      STATE_FILE_MODE_def ascii_def)

lemma table_valid:
  assumes "st_rules s = []" "flow_generation_in_domain (st_flow_generation s)"
  shows "state_validate (codec_json (table_codec states)) s = Inr ()"
  using assms
  by (simp add: state_validate_Inr table_codec_def bounded_serialized_state_size_def is_ok_iff
      size_counter_write_def checked_add_usize_def MAX_STATE_BYTES_def Let_def)

lemma table_encodes:
  "table_index s states = Some n \<Longrightarrow> n < 256 \<Longrightarrow> codec_to_vec (table_codec states) s = Inr [of_nat n]"
  by (simp add: table_codec_def)

lemma table_save:
  assumes "ready (table_codec states) store d" "st_rules s = []" "flow_generation_in_domain (st_flow_generation s)"
    and "table_index s states = Some n" "n < 256"
  shows "\<exists>d'. atomic_save (table_codec states) store s d = (Inr (), d') \<and> ready (table_codec states) store d'"
  by (rule ready_save [OF assms(1) table_valid [OF assms(2,3)] table_encodes [OF assms(4,5)]])
    (simp add: MAX_STATE_BYTES_def)

abbreviation sample_run :: "io_outcome list \<Rightarrow> (storage_error + unit) \<times> disk" where
  "sample_run outcomes \<equiv> atomic_save (table_codec [state_new]) sample_store state_new (sample_disk outcomes)"

lemma sample_save: "fst (sample_run []) = Inr ()" "dk_outcomes (snd (sample_run [])) = []"
proof -
  obtain d' where "sample_run [] = (Inr (), d')" "ready (table_codec [state_new]) sample_store d'"
    using table_save [OF sample_ready [of "[state_new]"], of state_new 0]
    by (auto simp: state_new_def flow_generation_in_domain_def initial_flow_generation_def MAX_FLOW_GENERATION_def)
  then show "fst (sample_run []) = Inr ()" "dk_outcomes (snd (sample_run [])) = []" by (simp_all add: ready_def)
qed

theorem save_is_atomic_witness:
  "crash_contents (snd (sample_run (replicate 7 Works @ [MachineStops]))) (ass_path sample_store)
     \<subseteq> {None, Some [0]}"
proof -
  have "crash_contents (sample_disk (replicate 7 Works @ [MachineStops])) (ass_path sample_store) = {None}"
    by (simp add: crash_contents_def sample_disk_def sample_store_def root_owned_def inode_contents_def)
  moreover have "codec_to_vec (table_codec [state_new]) state_new = Inr [0]"
    by (simp add: table_codec_def)
  ultimately show ?thesis
    using save_is_atomic [OF surjective_pairing, of "table_codec [state_new]" sample_store state_new
        "sample_disk (replicate 7 Works @ [MachineStops])"] by auto
qed

theorem load_after_save_witness:
  "state_codec (table_codec [state_new]) \<and> fst (sample_run []) = Inr ()
   \<and> atomic_load (table_codec [state_new]) sample_store (snd (sample_run []))
       = (Inr (Some state_new), snd (sample_run []))"
proof -
  have "sample_run [] = (Inr (), snd (sample_run []))" using sample_save(1) by (metis prod.collapse)
  then show ?thesis
    using load_after_save [OF new_codec.state_codec_axioms _ sample_save(2)] new_codec.state_codec_axioms sample_save(1)
    by blast
qed

theorem load_trusts_private_files_witness:
  "stored_file (table_codec [state_new]) sample_store (snd (sample_run [])) state_new"
proof -
  have "sample_run [] = (Inr (), snd (sample_run []))" using sample_save(1) by (metis prod.collapse)
  from load_trusts_private_files [OF new_codec.loaded_after_save [OF this sample_save(2)]] show ?thesis by blast
qed

end
