(* ===== verification/Engine_Properties.thy ===== *)
theory Engine_Properties
  imports Engine_Steps Storage_Properties
begin

text \<open>
  The properties of the policy engine on the daemon's host: the state store of \<open>storage.rs\<close> on a file
  system whose calls may fail, and any firewall backend whose successful calls installed what they
  were asked to. What the kernel and \<open>nft\<close> or \<open>iptables\<close> do is the backend's contract
  \<open>firewall_backend\<close>; what \<open>serde_json\<close> does is \<open>state_codec\<close>. Everything else is the model's.
\<close>

section \<open>The daemon's host\<close>

record 'k backend_ops =
  be_kind :: "'k \<Rightarrow> firewall_backend_kind"
  be_apply :: "snapshot \<Rightarrow> 'k \<Rightarrow> (ustring + unit) \<times> 'k"
  be_fail_closed :: "'k \<Rightarrow> (ustring + unit) \<times> 'k"

record 'k daemon_host =
  dh_backend :: 'k
  dh_disk :: disk

definition daemon_ops ::
    "state_codec_ops \<Rightarrow> atomic_state_store \<Rightarrow> (storage_error \<Rightarrow> ustring) \<Rightarrow> 'k backend_ops
     \<Rightarrow> 'k daemon_host host_ops" where
  "daemon_ops codec store error_text backend =
     \<lparr>op_kind = (\<lambda>h. be_kind backend (dh_backend h)),
      op_apply = (\<lambda>sn h. let (r, k) = be_apply backend sn (dh_backend h) in (r, h\<lparr>dh_backend := k\<rparr>)),
      op_fail_closed = (\<lambda>h. let (r, k) = be_fail_closed backend (dh_backend h) in (r, h\<lparr>dh_backend := k\<rparr>)),
      op_load = (\<lambda>h. let (r, d) = atomic_load codec store (dh_disk h)
                      in (map_err error_text r, h\<lparr>dh_disk := d\<rparr>)),
      op_save = (\<lambda>s h. let (r, d) = atomic_save codec store s (dh_disk h)
                        in (map_err error_text r, h\<lparr>dh_disk := d\<rparr>))\<rparr>"

text \<open>The state that the state file holds.\<close>

definition stored_state :: "state_codec_ops \<Rightarrow> atomic_state_store \<Rightarrow> 'k daemon_host \<Rightarrow> state option" where
  "stored_state codec store h =
     (case dk_entries (dh_disk h) (ass_path store) of
        None \<Rightarrow> None
      | Some i \<Rightarrow> res_ok (codec_from_slice codec (in_bytes i)))"

locale firewall_backend =
  fixes backend :: "'k backend_ops"
    and view :: "'k \<Rightarrow> kernel_policy"
  assumes backend_applies: "be_apply backend sn k = (Inr u, k') \<Longrightarrow> view k' = InstalledPolicy sn"
    and backend_closes: "be_fail_closed backend k = (Inr u, k') \<Longrightarrow> view k' = InstalledBlockAll"

locale daemon = firewall_backend backend view + state_codec codec
  for backend :: "'k backend_ops" and view :: "'k \<Rightarrow> kernel_policy" and codec :: state_codec_ops +
  fixes store :: atomic_state_store
    and error_text :: "storage_error \<Rightarrow> ustring"
begin

lemma load_call:
  assumes "op_load (daemon_ops codec store error_text backend) h = (r, h')"
  shows "stored_state codec store h' = stored_state codec store h \<and> dh_backend h' = dh_backend h
    \<and> (\<forall>stored. r = Inr stored \<longrightarrow> stored = stored_state codec store h)
    \<and> (\<forall>s. r = Inr (Some s) \<longrightarrow> state_inv s)"
proof -
  obtain q d where q: "atomic_load codec store (dh_disk h) = (q, d)" by fastforce
  have h': "h' = h\<lparr>dh_disk := d\<rparr>" "r = map_err error_text q" using assms q by (simp_all add: daemon_ops_def)
  note le = load_effect [OF q]
  have "stored = stored_state codec store h" if "q = Inr stored" for stored
  proof (cases stored)
    case None
    then show ?thesis using le(2) that by (simp add: stored_state_def)
  next
    case (Some s)
    then show ?thesis using le(3) [of s] that by (auto simp: stored_state_def stored_file_def)
  qed
  moreover have "state_inv s" if "q = Inr (Some s)" for s using le(3) [OF that] loaded_inv by blast
  ultimately show ?thesis using h' le(1) by (auto simp: stored_state_def same_files_def res_simps)
qed

lemma save_call:
  assumes "op_save (daemon_ops codec store error_text backend) s h = (r, h')"
  shows "dh_backend h' = dh_backend h \<and> (r = Inr () \<longrightarrow> stored_state codec store h' = Some s)"
proof -
  obtain q d where q: "atomic_save codec store s (dh_disk h) = (q, d)" by fastforce
  then have h': "h' = h\<lparr>dh_disk := d\<rparr>" "r = map_err error_text q" using assms by (simp_all add: daemon_ops_def)
  have "stored_state codec store h' = Some s" if "q = Inr ()"
    using saved_file [OF q [unfolded that]] h'(1) by (auto simp: stored_state_def stored_file_def)
  then show ?thesis using h' by (auto simp: res_simps)
qed

end

sublocale daemon \<subseteq> policy_host "daemon_ops codec store error_text backend" "\<lambda>h. view (dh_backend h)"
  "stored_state codec store"
proof (unfold_locales, goal_cases)
  case (1 sn h u h')
  then show ?case using backend_applies by (auto simp: daemon_ops_def split: prod.splits)
next
  case (2 sn h r h')
  then show ?case by (auto simp: daemon_ops_def stored_state_def split: prod.splits)
next
  case (3 h u h')
  then show ?case using backend_closes by (auto simp: daemon_ops_def split: prod.splits)
next
  case (4 h r h')
  then show ?case by (auto simp: daemon_ops_def stored_state_def split: prod.splits)
next
  case (5 h stored h')
  then show ?case using load_call by blast
next
  case (6 h s h')
  then show ?case using load_call by blast
next
  case (7 h l h')
  from load_call [OF 7] show ?case by simp
next
  case (8 s h u h')
  from save_call [OF 8] show ?case by simp
next
  case (9 s h r h')
  from save_call [OF 9] show ?case by simp
qed

context daemon
begin

lemma host_contract: "policy_host (daemon_ops codec store error_text backend) (\<lambda>h. view (dh_backend h))
    (stored_state codec store)"
  by (rule policy_host_axioms)

end

lemma daemon_contract:
  assumes "firewall_backend backend view" "state_codec codec"
  shows "policy_host (daemon_ops codec store error_text backend) (\<lambda>h. view (dh_backend h))
    (stored_state codec store)"
  by (rule daemon.host_contract [OF daemon.intro [OF assms]])

lemmas daemon_facts = policy_host.reachable_inv [OF daemon_contract]
  policy_host.handle_control_meaning [OF daemon_contract]
  policy_host.startup_meaning [OF daemon_contract] policy_host.startup_failure [OF daemon_contract]

section \<open>A backend to run on\<close>

text \<open>A backend that follows a script: \<open>None\<close> is a call that works, \<open>Some k\<close> a call that fails and
  leaves the kernel with policy \<open>k\<close>, and after the script every call works.\<close>

record scripted_kernel =
  sk_policy :: kernel_policy
  sk_script :: "kernel_policy option list"

definition scripted_call :: "kernel_policy \<Rightarrow> scripted_kernel \<Rightarrow> (ustring + unit) \<times> scripted_kernel" where
  "scripted_call policy k =
     (case sk_script k of
        [] \<Rightarrow> (Inr (), k\<lparr>sk_policy := policy\<rparr>)
      | None # rest \<Rightarrow> (Inr (), k\<lparr>sk_policy := policy, sk_script := rest\<rparr>)
      | Some left # rest \<Rightarrow> (Inl (ascii ''nft failed''), k\<lparr>sk_policy := left, sk_script := rest\<rparr>))"

definition scripted_backend :: "scripted_kernel backend_ops" where
  "scripted_backend = \<lparr>be_kind = (\<lambda>_. Nftables), be_apply = (\<lambda>sn. scripted_call (InstalledPolicy sn)),
     be_fail_closed = scripted_call InstalledBlockAll\<rparr>"

lemma scripted_backend_laws: "firewall_backend scripted_backend sk_policy"
  by unfold_locales (auto simp: scripted_backend_def scripted_call_def split: list.splits option.splits)

text \<open>The states of a first start: Learning, with its own epoch; and BlockAll after it.\<close>

definition sample_env :: engine_env where
  "sample_env = \<lparr>env_json = codec_json (table_codec []), env_net_from = (\<lambda>_. NetV4 0 0), env_net_trunc = id,
     env_file_system = (\<lambda>_. \<lparr>fs_canonicalize = (\<lambda>_ _. Inl []), fs_open = (\<lambda>_ _. Inl [])\<rparr>),
     env_draws = (\<lambda>n. (of_nat n + 1, 7)), env_core_text = (\<lambda>_. ascii ''core''),
     env_application_text = (\<lambda>_. ascii ''application''), env_pin_text = (\<lambda>_. ascii ''pin''),
     env_uuid_text = (\<lambda>_. ascii ''id'')\<rparr>"

definition first_state :: state where
  "first_state = state_new\<lparr>st_revision := 1, st_mode := Learning, st_flow_generation := 3\<rparr>"

definition blocked_state :: state where
  "blocked_state = first_state\<lparr>st_revision := 2, st_mode := BlockAll, st_flow_generation := 4\<rparr>"

definition sample_codec :: state_codec_ops where
  "sample_codec = table_codec [first_state, blocked_state]"

lemma sample_codec_laws: "state_codec sample_codec"
  unfolding sample_codec_def
  by (rule table_codec_laws) (simp add: blocked_state_def first_state_def state_new_def)

interpretation sample_daemon: daemon scripted_backend sk_policy sample_codec sample_store "\<lambda>_. ascii ''storage''"
  by (intro daemon.intro scripted_backend_laws sample_codec_laws)

definition sample_ops :: "scripted_kernel daemon_host host_ops" where
  "sample_ops = daemon_ops sample_codec sample_store (\<lambda>_. ascii ''storage'') scripted_backend"

definition sample_host :: "scripted_kernel daemon_host" where
  "sample_host = \<lparr>dh_backend = \<lparr>sk_policy = UnknownPolicy, sk_script = []\<rparr>, dh_disk = sample_disk []\<rparr>"

lemmas sample_states = first_state_def blocked_state_def state_new_def initial_flow_generation_def
  flow_generation_in_domain_def MAX_FLOW_GENERATION_def

lemma first_steps:
  "set_mode_at Learning 7 state_new =
     (Inr \<lparr>ev_revision = 1, ev_occurred_at = 7, ev_kind = ModeChanged BlockAll Learning\<rparr>,
      first_state\<lparr>st_flow_generation := 2\<rparr>)"
  "rotate_startup_flow_generation (first_state\<lparr>st_flow_generation := 2\<rparr>) = (Inr (), first_state)"
  "set_mode_at BlockAll 7 first_state =
     (Inr \<lparr>ev_revision = 2, ev_occurred_at = 7, ev_kind = ModeChanged Learning BlockAll\<rparr>, blocked_state)"
  by (simp_all add: set_mode_at_def set_mode_with_strategy_at_def next_revision_def next_flow_generation_def
      rotate_startup_flow_generation_def rotate_flow_generation_def fail_if_def sample_states)
    (simp add: word_le_nat_alt)

lemma sample_disk_quiet: "ready sample_codec sample_store d \<Longrightarrow> dk_entries d (ass_path sample_store) = None
    \<Longrightarrow> atomic_load sample_codec sample_store d = (Inr None, d)"
proof -
  assume r: "ready sample_codec sample_store d" and none: "dk_entries d (ass_path sample_store) = None"
  obtain parent existing where "validate_parent sample_store d = (Inr parent, d)"
      "validate_existing_file sample_store d = (Inr existing, d)"
    by (rule ready_validate [OF r])
  moreover then have "existing = None" using validate_existing_cases(3) none by (cases existing) fastforce+
  ultimately show ?thesis by (simp add: atomic_load_def)
qed

lemma sample_saves:
  assumes "ready sample_codec sample_store d" "s = first_state \<or> s = blocked_state"
  shows "\<exists>d'. atomic_save sample_codec sample_store s d = (Inr (), d') \<and> ready sample_codec sample_store d'"
proof -
  have "\<exists>n. table_index s [first_state, blocked_state] = Some n \<and> n < 256"
    using assms(2) by (auto simp: sample_states)
  moreover have "st_rules s = []" "flow_generation_in_domain (st_flow_generation s)"
    using assms(2) by (auto simp: sample_states)
  ultimately show ?thesis using table_save assms(1) unfolding sample_codec_def by blast
qed

lemma first_startup: "startup_state sample_ops sample_env (sample_host\<lparr>dh_backend := k\<rparr>) =
    (Inr first_state, sample_host\<lparr>dh_backend := k, dh_disk := snd (atomic_save sample_codec sample_store first_state (sample_disk []))\<rparr>)"
proof -
  obtain d' where d': "atomic_save sample_codec sample_store first_state (sample_disk []) = (Inr (), d')"
    using sample_saves [of "sample_disk []" first_state] sample_ready unfolding sample_codec_def by blast
  have "atomic_load sample_codec sample_store (sample_disk []) = (Inr None, sample_disk [])"
    using sample_disk_quiet sample_ready unfolding sample_codec_def
    by (simp add: sample_disk_def sample_store_def root_owned_def)
  then show ?thesis using d'
    by (simp add: startup_state_def sample_ops_def daemon_ops_def sample_host_def sample_env_def first_steps)
qed

definition first_engine :: "scripted_kernel daemon_host engine" where
  "first_engine = engine_initial \<lparr>ll_per_uid = 10, ll_per_application = 10\<rparr> bus_new first_state
     \<lparr>dh_backend = \<lparr>sk_policy = InstalledBlockAll, sk_script = []\<rparr>,
      dh_disk = snd (atomic_save sample_codec sample_store first_state (sample_disk []))\<rparr>"

lemma sample_calls:
  "sk_script (dh_backend h) = [] \<Longrightarrow> op_fail_closed sample_ops h =
     (Inr (), h\<lparr>dh_backend := (dh_backend h)\<lparr>sk_policy := InstalledBlockAll\<rparr>\<rparr>)"
  "sk_script (dh_backend h) = [] \<Longrightarrow> op_apply sample_ops sn h =
     (Inr (), h\<lparr>dh_backend := (dh_backend h)\<lparr>sk_policy := InstalledPolicy sn\<rparr>\<rparr>)"
  "op_save sample_ops s h = (map_err (\<lambda>_. ascii ''storage'') (fst (atomic_save sample_codec sample_store s (dh_disk h))),
     h\<lparr>dh_disk := snd (atomic_save sample_codec sample_store s (dh_disk h))\<rparr>)"
  by (simp_all add: sample_ops_def daemon_ops_def scripted_backend_def scripted_call_def split_beta)

lemma first_load: "load_with_learning_limits sample_ops sample_env bus_new \<lparr>ll_per_uid = 10, ll_per_application = 10\<rparr>
    sample_host = (Inr first_engine, en_host first_engine)"
  using first_startup [of "\<lparr>sk_policy = InstalledBlockAll, sk_script = []\<rparr>"]
  by (simp add: load_with_learning_limits_def sample_calls sample_host_def first_engine_def)
    (simp add: engine_initial_def)

lemma first_reachable: "engine_reachable sample_ops first_engine"
  using first_load by (rule started)


section \<open>Safety\<close>



text \<open>What is left of a learning transaction after a privileged change: nothing that the learning
  thread still does with it changes the state, the kernel or the store.\<close>

definition learner_is_harmless :: "'w host_ops \<Rightarrow> 'w engine \<Rightarrow> bool" where
  "learner_is_harmless ops e \<longleftrightarrow>
     (case en_learner e of
        NoTransaction \<Rightarrow> True
      | PreparedTransaction _ \<Rightarrow> False
      | PersistedTransaction t outcome \<Rightarrow>
          \<forall>env. finalize_application_learning ops env t outcome e =
            (Inr 0, e\<lparr>en_learner := NoTransaction, en_superseded_learning_transaction := None\<rparr>))"

lemma settled_harmless: "settled disk e \<Longrightarrow> learner_is_harmless ops e"
  by (auto simp: settled_def learner_is_harmless_def finalize_application_learning_def Let_def)

text \<open>C2: control requests are atomic. A request that is acknowledged was based on the current revision;
  the state it computes from the current one (or BlockAll from the pending learned state) is the
  engine's state, is stored and runs in the kernel, and the acknowledgement names its revision; a
  learning transaction that was in flight can no longer undo it. A request that is refused
  changes nothing, or the previous state is installed and stored again, or the engine is quarantined
  with BlockAll in the kernel, or it has declared the kernel's policy unknown.\<close>

theorem control_is_atomic:
  assumes "firewall_backend backend view" "state_codec codec"
    and "engine_reachable (daemon_ops codec store error_text backend) e"
    and "handle_control (daemon_ops codec store error_text backend) env request e = (r, e')"
  shows "case r of
      Inr a \<Rightarrow> expected_revision request = st_revision (en_state e)
        \<and> (\<exists>s. control_candidate env request (ack_affected_rule a) e s \<and> ack_revision a = st_revision s
             \<and> committed (\<lambda>h. view (dh_backend h)) (stored_state codec store) s e')
        \<and> learner_is_harmless (daemon_ops codec store error_text backend) e' \<and> \<not> en_fatal e'
    | Inl x \<Rightarrow> e' = e \<or> committed (\<lambda>h. view (dh_backend h)) (stored_state codec store) (en_state e) e'
        \<or> en_poisoned e' \<and> view (dh_backend (en_host e')) = InstalledBlockAll \<or> en_fatal e'"
proof -
  let ?kern = "\<lambda>h. view (dh_backend h)" and ?disk = "stored_state codec store"
  have "control_outcome ?kern ?disk env request e (r, e')"
    using daemon_facts(2) [OF assms(1,2) daemon_facts(1) [OF assms(1-3)], where error_text = error_text
        and env = env and request = request] assms(4) by simp
  then have inv: "engine_inv ?kern ?disk e'" and out: "case r of
      Inr a \<Rightarrow> \<exists>s. control_candidate env request (ack_affected_rule a) e s \<and> ack_revision a = st_revision s
        \<and> committed ?kern ?disk s e' \<and> \<not> en_fatal e' \<and> en_learning_persistence e' = LearningActive
    | Inl _ \<Rightarrow> e' = e \<or> en_fatal e' \<or> en_poisoned e' \<or> committed ?kern ?disk (en_state e) e'"
    by (auto simp: control_outcome_def split: sum.splits)
  show ?thesis
  proof (cases r)
    case (Inl x)
    then show ?thesis using out inv by (auto simp: engine_inv_def quarantined_def)
  next
    case (Inr a)
    then have e': "\<not> en_poisoned e'" "\<not> en_fatal e'" "en_learning_persistence e' = LearningActive"
      using out by (auto simp: committed_def)
    then have "settled ?disk e'" using inv by (intro durable_settled) (auto simp: engine_inv_def running_def)
    moreover have "expected_revision request = st_revision (en_state e)"
      using assms(4) Inr by (auto simp: handle_control_def split: if_splits)
    ultimately show ?thesis using out Inr settled_harmless by auto
  qed
qed



lemma first_blocks:
  "\<exists>e'. handle_control sample_ops sample_env (SetMode 1 BlockAll) first_engine = (Inr (ack_new 2 None), e')"
proof -
  obtain d1 where d1: "atomic_save sample_codec sample_store first_state (sample_disk []) = (Inr (), d1)"
      "ready sample_codec sample_store d1"
    using sample_saves [of "sample_disk []" first_state] sample_ready unfolding sample_codec_def by blast
  obtain d2 where d2: "atomic_save sample_codec sample_store blocked_state d1 = (Inr (), d2)"
    using sample_saves [OF d1(2), of blocked_state] by blast
  have e: "\<not> en_poisoned first_engine" "en_state first_engine = first_state" "st_revision first_state = 1"
      "en_learning_persistence first_engine = LearningActive" "en_learning_reservation first_engine = None"
      "en_host first_engine = \<lparr>dh_backend = \<lparr>sk_policy = InstalledBlockAll, sk_script = []\<rparr>, dh_disk = d1\<rparr>"
    by (simp_all add: first_engine_def engine_initial_def d1) (simp add: first_state_def)
  have valid: "state_validate (env_json sample_env) blocked_state = Inr ()"
    unfolding sample_env_def by (simp add: table_valid sample_states)
  have "env_now sample_env 0 = 7" by (simp add: sample_env_def)
  then have "apply_control_to_candidate sample_env (SetMode 1 BlockAll) first_state =
      Inr (([\<lparr>ev_revision = 2, ev_occurred_at = 7, ev_kind = ModeChanged Learning BlockAll\<rparr>], None), blocked_state)"
    by (simp add: first_steps core_step_def)
  then show ?thesis
    using e valid d2
    by (simp add: handle_control_def commit_def backend_apply_def save_exclusive_def store_save_def
        wait_until_exclusive_def sample_calls Let_def) (simp add: blocked_state_def ack_new_def)
qed

theorem control_is_atomic_witness:
  "\<exists>e' s. handle_control sample_ops sample_env (SetMode 1 BlockAll) first_engine = (Inr (ack_new 2 None), e')
     \<and> committed (\<lambda>h. sk_policy (dh_backend h)) (stored_state sample_codec sample_store) s e' \<and> st_revision s = 2"
proof -
  obtain e' where e': "handle_control sample_ops sample_env (SetMode 1 BlockAll) first_engine = (Inr (ack_new 2 None), e')"
    using first_blocks by blast
  from control_is_atomic [OF scripted_backend_laws sample_codec_laws first_reachable [unfolded sample_ops_def]
      e' [unfolded sample_ops_def]] e'
  show ?thesis by (auto simp: ack_new_def)
qed

section \<open>Activation after a quarantine\<close>


end
