(* ===== verification/Packet_Filter.thy ===== *)
theory Packet_Filter
  imports Marks "HOL-Library.Product_Lexorder"
begin

text \<open>
  What a generated firewall program is run on: a packet as the netfilter hooks see it, the two
  marks it carries, and the match criteria both compilers
  (\<open>src/crates/openshield-core/src/nftables.rs\<close> and \<open>iptables.rs\<close>) write.  The meaning of a
  criterion is the documented one of the packet filter; the criteria themselves are the
  ones the sources print.  The last section states what a policy rule selects, independently of
  either rule language.
\<close>

unbundle bit_operations_syntax

section \<open>Packets\<close>

datatype ct_state = CtNew | CtEstablished | CtRelated | CtInvalid | CtUntracked
datatype ct_direction = CtOriginal | CtReply
datatype ip_family = Ipv4 | Ipv6
datatype ip_protocol = ProtoTcp | ProtoUdp | ProtoIcmp | ProtoIcmpV6
datatype tcp_flag = FlagFin | FlagSyn | FlagRst | FlagAck

datatype payload =
    TcpSegment u16 u16 "tcp_flag list"
  | UdpDatagram u16 u16
  | IcmpMessage u8 u8
  | IcmpV6Message u8 u8
  | OtherPayload u8

text \<open>A conntrack entry; an invalid or untracked packet has none.\<close>

record conntrack =
  ck_direction :: ct_direction
  ck_original_dst :: ip_addr
  ck_original_dport :: u16

record packet =
  pk_iif :: ustring
  pk_oif :: ustring
  pk_src :: ip_addr
  pk_dst :: ip_addr
  pk_hop_limit :: u8
  pk_payload :: payload
  pk_ct_state :: ct_state
  pk_conntrack :: "conntrack option"

record marks =
  mk_packet :: u32
  mk_connection :: u32

fun family_of :: "ip_addr \<Rightarrow> ip_family" where
  "family_of (IpV4 _) = Ipv4"
| "family_of (IpV6 _) = Ipv6"

fun payload_protocol :: "payload \<Rightarrow> ip_protocol option" where
  "payload_protocol (TcpSegment _ _ _) = Some ProtoTcp"
| "payload_protocol (UdpDatagram _ _) = Some ProtoUdp"
| "payload_protocol (IcmpMessage _ _) = Some ProtoIcmp"
| "payload_protocol (IcmpV6Message _ _) = Some ProtoIcmpV6"
| "payload_protocol (OtherPayload _) = None"

fun payload_ports :: "ip_protocol \<Rightarrow> payload \<Rightarrow> (u16 \<times> u16) option" where
  "payload_ports ProtoTcp (TcpSegment s d _) = Some (s, d)"
| "payload_ports ProtoUdp (UdpDatagram s d) = Some (s, d)"
| "payload_ports _ _ = None"

fun payload_icmp :: "ip_protocol \<Rightarrow> payload \<Rightarrow> (u8 \<times> u8) option" where
  "payload_icmp ProtoIcmp (IcmpMessage t c) = Some (t, c)"
| "payload_icmp ProtoIcmpV6 (IcmpV6Message t c) = Some (t, c)"
| "payload_icmp _ _ = None"

fun payload_flags :: "payload \<Rightarrow> tcp_flag list option" where
  "payload_flags (TcpSegment _ _ fs) = Some fs"
| "payload_flags _ = None"

section \<open>Networks\<close>

fun net_member :: "ip_net \<Rightarrow> ip_addr \<Rightarrow> bool" where
  "net_member (NetV4 a n) (IpV4 b) \<longleftrightarrow> drop_bit (32 - n) a = drop_bit (32 - n) b"
| "net_member (NetV6 a n) (IpV6 b) \<longleftrightarrow> drop_bit (128 - n) a = drop_bit (128 - n) b"
| "net_member _ _ \<longleftrightarrow> False"

fun net_family :: "ip_net \<Rightarrow> ip_family" where
  "net_family (NetV4 _ _) = Ipv4"
| "net_family (NetV6 _ _) = Ipv6"

text \<open>The address literals of the generated programs.\<close>

datatype scope = LinkLocalV6 | MulticastV6 | LinkMulticastV6 | UnspecifiedV6 | BroadcastV4

fun scope_net :: "scope \<Rightarrow> ip_net" where
  "scope_net LinkLocalV6 = NetV6 (push_bit 112 0xfe80) 10"
| "scope_net MulticastV6 = NetV6 (push_bit 112 0xff00) 8"
| "scope_net LinkMulticastV6 = NetV6 (push_bit 112 0xff02) 16"
| "scope_net UnspecifiedV6 = NetV6 0 128"
| "scope_net BroadcastV4 = NetV4 0xffffffff 32"

lemma net_member_family: "net_member n a \<Longrightarrow> net_family n = family_of a"
  by (cases n; cases a) auto

section \<open>Criteria\<close>

datatype icmp_label = LabelNumber u8 | DestinationUnreachable | PortUnreachable | EchoReply

fun icmp_number :: "ip_protocol \<Rightarrow> icmp_label \<Rightarrow> u8" where
  "icmp_number _ (LabelNumber n) = n"
| "icmp_number ProtoIcmpV6 DestinationUnreachable = 1"
| "icmp_number ProtoIcmpV6 PortUnreachable = 4"
| "icmp_number ProtoIcmpV6 EchoReply = 129"
| "icmp_number _ DestinationUnreachable = 3"
| "icmp_number _ PortUnreachable = 3"
| "icmp_number _ EchoReply = 0"

datatype criterion =
    CtState "ct_state list"
  | CtDirection ct_direction
  | IifName ustring
  | OifName ustring
  | SrcNet ip_net
  | DstNet ip_net
  | SrcScope scope
  | SrcNotScope scope
  | DstScope scope
  | NfProto ip_family
  | L4Proto ip_protocol
  | L4ProtoNot ip_protocol
  | SrcPort ip_protocol port_range
  | DstPort ip_protocol port_range
  | StrayPort port_range
  | TcpFlags "tcp_flag list" "tcp_flag list"
  | IcmpType ip_protocol icmp_label
  | IcmpCode ip_protocol icmp_label
  | HopLimit u8
  | PacketMark u32 u32
  | PacketMarkNot u32 u32
  | ConnMark u32 u32
  | OriginalDst ip_net
  | OriginalDstPort port_range
  | RateLimit

definition in_range :: "port_range \<Rightarrow> u16 \<Rightarrow> bool" where
  "in_range r p \<longleftrightarrow> pr_start r \<le> p \<and> p \<le> pr_end r"

text \<open>
  Whether a criterion holds of a packet and its marks; \<open>lim\<close> says whether the token bucket has a
  token left.  A port with no protocol in front of it is not a match of the rule language
  and selects nothing.
\<close>

fun holds :: "bool \<Rightarrow> packet \<Rightarrow> marks \<Rightarrow> criterion \<Rightarrow> bool" where
  "holds lim p m (CtState ss) \<longleftrightarrow> pk_ct_state p \<in> set ss"
| "holds lim p m (CtDirection d) \<longleftrightarrow> is_some_and (pk_conntrack p) (\<lambda>c. ck_direction c = d)"
| "holds lim p m (IifName i) \<longleftrightarrow> pk_iif p = i"
| "holds lim p m (OifName i) \<longleftrightarrow> pk_oif p = i"
| "holds lim p m (SrcNet n) \<longleftrightarrow> net_member n (pk_src p)"
| "holds lim p m (DstNet n) \<longleftrightarrow> net_member n (pk_dst p)"
| "holds lim p m (SrcScope s) \<longleftrightarrow> net_member (scope_net s) (pk_src p)"
| "holds lim p m (SrcNotScope s) \<longleftrightarrow>
     net_family (scope_net s) = family_of (pk_src p) \<and> \<not> net_member (scope_net s) (pk_src p)"
| "holds lim p m (DstScope s) \<longleftrightarrow> net_member (scope_net s) (pk_dst p)"
| "holds lim p m (NfProto f) \<longleftrightarrow> family_of (pk_src p) = f"
| "holds lim p m (L4Proto k) \<longleftrightarrow> payload_protocol (pk_payload p) = Some k"
| "holds lim p m (L4ProtoNot k) \<longleftrightarrow> payload_protocol (pk_payload p) \<noteq> Some k"
| "holds lim p m (SrcPort k r) \<longleftrightarrow>
     is_some_and (payload_ports k (pk_payload p)) (\<lambda>ports. in_range r (fst ports))"
| "holds lim p m (DstPort k r) \<longleftrightarrow>
     is_some_and (payload_ports k (pk_payload p)) (\<lambda>ports. in_range r (snd ports))"
| "holds lim p m (StrayPort r) \<longleftrightarrow> False"
| "holds lim p m (TcpFlags among these) \<longleftrightarrow>
     is_some_and (payload_flags (pk_payload p)) (\<lambda>fs. \<forall>f \<in> set among. f \<in> set fs \<longleftrightarrow> f \<in> set these)"
| "holds lim p m (IcmpType k l) \<longleftrightarrow>
     is_some_and (payload_icmp k (pk_payload p)) (\<lambda>h. fst h = icmp_number k l)"
| "holds lim p m (IcmpCode k l) \<longleftrightarrow>
     is_some_and (payload_icmp k (pk_payload p)) (\<lambda>h. snd h = icmp_number k l)"
| "holds lim p m (HopLimit h) \<longleftrightarrow> family_of (pk_src p) = Ipv6 \<and> pk_hop_limit p = h"
| "holds lim p m (PacketMark bits v) \<longleftrightarrow> mk_packet m AND bits = v"
| "holds lim p m (PacketMarkNot bits v) \<longleftrightarrow> mk_packet m AND bits \<noteq> v"
| "holds lim p m (ConnMark bits v) \<longleftrightarrow>
     pk_conntrack p \<noteq> None \<and> mk_connection m AND bits = v"
| "holds lim p m (OriginalDst n) \<longleftrightarrow>
     is_some_and (pk_conntrack p) (\<lambda>c. net_member n (ck_original_dst c))"
| "holds lim p m (OriginalDstPort r) \<longleftrightarrow>
     is_some_and (pk_conntrack p) (\<lambda>c. in_range r (ck_original_dport c))"
| "holds lim p m RateLimit \<longleftrightarrow> lim"

abbreviation hold_all :: "bool \<Rightarrow> packet \<Rightarrow> marks \<Rightarrow> criterion list \<Rightarrow> bool" where
  "hold_all lim p m \<equiv> list_all (holds lim p m)"

text \<open>Criteria that look at the marks; all others depend on the packet alone.\<close>

fun reads_marks :: "criterion \<Rightarrow> bool" where
  "reads_marks (PacketMark _ _) \<longleftrightarrow> True"
| "reads_marks (PacketMarkNot _ _) \<longleftrightarrow> True"
| "reads_marks (ConnMark _ _) \<longleftrightarrow> True"
| "reads_marks _ \<longleftrightarrow> False"

lemma holds_mark_free: "\<not> reads_marks c \<Longrightarrow> holds lim p m c = holds lim p m' c"
  by (cases c) auto

section \<open>Verdicts of a hook\<close>

datatype queue_verdict = QueueAbsent | QueueDrop | QueueAccept u32 | QueueRepeat u32

type_synonym queue_consumer = "u16 \<Rightarrow> packet \<Rightarrow> marks \<Rightarrow> queue_verdict"

datatype hook_verdict = Passed | Discarded | Refused | Unfinished

section \<open>What a policy rule selects\<close>

fun protocol_selects :: "transport_protocol \<Rightarrow> packet \<Rightarrow> bool" where
  "protocol_selects Any p \<longleftrightarrow> True"
| "protocol_selects Tcp p \<longleftrightarrow> payload_protocol (pk_payload p) = Some ProtoTcp"
| "protocol_selects Udp p \<longleftrightarrow> payload_protocol (pk_payload p) = Some ProtoUdp"
| "protocol_selects Icmp p \<longleftrightarrow>
     family_of (pk_src p) = Ipv4 \<and> payload_protocol (pk_payload p) = Some ProtoIcmp"
| "protocol_selects IcmpV6 p \<longleftrightarrow>
     family_of (pk_src p) = Ipv6 \<and> payload_protocol (pk_payload p) = Some ProtoIcmpV6"

fun port_selects :: "transport_protocol \<Rightarrow> bool \<Rightarrow> port_range \<Rightarrow> packet \<Rightarrow> bool" where
  "port_selects Tcp is_reply r p \<longleftrightarrow>
     is_some_and (payload_ports ProtoTcp (pk_payload p)) (\<lambda>(s, d). in_range r (if is_reply then s else d))"
| "port_selects Udp is_reply r p \<longleftrightarrow>
     is_some_and (payload_ports ProtoUdp (pk_payload p)) (\<lambda>(s, d). in_range r (if is_reply then s else d))"
| "port_selects _ is_reply r p \<longleftrightarrow> False"

definition reply_of_established :: "packet \<Rightarrow> bool" where
  "reply_of_established p \<longleftrightarrow>
     pk_ct_state p = CtEstablished
     \<and> is_some_and (pk_conntrack p) (\<lambda>c. ck_direction c = CtReply)"

definition peer_of :: "direction \<Rightarrow> packet \<Rightarrow> ip_addr" where
  "peer_of dir p = (case dir of Inbound \<Rightarrow> pk_src p | Outbound \<Rightarrow> pk_dst p)"

definition device_of :: "direction \<Rightarrow> packet \<Rightarrow> ustring" where
  "device_of dir p = (case dir of Inbound \<Rightarrow> pk_iif p | Outbound \<Rightarrow> pk_oif p)"

text \<open>
  The packets a rule stands for on the hook of direction \<open>dir\<close>: its peer network, its device, its
  protocol and its port.  A reply (\<open>is_reply\<close>) is matched on the peer's port instead of the local one and
  only in an established connection.
\<close>

definition rule_selects :: "rule_spec \<Rightarrow> direction \<Rightarrow> bool \<Rightarrow> packet \<Rightarrow> bool" where
  "rule_selects s dir is_reply p \<longleftrightarrow>
     (is_reply \<longrightarrow> reply_of_established p)
     \<and> is_none_or (spec_interface s) (\<lambda>i. device_of dir p = interface_str i)
     \<and> is_none_or (spec_peer_network s) (\<lambda>n. net_member n (peer_of dir p))
     \<and> protocol_selects (spec_protocol s) p
     \<and> is_none_or (spec_port s) (\<lambda>r. port_selects (spec_protocol s) is_reply r p)"

end
