(* ===== verification/Nftables.thy ===== *)
theory Nftables
  imports Packet_Filter
begin

text \<open>
  The nftables compiler of \<open>src/crates/openshield-core/src/nftables.rs\<close>: one definition per
  \<open>append_*\<close> function, giving the rules it appends as syntax trees; the text the source
  pushes onto its script is \<open>nft_render\<close> of the trees, and \<open>nft_compile\<close> is
  \<open>NftablesCompiler::compile\<close>.  How an address prefix is printed is the parameter \<open>show_net\<close>
  (crate \<open>ipnet\<close>).  The last section runs a table on a packet.
\<close>

unbundle bit_operations_syntax

definition APPLICATION_CONNMARK_MASK :: u32 where "APPLICATION_CONNMARK_MASK = 0x7fffffff"
definition APPLICATION_CONNMARK_FOREIGN_MASK :: u32 where
  "APPLICATION_CONNMARK_FOREIGN_MASK = 0x80000000"

section \<open>Syntax\<close>

datatype nft_counter =
    OpenshieldOwner | AcceptedIn | AcceptedOut | DroppedIn | DroppedOut | LearnedOut

datatype nft_statement =
    Match criterion
  | MarkDomain u32
  | MarkKeep u32
  | ConnKeep u32
  | ConnReplace u32 u32
  | CounterName nft_counter
  | CounterAnonymous
  | AcceptPacket
  | DropPacket
  | RejectPacket
  | RejectTcpReset
  | QueueNum u16
  | QueueBypass u16
  | QueueTo u16

type_synonym nft_rule = "nft_statement list"

datatype nft_hook = HookInput | HookOutput | HookForward

record nft_chain =
  nc_name :: ustring
  nc_hook :: nft_hook
  nc_priority :: int
  nc_policy_accept :: bool
  nc_rules :: "nft_rule list"

record nft_table =
  nt_counters :: "nft_counter list"
  nt_chains :: "nft_chain list"

section \<open>Selectors of a rule\<close>

fun nft_protocol_selector :: "transport_protocol \<Rightarrow> criterion list" where
  "nft_protocol_selector Any = []"
| "nft_protocol_selector Tcp = [L4Proto ProtoTcp]"
| "nft_protocol_selector Udp = [L4Proto ProtoUdp]"
| "nft_protocol_selector Icmp = [NfProto Ipv4, L4Proto ProtoIcmp]"
| "nft_protocol_selector IcmpV6 = [NfProto Ipv6, L4Proto ProtoIcmpV6]"

fun nft_port_selector :: "transport_protocol \<Rightarrow> bool \<Rightarrow> port_range \<Rightarrow> criterion" where
  "nft_port_selector Tcp False r = DstPort ProtoTcp r"
| "nft_port_selector Tcp True r = SrcPort ProtoTcp r"
| "nft_port_selector Udp False r = DstPort ProtoUdp r"
| "nft_port_selector Udp True r = SrcPort ProtoUdp r"
| "nft_port_selector _ _ r = StrayPort r"

definition nft_append_rule_selectors :: "rule \<Rightarrow> direction \<Rightarrow> bool \<Rightarrow> criterion list" where
  "nft_append_rule_selectors r chain_direction stateful_reverse =
     (if stateful_reverse then [CtDirection CtReply, CtState [CtEstablished]] else [])
     @ (case spec_interface (rule_spec r) of
          None \<Rightarrow> []
        | Some i \<Rightarrow>
            (case chain_direction of
               Inbound \<Rightarrow> [IifName (interface_str i)]
             | Outbound \<Rightarrow> [OifName (interface_str i)]))
     @ (case spec_peer_network (rule_spec r) of
          None \<Rightarrow> []
        | Some n \<Rightarrow> (case chain_direction of Inbound \<Rightarrow> [SrcNet n] | Outbound \<Rightarrow> [DstNet n]))
     @ nft_protocol_selector (spec_protocol (rule_spec r))
     @ (case spec_port (rule_spec r) of
          None \<Rightarrow> []
        | Some ports \<Rightarrow>
            [nft_port_selector (spec_protocol (rule_spec r)) stateful_reverse ports])"

definition nft_append_rule_verdict ::
    "rule \<Rightarrow> direction \<Rightarrow> bool \<Rightarrow> nft_counter \<Rightarrow> rule_action \<Rightarrow> bool \<Rightarrow> u32 \<Rightarrow> nft_rule" where
  "nft_append_rule_verdict r chain_direction stateful_reverse counter action outbound_handoff
       reject_connmark =
     map Match (nft_append_rule_selectors r chain_direction stateful_reverse)
     @ (if chain_direction = Outbound \<and> action = Accept \<and> outbound_handoff
        then [MarkDomain APPLICATION_HANDOFF_DOMAIN] else [])
     @ (if action = Reject
        then [ConnReplace APPLICATION_CONNMARK_FOREIGN_MASK reject_connmark] else [])
     @ [CounterName counter,
        (case action of
           Accept \<Rightarrow> AcceptPacket
         | Drop \<Rightarrow> DropPacket
         | Reject \<Rightarrow> if spec_protocol (rule_spec r) = Tcp then RejectTcpReset else RejectPacket)]"

section \<open>Rules of a chain\<close>

fun nft_rule_action_priority :: "rule_action \<Rightarrow> u8" where
  "nft_rule_action_priority Drop = 0"
| "nft_rule_action_priority Reject = 1"
| "nft_rule_action_priority Accept = 2"

definition nft_order :: "rule \<Rightarrow> u8 \<times> uuid" where
  "nft_order r = (nft_rule_action_priority (spec_action (rule_spec r)), rule_id r)"

definition has_enabled_outbound_reject :: "snapshot \<Rightarrow> bool" where
  "has_enabled_outbound_reject s \<longleftrightarrow>
     list_ex (\<lambda>r. spec_enabled (rule_spec r) \<and> spec_direction (rule_spec r) = Outbound
                   \<and> spec_action (rule_spec r) = Reject) (sn_rules s)"

definition direct_rules :: "snapshot \<Rightarrow> direction \<Rightarrow> rule_action list \<Rightarrow> rule list" where
  "direct_rules s dir actions =
     filter (\<lambda>r. spec_enabled (rule_spec r) \<and> spec_direction (rule_spec r) = dir
                  \<and> spec_application (rule_spec r) = None
                  \<and> spec_action (rule_spec r) \<in> set actions) (sn_rules s)"

definition nft_append_direct_rules ::
    "snapshot \<Rightarrow> direction \<Rightarrow> rule_action list \<Rightarrow> nft_counter \<Rightarrow> nft_rule list" where
  "nft_append_direct_rules s dir actions counter =
     map (\<lambda>r. nft_append_rule_verdict r dir False counter (spec_action (rule_spec r))
                (sn_mode s \<noteq> Learning) (application_reject_connmark (sn_flow_generation s)))
       (sort_key nft_order (direct_rules s dir actions))"

definition reverse_rules :: "snapshot \<Rightarrow> direction \<Rightarrow> rule list" where
  "reverse_rules s dir =
     filter (\<lambda>r. spec_enabled (rule_spec r) \<and> spec_direction (rule_spec r) \<noteq> dir
                  \<and> spec_application (rule_spec r) = None
                  \<and> spec_action (rule_spec r) = Accept) (sn_rules s)"

definition nft_append_reverse_rules ::
    "snapshot \<Rightarrow> direction \<Rightarrow> nft_counter \<Rightarrow> nft_rule list" where
  "nft_append_reverse_rules s dir accepted_counter =
     map (\<lambda>r. nft_append_rule_verdict r dir True accepted_counter Accept
                (sn_mode s \<noteq> Learning) (application_reject_connmark (sn_flow_generation s)))
       (sort_key rule_id (reverse_rules s dir))"

definition counted_accept :: "nft_counter \<Rightarrow> criterion list \<Rightarrow> nft_rule" where
  "counted_accept counter selector = map Match selector @ [CounterName counter, AcceptPacket]"

definition ipv6_error :: "u8 \<Rightarrow> u8 option \<Rightarrow> criterion list" where
  "ipv6_error t code =
     [CtState [CtRelated], NfProto Ipv6, SrcNotScope UnspecifiedV6, SrcNotScope MulticastV6,
      L4Proto ProtoIcmpV6, IcmpType ProtoIcmpV6 (LabelNumber t)]
     @ (case code of None \<Rightarrow> [] | Some c \<Rightarrow> [IcmpCode ProtoIcmpV6 (LabelNumber c)])"

definition ipv6_control :: "criterion list \<Rightarrow> u8 \<Rightarrow> u8 \<Rightarrow> criterion list" where
  "ipv6_control addresses hops t =
     NfProto Ipv6 # addresses
     @ [HopLimit hops, L4Proto ProtoIcmpV6, IcmpType ProtoIcmpV6 (LabelNumber t),
        IcmpCode ProtoIcmpV6 (LabelNumber 0)]"

definition nft_control_plane_selectors :: "criterion list list" where
  "nft_control_plane_selectors =
     [ipv6_error 1 None, ipv6_error 2 (Some 0), ipv6_error 3 (Some 0), ipv6_error 4 (Some 1),
      ipv6_error 4 (Some 2),
      ipv6_control [SrcScope LinkLocalV6] 255 134,
      ipv6_control [SrcNotScope MulticastV6] 255 135,
      ipv6_control [SrcNotScope UnspecifiedV6, SrcNotScope MulticastV6] 255 136,
      ipv6_control [SrcScope LinkLocalV6, DstScope LinkMulticastV6] 1 130]"

definition nft_append_ipv6_host_control_plane_accepts :: "nft_counter \<Rightarrow> nft_rule list" where
  "nft_append_ipv6_host_control_plane_accepts accepted_counter =
     map (counted_accept accepted_counter) nft_control_plane_selectors"

definition one_port :: "u16 \<Rightarrow> port_range" where
  "one_port n = \<lparr>pr_start = n, pr_end = n\<rparr>"

definition nft_dhcp_selectors :: "criterion list list" where
  "nft_dhcp_selectors =
     [[NfProto Ipv6, SrcScope LinkLocalV6, L4Proto ProtoUdp, SrcPort ProtoUdp (one_port 547),
       DstPort ProtoUdp (one_port 546)],
      [NfProto Ipv4, DstScope BroadcastV4, L4Proto ProtoUdp, SrcPort ProtoUdp (one_port 67),
       DstPort ProtoUdp (one_port 68)]]"

definition nft_append_dhcp_bootstrap_accepts :: "nft_counter \<Rightarrow> nft_rule list" where
  "nft_append_dhcp_bootstrap_accepts accepted_counter =
     map (counted_accept accepted_counter) nft_dhcp_selectors"

definition handoff_outbound :: "direction \<Rightarrow> nft_statement list" where
  "handoff_outbound dir =
     (if dir = Outbound then [MarkDomain APPLICATION_HANDOFF_DOMAIN] else [])"

definition nft_reject_reply_selectors :: "criterion list list" where
  "nft_reject_reply_selectors =
     [[CtState [CtRelated], CtDirection CtReply, L4Proto ProtoTcp, TcpFlags [FlagRst] [FlagRst]],
      [CtState [CtRelated], CtDirection CtReply, NfProto Ipv4, L4Proto ProtoIcmp,
       IcmpType ProtoIcmp DestinationUnreachable, IcmpCode ProtoIcmp PortUnreachable],
      [CtState [CtRelated], CtDirection CtReply, NfProto Ipv6, L4Proto ProtoIcmpV6,
       IcmpType ProtoIcmpV6 DestinationUnreachable, IcmpCode ProtoIcmpV6 PortUnreachable]]"

definition nft_append_generated_reject_reply_accept ::
    "direction \<Rightarrow> nft_counter \<Rightarrow> u32 \<Rightarrow> nft_rule list" where
  "nft_append_generated_reject_reply_accept dir accepted_counter reject_connmark =
     map (\<lambda>selector.
            map Match selector
            @ [Match (ConnMark APPLICATION_CONNMARK_MASK reject_connmark)]
            @ handoff_outbound dir @ [CounterName accepted_counter, AcceptPacket])
       nft_reject_reply_selectors"

section \<open>Application paths\<close>

definition application_reply_protocol_matches :: "criterion list list" where
  "application_reply_protocol_matches =
     [[L4Proto ProtoTcp], [L4Proto ProtoUdp], [NfProto Ipv4, L4Proto ProtoIcmp],
      [NfProto Ipv6, L4Proto ProtoIcmpV6]]"

definition application_non_tcp_protocol_matches :: "criterion list list" where
  "application_non_tcp_protocol_matches =
     [[L4Proto ProtoUdp], [NfProto Ipv4, L4Proto ProtoIcmp], [NfProto Ipv6, L4Proto ProtoIcmpV6]]"

definition intercepted_protocols :: "application_interception \<Rightarrow> criterion list list" where
  "intercepted_protocols interception =
     (case interception of
        InterceptNone \<Rightarrow> []
      | TcpInitial \<Rightarrow> take 1 application_reply_protocol_matches
      | PerPacket \<Rightarrow> application_reply_protocol_matches)"

definition flow_connmark :: "snapshot \<Rightarrow> criterion" where
  "flow_connmark s =
     ConnMark APPLICATION_CONNMARK_MASK (application_flow_mark (sn_flow_generation s))"

definition nft_append_application_flow_accept ::
    "snapshot \<Rightarrow> direction \<Rightarrow> nft_counter \<Rightarrow> application_interception \<Rightarrow> nft_rule list" where
  "nft_append_application_flow_accept s dir accepted_counter interception =
     map (\<lambda>protocol_match.
            Match (CtDirection (case dir of Inbound \<Rightarrow> CtReply | Outbound \<Rightarrow> CtOriginal))
            # Match (CtState [CtEstablished])
            # map Match protocol_match
            @ [Match (flow_connmark s)]
            @ handoff_outbound dir @ [CounterName accepted_counter, AcceptPacket])
       (case (dir, interception) of
          (_, InterceptNone) \<Rightarrow> []
        | (Inbound, PerPacket) \<Rightarrow> application_reply_protocol_matches
        | _ \<Rightarrow> take 1 application_reply_protocol_matches)"

definition nft_append_application_loopback_accept ::
    "snapshot \<Rightarrow> direction \<Rightarrow> nft_counter \<Rightarrow> application_interception \<Rightarrow> nft_rule list" where
  "nft_append_application_loopback_accept s dir accepted_counter interception =
     (if sn_mode s \<noteq> Enforcing then []
      else
        map (\<lambda>protocol.
               map Match
                 (case dir of
                    Inbound \<Rightarrow> [IifName (ascii ''lo''), CtDirection CtOriginal,
                                CtState [CtNew, CtEstablished]]
                  | Outbound \<Rightarrow> [OifName (ascii ''lo''), CtDirection CtReply,
                                 CtState [CtEstablished]])
               @ map Match protocol
               @ [Match (flow_connmark s)]
               @ handoff_outbound dir @ [CounterName accepted_counter, AcceptPacket])
          (intercepted_protocols interception))"

definition nft_append_application_non_tcp_connmark_reset :: "nft_rule list" where
  "nft_append_application_non_tcp_connmark_reset =
     map (\<lambda>protocol_match.
            Match (CtDirection CtOriginal) # map Match protocol_match
            @ [ConnKeep APPLICATION_CONNMARK_FOREIGN_MASK])
       application_non_tcp_protocol_matches"

fun network_excludes :: "transport_protocol \<Rightarrow> ip_net option \<Rightarrow> bool" where
  "network_excludes Icmp (Some (NetV6 _ _)) \<longleftrightarrow> True"
| "network_excludes IcmpV6 (Some (NetV4 _ _)) \<longleftrightarrow> True"
| "network_excludes _ _ \<longleftrightarrow> False"

definition candidate_protocols :: "rule_spec \<Rightarrow> transport_protocol list" where
  "candidate_protocols spec =
     filter (\<lambda>protocol. (spec_protocol spec = Any \<or> spec_protocol spec = protocol)
                         \<and> \<not> network_excludes protocol (spec_peer_network spec))
       [Udp, Icmp, IcmpV6]"

definition application_reply_candidates :: "snapshot \<Rightarrow> rule list" where
  "application_reply_candidates s =
     concat
       (map (\<lambda>r. map (\<lambda>protocol.
                  r\<lparr>rule_spec := (rule_spec r)
                      \<lparr>spec_protocol := protocol, spec_interface := None\<rparr>\<rparr>)
               (candidate_protocols (rule_spec r)))
         (sort_key rule_id
           (filter (\<lambda>r. spec_enabled (rule_spec r) \<and> spec_direction (rule_spec r) = Outbound
                         \<and> spec_application (rule_spec r) \<noteq> None
                         \<and> spec_action (rule_spec r) = Accept) (sn_rules s))))"

fun echo_reply_selector :: "transport_protocol \<Rightarrow> criterion list" where
  "echo_reply_selector Icmp =
     [IcmpType ProtoIcmp EchoReply, IcmpCode ProtoIcmp (LabelNumber 0)]"
| "echo_reply_selector IcmpV6 =
     [IcmpType ProtoIcmpV6 EchoReply, IcmpCode ProtoIcmpV6 (LabelNumber 0)]"
| "echo_reply_selector _ = []"

definition nft_append_application_reply_queues :: "snapshot \<Rightarrow> nft_rule list" where
  "nft_append_application_reply_queues s =
     map (\<lambda>r. map Match (nft_append_rule_selectors r Inbound True)
               @ map Match (echo_reply_selector (spec_protocol (rule_spec r)))
               @ [Match (PacketMarkNot 0xc0000000 0xc0000000),
                  QueueTo APPLICATION_REPLY_QUEUE_NUMBER])
       (application_reply_candidates s)"

definition nft_append_learning_queue :: "nft_rule list" where
  "nft_append_learning_queue =
     map (\<lambda>selector. Match (CtDirection CtOriginal) # map Match selector
                      @ [CounterName LearnedOut, QueueBypass APPLICATION_LEARNING_QUEUE_NUMBER])
       [[L4Proto ProtoTcp, CtState [CtNew], TcpFlags [FlagSyn, FlagAck] [FlagSyn]],
        [L4Proto ProtoTcp, CtState [CtEstablished], TcpFlags [FlagFin, FlagRst] [], RateLimit],
        [L4ProtoNot ProtoTcp]]"

definition application_rules :: "snapshot \<Rightarrow> rule_action list \<Rightarrow> rule list" where
  "application_rules s actions =
     filter (\<lambda>r. spec_enabled (rule_spec r) \<and> spec_direction (rule_spec r) = Outbound
                  \<and> spec_application (rule_spec r) \<noteq> None
                  \<and> spec_action (rule_spec r) \<in> set actions) (sn_rules s)"

definition nft_append_application_rule_queues ::
    "snapshot \<Rightarrow> rule_action list \<Rightarrow> nft_rule list" where
  "nft_append_application_rule_queues s actions =
     map (\<lambda>r. Match (CtDirection CtOriginal)
               # map Match (nft_append_rule_selectors r Outbound False)
               @ [MarkDomain APPLICATION_PENDING_DOMAIN, QueueNum APPLICATION_QUEUE_NUMBER])
       (sort_key nft_order (application_rules s actions))"

definition nft_original_selectors :: "rule \<Rightarrow> criterion list" where
  "nft_original_selectors r =
     (case spec_interface (rule_spec r) of None \<Rightarrow> [] | Some i \<Rightarrow> [OifName (interface_str i)])
     @ nft_protocol_selector (spec_protocol (rule_spec r))
     @ (case spec_peer_network (rule_spec r) of None \<Rightarrow> [] | Some n \<Rightarrow> [OriginalDst n])
     @ (case spec_port (rule_spec r) of None \<Rightarrow> [] | Some ports \<Rightarrow> [OriginalDstPort ports])"

definition nft_append_application_candidate_guard_drops ::
    "snapshot \<Rightarrow> nft_counter \<Rightarrow> rule_action list \<Rightarrow> nft_rule list" where
  "nft_append_application_candidate_guard_drops s dropped_counter actions =
     concat
       (map (\<lambda>r. (map Match (nft_append_rule_selectors r Outbound False)
                   @ [CounterName dropped_counter, DropPacket])
                  # (if spec_peer_network (rule_spec r) = None \<and> spec_port (rule_spec r) = None
                     then []
                     else [map Match (nft_original_selectors r)
                           @ [CounterName dropped_counter, DropPacket]]))
         (sort_key nft_order (application_rules s actions)))"

section \<open>Chains\<close>

definition nft_inbound_rules :: "snapshot \<Rightarrow> application_interception \<Rightarrow> nft_rule list" where
  "nft_inbound_rules s interception =
     (if has_enabled_outbound_reject s
      then nft_append_generated_reject_reply_accept Inbound AcceptedIn
             (application_reject_connmark (sn_flow_generation s)) else [])
     @ nft_append_dhcp_bootstrap_accepts AcceptedIn
     @ [[Match (CtState [CtInvalid]), CounterName DroppedIn, DropPacket]]
     @ nft_append_ipv6_host_control_plane_accepts AcceptedIn
     @ (if sn_mode s = Learning
        then [counted_accept AcceptedIn [IifName (ascii ''lo''), CtDirection CtOriginal],
              counted_accept AcceptedIn [CtDirection CtReply, CtState [CtEstablished, CtRelated]]]
        else [])
     @ (if interception \<noteq> InterceptNone
        then nft_append_application_loopback_accept s Inbound AcceptedIn interception
             @ nft_append_application_flow_accept s Inbound AcceptedIn interception
        else [])
     @ nft_append_direct_rules s Inbound [Accept] AcceptedIn
     @ nft_append_reverse_rules s Inbound AcceptedIn
     @ (if sn_mode s = Enforcing \<and> interception = PerPacket
        then nft_append_application_reply_queues s else [])"

definition nft_outbound_rules :: "snapshot \<Rightarrow> application_interception \<Rightarrow> nft_rule list" where
  "nft_outbound_rules s interception =
     (if has_enabled_outbound_reject s
      then nft_append_generated_reject_reply_accept Outbound AcceptedOut
             (application_reject_connmark (sn_flow_generation s)) else [])
     @ (if sn_mode s = Enforcing
        then [[Match (CtState [CtInvalid]), CounterName DroppedOut, DropPacket]] else [])
     @ nft_append_direct_rules s Outbound [Drop, Reject] DroppedOut
     @ (if interception \<noteq> InterceptNone
        then nft_append_application_loopback_accept s Outbound AcceptedOut interception
             @ nft_append_application_flow_accept s Outbound AcceptedOut interception
             @ (if interception = PerPacket
                then nft_append_application_non_tcp_connmark_reset else [])
        else [])
     @ nft_append_reverse_rules s Outbound AcceptedOut
     @ (if sn_mode s = Enforcing
        then nft_append_application_rule_queues s [Drop, Reject, Accept]
             @ nft_append_application_candidate_guard_drops s DroppedOut [Drop, Reject, Accept]
             @ nft_append_direct_rules s Outbound [Accept] AcceptedOut
        else if sn_mode s = Learning
        then nft_append_application_rule_queues s [Drop, Reject]
             @ nft_append_application_candidate_guard_drops s DroppedOut [Drop, Reject]
        else nft_append_direct_rules s Outbound [Accept] AcceptedOut)
     @ (if interception \<noteq> InterceptNone \<and> sn_mode s = Learning
        then nft_append_learning_queue @ [counted_accept AcceptedOut []] else [])"

definition nft_append_chain ::
    "snapshot \<Rightarrow> direction \<Rightarrow> application_interception \<Rightarrow> nft_chain" where
  "nft_append_chain s dir interception =
     (case dir of
        Inbound \<Rightarrow>
          \<lparr>nc_name = ascii ''input'', nc_hook = HookInput, nc_priority = 0,
           nc_policy_accept = False,
           nc_rules = (if sn_mode s \<noteq> BlockAll then nft_inbound_rules s interception else [])
                      @ [[CounterName DroppedIn, DropPacket]]\<rparr>
      | Outbound \<Rightarrow>
          \<lparr>nc_name = ascii ''output'', nc_hook = HookOutput, nc_priority = 0,
           nc_policy_accept = False,
           nc_rules = (if sn_mode s \<noteq> BlockAll then nft_outbound_rules s interception else [])
                      @ [[CounterName DroppedOut, DropPacket]]\<rparr>)"

definition nft_append_application_mark_sanitization_chain :: nft_chain where
  "nft_append_application_mark_sanitization_chain =
     \<lparr>nc_name = ascii ''output_sanitize'', nc_hook = HookOutput, nc_priority = -1,
      nc_policy_accept = True,
      nc_rules = [[Match (PacketMarkNot APPLICATION_MARK_DOMAIN_MASK 0),
                   MarkKeep APPLICATION_MARK_PAYLOAD_MASK]]\<rparr>"

definition nft_authorization_rules ::
    "snapshot \<Rightarrow> application_interception \<Rightarrow> nft_rule list" where
  "nft_authorization_rules s interception =
     (let flow = application_flow_mark (sn_flow_generation s);
          reject_connmark = application_reject_connmark (sn_flow_generation s)
      in (if interception \<noteq> InterceptNone
          then [[Match (L4Proto ProtoTcp),
                 Match (PacketMark APPLICATION_MARK_DOMAIN_MASK APPLICATION_REJECT_DOMAIN),
                 ConnReplace APPLICATION_CONNMARK_FOREIGN_MASK reject_connmark,
                 CounterName DroppedOut, RejectTcpReset],
                [Match (PacketMark APPLICATION_MARK_DOMAIN_MASK APPLICATION_REJECT_DOMAIN),
                 ConnReplace APPLICATION_CONNMARK_FOREIGN_MASK reject_connmark,
                 CounterName DroppedOut, RejectPacket]]
               @ map (\<lambda>protocol_match.
                        map Match protocol_match
                        @ [Match (PacketMark APPLICATION_MARK_DOMAIN_MASK
                                    APPLICATION_PENDING_DOMAIN),
                           ConnReplace APPLICATION_CONNMARK_FOREIGN_MASK flow,
                           MarkKeep APPLICATION_MARK_PAYLOAD_MASK]
                        @ (if sn_mode s = Learning then [CounterName LearnedOut] else [])
                        @ [CounterName AcceptedOut, AcceptPacket])
                   (intercepted_protocols interception)
          else [])
         @ (if sn_mode s \<noteq> BlockAll
            then [[Match (PacketMark APPLICATION_MARK_DOMAIN_MASK APPLICATION_HANDOFF_DOMAIN),
                   MarkKeep APPLICATION_MARK_PAYLOAD_MASK, AcceptPacket]] else [])
         @ (if sn_mode s = Learning then [[CounterName AcceptedOut, AcceptPacket]] else [])
         @ [[CounterName DroppedOut, DropPacket]])"

definition nft_append_application_authorization_chain ::
    "snapshot \<Rightarrow> application_interception \<Rightarrow> nft_chain" where
  "nft_append_application_authorization_chain s interception =
     \<lparr>nc_name = ascii ''output_authorize'', nc_hook = HookOutput, nc_priority = 1,
      nc_policy_accept = False, nc_rules = nft_authorization_rules s interception\<rparr>"

definition nft_append_forward_chain :: "mode \<Rightarrow> nft_chain" where
  "nft_append_forward_chain md =
     \<lparr>nc_name = ascii ''forward'', nc_hook = HookForward, nc_priority = 0,
      nc_policy_accept = False,
      nc_rules = [if md = BlockAll then [CounterAnonymous, DropPacket] else [AcceptPacket]]\<rparr>"

definition nft_append_named_counters :: "nft_counter list" where
  "nft_append_named_counters =
     [OpenshieldOwner, AcceptedIn, AcceptedOut, DroppedIn, DroppedOut, LearnedOut]"

definition nft_table_of :: "snapshot \<Rightarrow> nft_table" where
  "nft_table_of s =
     (let interception = snapshot_application_interception s
      in \<lparr>nt_counters = nft_append_named_counters,
          nt_chains =
            [nft_append_chain s Inbound interception,
             nft_append_application_mark_sanitization_chain,
             nft_append_chain s Outbound interception,
             nft_append_application_authorization_chain s interception,
             nft_append_forward_chain (sn_mode s)]\<rparr>)"

section \<open>Text\<close>

definition hex_string_08 :: "u32 \<Rightarrow> ustring" where
  "hex_string_08 v = replicate (8 - length (hex_string (unat v))) 0x30 @ hex_string (unat v)"

definition hex_literal :: "u32 \<Rightarrow> ustring" where
  "hex_literal v = ascii ''0x'' @ hex_string_08 v"

fun join_with :: "ustring \<Rightarrow> ustring list \<Rightarrow> ustring" where
  "join_with sep [] = []"
| "join_with sep [x] = x"
| "join_with sep (x # xs) = x @ sep @ join_with sep xs"

definition quoted :: "ustring \<Rightarrow> ustring" where
  "quoted x = 0x22 # x @ [0x22]"

definition range_text :: "ustring \<Rightarrow> port_range \<Rightarrow> ustring" where
  "range_text sep r =
     dec_string (unat (pr_start r))
     @ (if pr_end r \<noteq> pr_start r then sep @ dec_string (unat (pr_end r)) else [])"

fun nft_state_text :: "ct_state \<Rightarrow> ustring" where
  "nft_state_text CtNew = ascii ''new''"
| "nft_state_text CtEstablished = ascii ''established''"
| "nft_state_text CtRelated = ascii ''related''"
| "nft_state_text CtInvalid = ascii ''invalid''"
| "nft_state_text CtUntracked = ascii ''untracked''"

fun nft_protocol_text :: "ip_protocol \<Rightarrow> ustring" where
  "nft_protocol_text ProtoTcp = ascii ''tcp''"
| "nft_protocol_text ProtoUdp = ascii ''udp''"
| "nft_protocol_text ProtoIcmp = ascii ''icmp''"
| "nft_protocol_text ProtoIcmpV6 = ascii ''icmpv6''"

fun nft_family_text :: "ip_family \<Rightarrow> ustring" where
  "nft_family_text Ipv4 = ascii ''ip''"
| "nft_family_text Ipv6 = ascii ''ip6''"

fun nft_flag_text :: "tcp_flag \<Rightarrow> ustring" where
  "nft_flag_text FlagFin = ascii ''fin''"
| "nft_flag_text FlagSyn = ascii ''syn''"
| "nft_flag_text FlagRst = ascii ''rst''"
| "nft_flag_text FlagAck = ascii ''ack''"

fun nft_flags_text :: "tcp_flag list \<Rightarrow> ustring" where
  "nft_flags_text [] = ascii ''0''"
| "nft_flags_text [f] = nft_flag_text f"
| "nft_flags_text fs = ascii ''('' @ join_with (ascii '' | '') (map nft_flag_text fs) @ ascii '')''"

fun nft_label_text :: "icmp_label \<Rightarrow> ustring" where
  "nft_label_text (LabelNumber n) = dec_string (unat n)"
| "nft_label_text DestinationUnreachable = ascii ''destination-unreachable''"
| "nft_label_text PortUnreachable = ascii ''port-unreachable''"
| "nft_label_text EchoReply = ascii ''echo-reply''"

fun scope_text :: "scope \<Rightarrow> ustring" where
  "scope_text LinkLocalV6 = ascii ''fe80::/10''"
| "scope_text MulticastV6 = ascii ''ff00::/8''"
| "scope_text LinkMulticastV6 = ascii ''ff02::/16''"
| "scope_text UnspecifiedV6 = ascii ''::''"
| "scope_text BroadcastV4 = ascii ''255.255.255.255''"

definition nft_scope_family :: "scope \<Rightarrow> ustring" where
  "nft_scope_family s = nft_family_text (net_family (scope_net s))"

fun nft_criterion_text :: "(ip_net \<Rightarrow> ustring) \<Rightarrow> criterion \<Rightarrow> ustring" where
  "nft_criterion_text show_net (CtState ss) =
     ascii ''ct state '' @ join_with (ascii '','') (map nft_state_text ss)"
| "nft_criterion_text show_net (CtDirection CtOriginal) = ascii ''ct direction original''"
| "nft_criterion_text show_net (CtDirection CtReply) = ascii ''ct direction reply''"
| "nft_criterion_text show_net (IifName i) = ascii ''iifname '' @ quoted i"
| "nft_criterion_text show_net (OifName i) = ascii ''oifname '' @ quoted i"
| "nft_criterion_text show_net (SrcNet n) =
     nft_family_text (net_family n) @ ascii '' saddr '' @ show_net n"
| "nft_criterion_text show_net (DstNet n) =
     nft_family_text (net_family n) @ ascii '' daddr '' @ show_net n"
| "nft_criterion_text show_net (SrcScope s) =
     nft_scope_family s @ ascii '' saddr '' @ scope_text s"
| "nft_criterion_text show_net (SrcNotScope s) =
     nft_scope_family s @ ascii '' saddr != '' @ scope_text s"
| "nft_criterion_text show_net (DstScope s) =
     nft_scope_family s @ ascii '' daddr '' @ scope_text s"
| "nft_criterion_text show_net (NfProto Ipv4) = ascii ''meta nfproto ipv4''"
| "nft_criterion_text show_net (NfProto Ipv6) = ascii ''meta nfproto ipv6''"
| "nft_criterion_text show_net (L4Proto k) = ascii ''meta l4proto '' @ nft_protocol_text k"
| "nft_criterion_text show_net (L4ProtoNot k) = ascii ''meta l4proto != '' @ nft_protocol_text k"
| "nft_criterion_text show_net (SrcPort k r) =
     nft_protocol_text k @ ascii '' sport '' @ range_text (ascii ''-'') r"
| "nft_criterion_text show_net (DstPort k r) =
     nft_protocol_text k @ ascii '' dport '' @ range_text (ascii ''-'') r"
| "nft_criterion_text show_net (StrayPort r) = range_text (ascii ''-'') r"
| "nft_criterion_text show_net (TcpFlags among these) =
     ascii ''tcp flags & '' @ nft_flags_text among @ ascii '' == '' @ nft_flags_text these"
| "nft_criterion_text show_net (IcmpType k l) =
     nft_protocol_text k @ ascii '' type '' @ nft_label_text l"
| "nft_criterion_text show_net (IcmpCode k l) =
     nft_protocol_text k @ ascii '' code '' @ nft_label_text l"
| "nft_criterion_text show_net (HopLimit h) = ascii ''ip6 hoplimit '' @ dec_string (unat h)"
| "nft_criterion_text show_net (PacketMark bits v) =
     ascii ''meta mark & '' @ hex_literal bits @ ascii '' == '' @ hex_literal v"
| "nft_criterion_text show_net (PacketMarkNot bits v) =
     ascii ''meta mark & '' @ hex_literal bits @ ascii '' != '' @ hex_literal v"
| "nft_criterion_text show_net (ConnMark bits v) =
     ascii ''ct mark & '' @ hex_literal bits @ ascii '' == '' @ hex_literal v"
| "nft_criterion_text show_net (OriginalDst n) =
     ascii ''ct original '' @ nft_family_text (net_family n) @ ascii '' daddr '' @ show_net n"
| "nft_criterion_text show_net (OriginalDstPort r) =
     ascii ''ct original proto-dst '' @ range_text (ascii ''-'') r"
| "nft_criterion_text show_net RateLimit = ascii ''limit rate 64/second burst 32 packets''"

fun nft_counter_text :: "nft_counter \<Rightarrow> ustring" where
  "nft_counter_text OpenshieldOwner = ascii ''openshield_owner_v1''"
| "nft_counter_text AcceptedIn = ascii ''accepted_in''"
| "nft_counter_text AcceptedOut = ascii ''accepted_out''"
| "nft_counter_text DroppedIn = ascii ''dropped_in''"
| "nft_counter_text DroppedOut = ascii ''dropped_out''"
| "nft_counter_text LearnedOut = ascii ''learned_out''"

definition append_packet_mark_domain_set :: "u32 \<Rightarrow> ustring" where
  "append_packet_mark_domain_set domain =
     ascii ''meta mark set (meta mark & '' @ hex_literal APPLICATION_MARK_PAYLOAD_MASK
     @ ascii '') | '' @ hex_literal domain"

fun nft_statement_text :: "(ip_net \<Rightarrow> ustring) \<Rightarrow> nft_statement \<Rightarrow> ustring" where
  "nft_statement_text show_net (Match c) = nft_criterion_text show_net c"
| "nft_statement_text show_net (MarkDomain domain) = append_packet_mark_domain_set domain"
| "nft_statement_text show_net (MarkKeep bits) =
     ascii ''meta mark set meta mark & '' @ hex_literal bits"
| "nft_statement_text show_net (ConnKeep bits) =
     ascii ''ct mark set ct mark & '' @ hex_literal bits"
| "nft_statement_text show_net (ConnReplace keep bits) =
     ascii ''ct mark set (ct mark & '' @ hex_literal keep @ ascii '') | '' @ hex_literal bits"
| "nft_statement_text show_net (CounterName c) = ascii ''counter name '' @ nft_counter_text c"
| "nft_statement_text show_net CounterAnonymous = ascii ''counter''"
| "nft_statement_text show_net AcceptPacket = ascii ''accept''"
| "nft_statement_text show_net DropPacket = ascii ''drop''"
| "nft_statement_text show_net RejectPacket = ascii ''reject''"
| "nft_statement_text show_net RejectTcpReset = ascii ''reject with tcp reset''"
| "nft_statement_text show_net (QueueNum n) = ascii ''queue num '' @ dec_string (unat n)"
| "nft_statement_text show_net (QueueBypass n) =
     ascii ''queue num '' @ dec_string (unat n) @ ascii '' bypass''"
| "nft_statement_text show_net (QueueTo n) = ascii ''queue to '' @ dec_string (unat n)"

text \<open>A script is a list of lines, each ended by a line feed.\<close>

definition nft_rule_line :: "(ip_net \<Rightarrow> ustring) \<Rightarrow> nft_rule \<Rightarrow> ustring" where
  "nft_rule_line show_net r = ascii ''    '' @ join_with (ascii '' '') (map (nft_statement_text show_net) r)"

fun nft_hook_text :: "nft_hook \<Rightarrow> ustring" where
  "nft_hook_text HookInput = ascii ''input''"
| "nft_hook_text HookOutput = ascii ''output''"
| "nft_hook_text HookForward = ascii ''forward''"

definition nft_priority_text :: "int \<Rightarrow> ustring" where
  "nft_priority_text n =
     (if n = 0 then ascii ''filter'' else (if n < 0 then ascii ''-'' else []) @ dec_string (nat \<bar>n\<bar>))"

definition nft_chain_lines :: "(ip_net \<Rightarrow> ustring) \<Rightarrow> nft_chain \<Rightarrow> ustring list" where
  "nft_chain_lines show_net c =
     [ascii ''  chain '' @ nc_name c @ ascii '' {'',
      ascii ''    type filter hook '' @ nft_hook_text (nc_hook c) @ ascii '' priority ''
      @ nft_priority_text (nc_priority c) @ ascii ''; policy ''
      @ (if nc_policy_accept c then ascii ''accept'' else ascii ''drop'') @ ascii '';'']
     @ map (nft_rule_line show_net) (nc_rules c) @ [ascii ''  }'']"

definition nft_counter_lines :: "nft_counter \<Rightarrow> ustring list" where
  "nft_counter_lines c =
     [ascii ''  counter '' @ nft_counter_text c @ ascii '' {'', ascii ''    packets 0 bytes 0'',
      ascii ''  }'']"

definition nft_lines :: "(ip_net \<Rightarrow> ustring) \<Rightarrow> nft_table \<Rightarrow> ustring list" where
  "nft_lines show_net t =
     [ascii ''add table inet openshield'', ascii ''delete table inet openshield'',
      ascii ''table inet openshield {'']
     @ concat (map nft_counter_lines (nt_counters t))
     @ concat (map (nft_chain_lines show_net) (nt_chains t)) @ [ascii ''}'']"

definition nft_render :: "(ip_net \<Rightarrow> ustring) \<Rightarrow> nft_table \<Rightarrow> ustring" where
  "nft_render show_net t = concat (map (\<lambda>line. line @ [0x0A]) (nft_lines show_net t))"

datatype compile_error = InvalidState core_error

definition nft_compile :: "(ip_net \<Rightarrow> ustring) \<Rightarrow> snapshot \<Rightarrow> compile_error + ustring" where
  "nft_compile show_net s =
     bindE (map_err InvalidState (snapshot_validate s))
       (\<lambda>_. Inr (nft_render show_net (nft_table_of s)))"

section \<open>Running a table\<close>

datatype nft_outcome = NftAccept | NftDrop | NftReject | NftQueue u16 bool

definition set_connection_mark :: "packet \<Rightarrow> u32 \<Rightarrow> marks \<Rightarrow> marks" where
  "set_connection_mark p v m = (if pk_conntrack p = None then m else m\<lparr>mk_connection := v\<rparr>)"

text \<open>
  The statements of a rule are run from the left; a failed match ends the rule, a verdict
  statement ends the chain.
\<close>

fun run_statements ::
    "bool \<Rightarrow> packet \<Rightarrow> nft_statement list \<Rightarrow> marks \<Rightarrow> nft_outcome option \<times> marks" where
  "run_statements lim p [] m = (None, m)"
| "run_statements lim p (Match c # ss) m =
     (if holds lim p m c then run_statements lim p ss m else (None, m))"
| "run_statements lim p (MarkDomain domain # ss) m =
     run_statements lim p ss
       (m\<lparr>mk_packet := (mk_packet m AND APPLICATION_MARK_PAYLOAD_MASK) OR domain\<rparr>)"
| "run_statements lim p (MarkKeep bits # ss) m =
     run_statements lim p ss (m\<lparr>mk_packet := mk_packet m AND bits\<rparr>)"
| "run_statements lim p (ConnKeep bits # ss) m =
     run_statements lim p ss (set_connection_mark p (mk_connection m AND bits) m)"
| "run_statements lim p (ConnReplace keep bits # ss) m =
     run_statements lim p ss (set_connection_mark p ((mk_connection m AND keep) OR bits) m)"
| "run_statements lim p (CounterName c # ss) m = run_statements lim p ss m"
| "run_statements lim p (CounterAnonymous # ss) m = run_statements lim p ss m"
| "run_statements lim p (AcceptPacket # ss) m = (Some NftAccept, m)"
| "run_statements lim p (DropPacket # ss) m = (Some NftDrop, m)"
| "run_statements lim p (RejectPacket # ss) m = (Some NftReject, m)"
| "run_statements lim p (RejectTcpReset # ss) m = (Some NftReject, m)"
| "run_statements lim p (QueueNum n # ss) m = (Some (NftQueue n False), m)"
| "run_statements lim p (QueueBypass n # ss) m = (Some (NftQueue n True), m)"
| "run_statements lim p (QueueTo n # ss) m = (Some (NftQueue n False), m)"

fun run_rules ::
    "bool \<Rightarrow> packet \<Rightarrow> nft_rule list \<Rightarrow> marks \<Rightarrow> nft_outcome option \<times> marks" where
  "run_rules lim p [] m = (None, m)"
| "run_rules lim p (r # rs) m =
     (case run_statements lim p r m of
        (Some v, m') \<Rightarrow> (Some v, m')
      | (None, m') \<Rightarrow> run_rules lim p rs m')"

definition run_chain :: "bool \<Rightarrow> packet \<Rightarrow> nft_chain \<Rightarrow> marks \<Rightarrow> nft_outcome \<times> marks" where
  "run_chain lim p c m =
     (case run_rules lim p (nc_rules c) m of
        (Some v, m') \<Rightarrow> (v, m')
      | (None, m') \<Rightarrow> (if nc_policy_accept c then NftAccept else NftDrop, m'))"

text \<open>
  The base chains of a hook run in the order of their priorities.  An accept goes on to the next one, a
  drop or a reject is final, and a queued packet goes on, is repeated in the same chain, or
  is gone, as its consumer says; \<open>fuel\<close> bounds the repetitions.
\<close>

fun traverse ::
    "nat \<Rightarrow> queue_consumer \<Rightarrow> bool \<Rightarrow> packet \<Rightarrow> nft_chain list \<Rightarrow> marks \<Rightarrow> hook_verdict \<times> marks" where
  "traverse fuel consume lim p [] m = (Passed, m)"
| "traverse 0 consume lim p (c # cs) m = (Unfinished, m)"
| "traverse (Suc fuel) consume lim p (c # cs) m =
     (case run_chain lim p c m of
        (NftAccept, m') \<Rightarrow> traverse fuel consume lim p cs m'
      | (NftDrop, m') \<Rightarrow> (Discarded, m')
      | (NftReject, m') \<Rightarrow> (Refused, m')
      | (NftQueue n bypass, m') \<Rightarrow>
          (case consume n p m' of
             QueueAbsent \<Rightarrow>
               if bypass then traverse fuel consume lim p cs m' else (Discarded, m')
           | QueueDrop \<Rightarrow> (Discarded, m')
           | QueueAccept v \<Rightarrow> traverse fuel consume lim p cs (m'\<lparr>mk_packet := v\<rparr>)
           | QueueRepeat v \<Rightarrow> traverse fuel consume lim p (c # cs) (m'\<lparr>mk_packet := v\<rparr>)))"

definition hook_chains :: "nft_hook \<Rightarrow> nft_table \<Rightarrow> nft_chain list" where
  "hook_chains h t = sort_key nc_priority (filter (\<lambda>c. nc_hook c = h) (nt_chains t))"

definition nft_hook_run ::
    "nat \<Rightarrow> queue_consumer \<Rightarrow> bool \<Rightarrow> nft_table \<Rightarrow> nft_hook \<Rightarrow> packet \<Rightarrow> marks
     \<Rightarrow> hook_verdict \<times> marks" where
  "nft_hook_run fuel consume lim t h p m = traverse fuel consume lim p (hook_chains h t) m"

end
