(* ===== verification/Iptables.thy ===== *)
theory Iptables
  imports Nftables
begin

text \<open>
  The iptables compiler of \<open>src/crates/openshield-core/src/iptables.rs\<close>, the compatibility back
  end: one definition per \<open>append_*\<close> function, giving the lines of an \<open>iptables-restore\<close>
  program as syntax trees, their text, and how a restored program treats a packet.
\<close>

unbundle bit_operations_syntax

section \<open>Syntax\<close>

datatype ipt_chain =
    ChainIn | ChainOut | ChainForward | ChainAppTcp | ChainAppPacket | ChainMark | ChainObserve

datatype ipt_match =
    MSource ip_net
  | MDestination ip_net
  | MSourceScope scope
  | MDestinationScope scope
  | MInInterface ustring
  | MOutInterface ustring
  | MProtocol ip_protocol
  | MNotProtocol ip_protocol
  | MConntrack "ct_state list" "ip_net option" "port_range option" "ct_direction option"
  | MSourcePort "ip_protocol option" port_range
  | MDestinationPort "ip_protocol option" port_range
  | MUdpPorts u16 u16
  | MTcpFlags "tcp_flag list" "tcp_flag list"
  | MIcmp ip_protocol u8 "u8 option"
  | MSourceTypeNot "scope list"
  | MHopLimit u8
  | MMark u32 u32
  | MMarkNot u32 u32
  | MConnmark u32 u32
  | MLimit
  | MComment ustring

datatype ipt_target =
    TReturn
  | TDrop
  | TRejectTcpReset
  | TRejectUnreachable ip_family
  | TMark u32 u32
  | TConnmark u32 u32
  | TQueue u16
  | TQueueBypass u16
  | TGoto ipt_chain
  | TNone

record ipt_rule =
  ir_chain :: ipt_chain
  ir_matches :: "ipt_match list"
  ir_target :: ipt_target

datatype ipt_table = TableMangle | TableFilter
datatype ipt_line = LTable ipt_table | LFlush ipt_chain | LAppend ipt_rule | LCommit

abbreviation rule_in :: "ipt_chain \<Rightarrow> ipt_match list \<Rightarrow> ipt_target \<Rightarrow> ipt_rule" where
  "rule_in c ms t \<equiv> \<lparr>ir_chain = c, ir_matches = ms, ir_target = t\<rparr>"

definition ctmatch :: "ct_state list \<Rightarrow> ct_direction \<Rightarrow> ipt_match" where
  "ctmatch states dir = MConntrack states None None (Some dir)"

datatype ipt_counter = CAcceptedIn | CAcceptedOut | CDroppedIn | CDroppedOut

fun ipt_counter_text :: "ipt_counter \<Rightarrow> ustring" where
  "ipt_counter_text CAcceptedIn = ascii ''accepted_in''"
| "ipt_counter_text CAcceptedOut = ascii ''accepted_out''"
| "ipt_counter_text CDroppedIn = ascii ''dropped_in''"
| "ipt_counter_text CDroppedOut = ascii ''dropped_out''"

definition counted :: "ipt_counter \<Rightarrow> ipt_match" where
  "counted c = MComment (ascii ''openshield:'' @ ipt_counter_text c)"

section \<open>Matches of a rule\<close>

fun supports_net :: "transport_protocol \<Rightarrow> ip_net option \<Rightarrow> ip_family \<Rightarrow> bool" where
  "supports_net Icmp _ Ipv6 \<longleftrightarrow> False"
| "supports_net IcmpV6 _ Ipv4 \<longleftrightarrow> False"
| "supports_net _ (Some (NetV4 _ _)) Ipv6 \<longleftrightarrow> False"
| "supports_net _ (Some (NetV6 _ _)) Ipv4 \<longleftrightarrow> False"
| "supports_net _ _ _ \<longleftrightarrow> True"

definition supports_family :: "rule \<Rightarrow> ip_family \<Rightarrow> bool" where
  "supports_family r family \<longleftrightarrow>
     supports_net (spec_protocol (rule_spec r)) (spec_peer_network (rule_spec r)) family"

fun ipt_protocol :: "transport_protocol \<Rightarrow> ip_protocol option" where
  "ipt_protocol Any = None"
| "ipt_protocol Tcp = Some ProtoTcp"
| "ipt_protocol Udp = Some ProtoUdp"
| "ipt_protocol Icmp = Some ProtoIcmp"
| "ipt_protocol IcmpV6 = Some ProtoIcmpV6"

definition ipt_protocol_match :: "transport_protocol \<Rightarrow> ipt_match list" where
  "ipt_protocol_match k = (case ipt_protocol k of None \<Rightarrow> [] | Some q \<Rightarrow> [MProtocol q])"

definition ipt_rule_match :: "rule \<Rightarrow> direction \<Rightarrow> bool \<Rightarrow> ipt_match list" where
  "ipt_rule_match r chain_direction stateful_reverse =
     (case spec_peer_network (rule_spec r) of
        None \<Rightarrow> []
      | Some n \<Rightarrow> if chain_direction = Inbound then [MSource n] else [MDestination n])
     @ (case spec_interface (rule_spec r) of
          None \<Rightarrow> []
        | Some i \<Rightarrow> if chain_direction = Inbound then [MInInterface (interface_str i)]
                    else [MOutInterface (interface_str i)])
     @ ipt_protocol_match (spec_protocol (rule_spec r))
     @ (if stateful_reverse then [ctmatch [CtEstablished] CtReply] else [])
     @ (case spec_port (rule_spec r) of
          None \<Rightarrow> []
        | Some ports \<Rightarrow>
            if stateful_reverse then [MSourcePort (ipt_protocol (spec_protocol (rule_spec r))) ports]
            else [MDestinationPort (ipt_protocol (spec_protocol (rule_spec r))) ports])"

fun direction_chain :: "direction \<Rightarrow> ipt_chain" where
  "direction_chain Inbound = ChainIn"
| "direction_chain Outbound = ChainOut"

definition reject_verdict :: "ip_family \<Rightarrow> ipt_target" where
  "reject_verdict family = TRejectUnreachable family"

fun ipt_verdict_counter :: "direction \<Rightarrow> rule_action \<Rightarrow> ipt_counter" where
  "ipt_verdict_counter Inbound Accept = CAcceptedIn"
| "ipt_verdict_counter Outbound Accept = CAcceptedOut"
| "ipt_verdict_counter _ _ = CDroppedOut"

definition ipt_verdict_target :: "rule \<Rightarrow> ip_family \<Rightarrow> rule_action \<Rightarrow> ipt_target" where
  "ipt_verdict_target r family action =
     (case action of
        Accept \<Rightarrow> TReturn
      | Drop \<Rightarrow> TDrop
      | Reject \<Rightarrow> if spec_protocol (rule_spec r) = Tcp then TRejectTcpReset
                  else reject_verdict family)"

definition ipt_append_rule_verdict ::
    "rule \<Rightarrow> ip_family \<Rightarrow> direction \<Rightarrow> bool \<Rightarrow> rule_action \<Rightarrow> u32 \<Rightarrow> ipt_rule list" where
  "ipt_append_rule_verdict r family dir stateful_reverse action reject_connmark =
     (if action = Reject
      then [rule_in (direction_chain dir) (ipt_rule_match r dir stateful_reverse)
              (TConnmark reject_connmark APPLICATION_CONNMARK_MASK)]
      else [])
     @ [rule_in (direction_chain dir)
          (ipt_rule_match r dir stateful_reverse @ [counted (ipt_verdict_counter dir action)])
          (ipt_verdict_target r family action)]"

section \<open>Rules of a chain\<close>

fun ipt_rule_action_priority :: "rule_action \<Rightarrow> u8" where
  "ipt_rule_action_priority Drop = 0"
| "ipt_rule_action_priority Reject = 1"
| "ipt_rule_action_priority Accept = 2"

definition ipt_order :: "rule \<Rightarrow> u8 \<times> uuid" where
  "ipt_order r = (ipt_rule_action_priority (spec_action (rule_spec r)), rule_id r)"

definition ipt_append_direct_rules_for_actions ::
    "snapshot \<Rightarrow> ip_family \<Rightarrow> direction \<Rightarrow> rule_action list \<Rightarrow> bool \<Rightarrow> ipt_rule list" where
  "ipt_append_direct_rules_for_actions s family dir actions learning_accept =
     concat (map (\<lambda>r. ipt_append_rule_verdict r family dir False
                        (if learning_accept then Accept else spec_action (rule_spec r))
                        (application_reject_connmark (sn_flow_generation s)))
       (sort_key ipt_order
         (filter (\<lambda>r. spec_enabled (rule_spec r) \<and> spec_direction (rule_spec r) = dir
                       \<and> spec_application (rule_spec r) = None \<and> supports_family r family
                       \<and> spec_action (rule_spec r) \<in> set actions) (sn_rules s))))"

definition ipt_append_direct_rules :: "snapshot \<Rightarrow> ip_family \<Rightarrow> direction \<Rightarrow> ipt_rule list" where
  "ipt_append_direct_rules s family dir =
     ipt_append_direct_rules_for_actions s family dir [Accept] False"

definition ipt_append_reverse_rules :: "snapshot \<Rightarrow> ip_family \<Rightarrow> direction \<Rightarrow> ipt_rule list" where
  "ipt_append_reverse_rules s family dir =
     concat (map (\<lambda>r. ipt_append_rule_verdict r family dir True Accept
                        (application_reject_connmark (sn_flow_generation s)))
       (sort_key rule_id
         (filter (\<lambda>r. spec_enabled (rule_spec r) \<and> spec_direction (rule_spec r) \<noteq> dir
                       \<and> spec_application (rule_spec r) = None \<and> supports_family r family
                       \<and> spec_action (rule_spec r) = Accept) (sn_rules s))))"

definition ipt_application_rules ::
    "snapshot \<Rightarrow> ip_family \<Rightarrow> rule_action list \<Rightarrow> rule list" where
  "ipt_application_rules s family actions =
     sort_key ipt_order
       (filter (\<lambda>r. spec_enabled (rule_spec r) \<and> spec_direction (rule_spec r) = Outbound
                     \<and> spec_application (rule_spec r) \<noteq> None \<and> supports_family r family
                     \<and> spec_action (rule_spec r) \<in> set actions) (sn_rules s))"

definition in_original_direction :: ipt_match where
  "in_original_direction = ctmatch [] CtOriginal"

definition ipt_append_application_rule_queues ::
    "snapshot \<Rightarrow> ip_family \<Rightarrow> rule_action list \<Rightarrow> ipt_rule list" where
  "ipt_append_application_rule_queues s family actions =
     concat (map (\<lambda>r.
         [rule_in ChainOut (ipt_rule_match r Outbound False @ [in_original_direction])
            (TMark APPLICATION_PENDING_DOMAIN APPLICATION_MARK_DOMAIN_MASK),
          rule_in ChainOut (ipt_rule_match r Outbound False @ [in_original_direction])
            (TQueue APPLICATION_QUEUE_NUMBER)])
       (ipt_application_rules s family actions))"

fun ipt_echo_reply :: "transport_protocol \<Rightarrow> ipt_match list" where
  "ipt_echo_reply Icmp = [MIcmp ProtoIcmp 0 (Some 0)]"
| "ipt_echo_reply IcmpV6 = [MIcmp ProtoIcmpV6 129 (Some 0)]"
| "ipt_echo_reply _ = []"

definition ipt_append_application_reply_queues :: "snapshot \<Rightarrow> ip_family \<Rightarrow> ipt_rule list" where
  "ipt_append_application_reply_queues s family =
     map (\<lambda>r. rule_in ChainIn
         (ipt_rule_match r Inbound True @ ipt_echo_reply (spec_protocol (rule_spec r))
          @ [MMarkNot APPLICATION_HANDOFF_DOMAIN APPLICATION_MARK_DOMAIN_MASK])
         (TQueue APPLICATION_REPLY_QUEUE_NUMBER))
       (filter (\<lambda>r. supports_family r family) (application_reply_candidates s))"

definition ipt_original_match :: "rule \<Rightarrow> ipt_match list" where
  "ipt_original_match r =
     (case spec_interface (rule_spec r) of None \<Rightarrow> [] | Some i \<Rightarrow> [MOutInterface (interface_str i)])
     @ ipt_protocol_match (spec_protocol (rule_spec r))
     @ [MConntrack [] (spec_peer_network (rule_spec r)) (spec_port (rule_spec r)) (Some CtOriginal)]"

definition ipt_append_application_candidate_guard_drops ::
    "snapshot \<Rightarrow> ip_family \<Rightarrow> rule_action list \<Rightarrow> ipt_rule list" where
  "ipt_append_application_candidate_guard_drops s family actions =
     concat (map (\<lambda>r.
         rule_in ChainOut
           (ipt_rule_match r Outbound False
            @ [MConntrack [CtUntracked] None None None, counted CDroppedOut]) TDrop
         # (if spec_peer_network (rule_spec r) = None \<and> spec_port (rule_spec r) = None then []
            else [rule_in ChainOut (ipt_original_match r @ [counted CDroppedOut]) TDrop]))
       (ipt_application_rules s family actions))"

definition ipt_append_learning_observer_kernel_guards ::
    "snapshot \<Rightarrow> ip_family \<Rightarrow> ipt_rule list" where
  "ipt_append_learning_observer_kernel_guards s family =
     map (\<lambda>r. rule_in ChainObserve
                (ipt_rule_match r Outbound False @ [in_original_direction]) TReturn)
       (sort_key ipt_order
         (filter (\<lambda>r. spec_enabled (rule_spec r) \<and> spec_direction (rule_spec r) = Outbound
                       \<and> spec_action (rule_spec r) \<in> {Drop, Reject} \<and> supports_family r family)
           (sn_rules s)))"

section \<open>Input\<close>

definition ipt_append_invalid_drop :: "ipt_chain \<Rightarrow> ipt_counter \<Rightarrow> ipt_rule list" where
  "ipt_append_invalid_drop chain counter =
     [rule_in chain [MConntrack [CtInvalid] None None None, counted counter] TDrop]"

definition ipt_append_counted_verdict :: "ipt_chain \<Rightarrow> ipt_counter \<Rightarrow> ipt_rule list" where
  "ipt_append_counted_verdict chain counter = [rule_in chain [counted counter] TDrop]"

definition ipt_append_generated_reject_reply_accept ::
    "ipt_chain \<Rightarrow> ip_family \<Rightarrow> ipt_counter \<Rightarrow> u32 \<Rightarrow> ipt_rule list" where
  "ipt_append_generated_reject_reply_accept chain family counter reject_connmark =
     map (\<lambda>shape. rule_in chain
            (shape @ [ctmatch [CtRelated] CtReply,
                      MConnmark reject_connmark APPLICATION_CONNMARK_MASK, counted counter]) TReturn)
       [[MProtocol ProtoTcp, MTcpFlags [FlagRst] [FlagRst]],
        (case family of
           Ipv4 \<Rightarrow> [MProtocol ProtoIcmp, MIcmp ProtoIcmp 3 (Some 3)]
         | Ipv6 \<Rightarrow> [MProtocol ProtoIcmpV6, MIcmp ProtoIcmpV6 1 (Some 4)])]"

definition ipt_reject_replies ::
    "snapshot \<Rightarrow> ip_family \<Rightarrow> ipt_chain \<Rightarrow> ipt_counter \<Rightarrow> ipt_rule list" where
  "ipt_reject_replies s family chain counter =
     (if has_enabled_outbound_reject s
      then ipt_append_generated_reject_reply_accept chain family counter
             (application_reject_connmark (sn_flow_generation s))
      else [])"

definition ipt_related_error :: "u8 \<Rightarrow> u8 option \<Rightarrow> ipt_match list" where
  "ipt_related_error t code =
     [MProtocol ProtoIcmpV6, MConntrack [CtRelated] None None None,
      MSourceTypeNot [UnspecifiedV6, MulticastV6], MIcmp ProtoIcmpV6 t code]"

definition ipt_control_plane_selectors :: "ipt_match list list" where
  "ipt_control_plane_selectors =
     [ipt_related_error 1 None, ipt_related_error 2 (Some 0), ipt_related_error 3 (Some 0),
      ipt_related_error 4 (Some 1), ipt_related_error 4 (Some 2),
      [MSourceScope LinkLocalV6, MProtocol ProtoIcmpV6, MHopLimit 255,
       MIcmp ProtoIcmpV6 134 (Some 0)],
      [MProtocol ProtoIcmpV6, MSourceTypeNot [MulticastV6], MHopLimit 255,
       MIcmp ProtoIcmpV6 135 (Some 0)],
      [MProtocol ProtoIcmpV6, MSourceTypeNot [UnspecifiedV6, MulticastV6], MHopLimit 255,
       MIcmp ProtoIcmpV6 136 (Some 0)],
      [MSourceScope LinkLocalV6, MDestinationScope LinkMulticastV6, MProtocol ProtoIcmpV6,
       MHopLimit 1, MIcmp ProtoIcmpV6 130 (Some 0)]]"

definition ipt_append_ipv6_host_control_plane_accepts :: "ip_family \<Rightarrow> ipt_rule list" where
  "ipt_append_ipv6_host_control_plane_accepts family =
     (if family \<noteq> Ipv6 then []
      else map (\<lambda>selector. rule_in ChainIn (selector @ [counted CAcceptedIn]) TReturn)
             ipt_control_plane_selectors)"

definition ipt_append_dhcp_bootstrap_accepts :: "ip_family \<Rightarrow> ipt_rule list" where
  "ipt_append_dhcp_bootstrap_accepts family =
     [rule_in ChainIn
        ((case family of
            Ipv4 \<Rightarrow> [MDestinationScope BroadcastV4, MProtocol ProtoUdp, MUdpPorts 67 68]
          | Ipv6 \<Rightarrow> [MSourceScope LinkLocalV6, MProtocol ProtoUdp, MUdpPorts 547 546])
         @ [counted CAcceptedIn]) TReturn]"

definition application_reply_protocols :: "ip_family \<Rightarrow> ip_protocol list" where
  "application_reply_protocols family =
     (case family of
        Ipv4 \<Rightarrow> [ProtoTcp, ProtoUdp, ProtoIcmp]
      | Ipv6 \<Rightarrow> [ProtoTcp, ProtoUdp, ProtoIcmpV6])"

definition application_non_tcp_protocols :: "ip_family \<Rightarrow> ip_protocol list" where
  "application_non_tcp_protocols family =
     (case family of Ipv4 \<Rightarrow> [ProtoUdp, ProtoIcmp] | Ipv6 \<Rightarrow> [ProtoUdp, ProtoIcmpV6])"

definition ipt_intercepted ::
    "ip_family \<Rightarrow> application_interception \<Rightarrow> ip_protocol list" where
  "ipt_intercepted family interception =
     (case interception of
        InterceptNone \<Rightarrow> []
      | TcpInitial \<Rightarrow> take 1 (application_reply_protocols family)
      | PerPacket \<Rightarrow> application_reply_protocols family)"

definition ipt_flow_match :: "snapshot \<Rightarrow> ipt_match" where
  "ipt_flow_match s =
     MConnmark (application_flow_mark (sn_flow_generation s)) APPLICATION_CONNMARK_MASK"

definition ipt_append_application_loopback_accept ::
    "snapshot \<Rightarrow> ip_family \<Rightarrow> direction \<Rightarrow> application_interception \<Rightarrow> ipt_rule list" where
  "ipt_append_application_loopback_accept s family dir interception =
     (if sn_mode s \<noteq> Enforcing then []
      else
        map (\<lambda>protocol.
               case dir of
                 Inbound \<Rightarrow>
                   rule_in ChainIn
                     [MInInterface (ascii ''lo''), MProtocol protocol,
                      ctmatch [CtNew, CtEstablished] CtOriginal, ipt_flow_match s,
                      counted CAcceptedIn] TReturn
               | Outbound \<Rightarrow>
                   rule_in ChainOut
                     [MOutInterface (ascii ''lo''), MProtocol protocol,
                      ctmatch [CtEstablished] CtReply, ipt_flow_match s,
                      counted CAcceptedOut] TReturn)
          (ipt_intercepted family interception))"

definition ipt_append_input_chain ::
    "snapshot \<Rightarrow> ip_family \<Rightarrow> application_interception \<Rightarrow> ipt_rule list" where
  "ipt_append_input_chain s family interception =
     (if sn_mode s \<noteq> BlockAll
      then ipt_append_dhcp_bootstrap_accepts family
           @ ipt_append_invalid_drop ChainIn CDroppedIn
           @ ipt_append_ipv6_host_control_plane_accepts family
           @ ipt_reject_replies s family ChainIn CAcceptedIn
           @ (if sn_mode s = Learning
              then [rule_in ChainIn
                      [MInInterface (ascii ''lo''), in_original_direction, counted CAcceptedIn]
                      TReturn,
                    rule_in ChainIn
                      [ctmatch [CtRelated, CtEstablished] CtReply, counted CAcceptedIn] TReturn]
              else [])
           @ (if interception \<noteq> InterceptNone
              then ipt_append_application_loopback_accept s family Inbound interception
                   @ map (\<lambda>protocol. rule_in ChainIn
                            [MProtocol protocol, ctmatch [CtEstablished] CtReply,
                             ipt_flow_match s, counted CAcceptedIn] TReturn)
                       (ipt_intercepted family interception)
              else [])
           @ ipt_append_direct_rules s family Inbound
           @ ipt_append_reverse_rules s family Inbound
           @ (if sn_mode s = Enforcing \<and> interception = PerPacket
              then ipt_append_application_reply_queues s family else [])
      else [])
     @ ipt_append_counted_verdict ChainIn CDroppedIn"

section \<open>Output\<close>

definition reject_marked :: ipt_match where
  "reject_marked = MMark APPLICATION_REJECT_DOMAIN APPLICATION_MARK_DOMAIN_MASK"

definition handoff_marked :: ipt_match where
  "handoff_marked = MMark APPLICATION_HANDOFF_DOMAIN APPLICATION_MARK_DOMAIN_MASK"

definition ipt_verdict_mark_rules ::
    "snapshot \<Rightarrow> ip_family \<Rightarrow> application_interception \<Rightarrow> ipt_rule list" where
  "ipt_verdict_mark_rules s family interception =
     [rule_in ChainOut [reject_marked]
        (TConnmark (application_reject_connmark (sn_flow_generation s)) APPLICATION_CONNMARK_MASK),
      rule_in ChainOut [MProtocol ProtoTcp, reject_marked, counted CDroppedOut] TRejectTcpReset,
      rule_in ChainOut [reject_marked, counted CDroppedOut] (reject_verdict family),
      rule_in ChainOut [MProtocol ProtoTcp, handoff_marked] (TGoto ChainAppTcp)]
     @ (if interception = PerPacket
        then map (\<lambda>protocol. rule_in ChainOut [MProtocol protocol, handoff_marked]
                    (TGoto ChainAppPacket)) (application_non_tcp_protocols family)
             @ (if sn_mode s = Learning
                then [rule_in ChainOut [handoff_marked] (TGoto ChainAppPacket)] else [])
        else [])"

definition ipt_outbound_flow_rules ::
    "snapshot \<Rightarrow> ip_family \<Rightarrow> application_interception \<Rightarrow> ipt_rule list" where
  "ipt_outbound_flow_rules s family interception =
     ipt_append_application_loopback_accept s family Outbound interception
     @ [rule_in ChainOut
          [MProtocol ProtoTcp, ctmatch [CtEstablished] CtOriginal, ipt_flow_match s,
           counted CAcceptedOut] TReturn]
     @ (if interception = PerPacket
        then map (\<lambda>protocol. rule_in ChainOut [MProtocol protocol, in_original_direction]
                    (TConnmark 0 APPLICATION_CONNMARK_MASK))
               (application_non_tcp_protocols family)
        else [])"

definition ipt_append_output_chain ::
    "snapshot \<Rightarrow> ip_family \<Rightarrow> application_interception \<Rightarrow> ipt_rule list" where
  "ipt_append_output_chain s family interception =
     (if sn_mode s \<noteq> BlockAll
      then (if sn_mode s = Enforcing then ipt_append_invalid_drop ChainOut CDroppedOut else [])
           @ ipt_reject_replies s family ChainOut CAcceptedOut
           @ (if sn_mode s = Enforcing \<or> sn_mode s = Learning
              then ipt_append_direct_rules_for_actions s family Outbound [Drop] False
                   @ ipt_append_direct_rules_for_actions s family Outbound [Reject] False
              else [])
           @ (if interception \<noteq> InterceptNone
              then ipt_verdict_mark_rules s family interception else [])
           @ (if interception \<noteq> InterceptNone
              then ipt_outbound_flow_rules s family interception else [])
           @ ipt_append_reverse_rules s family Outbound
           @ (if sn_mode s = Enforcing
              then ipt_append_application_rule_queues s family [Drop, Reject, Accept]
                   @ ipt_append_application_candidate_guard_drops s family [Drop, Reject, Accept]
              else if sn_mode s = Learning
              then ipt_append_application_rule_queues s family [Drop, Reject]
                   @ ipt_append_application_candidate_guard_drops s family [Drop, Reject]
              else [])
           @ (if sn_mode s = Learning
              then ipt_append_direct_rules_for_actions s family Outbound [Accept] False
                   @ [rule_in ChainOut [counted CAcceptedOut] TReturn]
              else ipt_append_direct_rules_for_actions s family Outbound [Accept] False)
      else [])
     @ ipt_append_counted_verdict ChainOut CDroppedOut"

definition ipt_append_clear_reserved_mark :: "ipt_chain \<Rightarrow> ipt_rule list" where
  "ipt_append_clear_reserved_mark chain =
     [rule_in chain [] (TMark 0 APPLICATION_MARK_DOMAIN_MASK)]"

definition ipt_append_application_accept :: "ipt_chain \<Rightarrow> mode \<Rightarrow> ipt_rule list" where
  "ipt_append_application_accept chain md =
     [rule_in chain
        [MComment (if md = Learning then ascii ''openshield:accepted_out+learned_out''
                   else ascii ''openshield:accepted_out'')] TReturn]"

definition ipt_application_chain :: "snapshot \<Rightarrow> ipt_chain \<Rightarrow> ipt_rule list" where
  "ipt_application_chain s chain =
     [rule_in chain []
        (TConnmark (application_flow_mark (sn_flow_generation s AND MAX_FLOW_GENERATION))
           APPLICATION_CONNMARK_MASK)]
     @ ipt_append_clear_reserved_mark chain @ ipt_append_application_accept chain (sn_mode s)"

definition ipt_append_application_chains ::
    "snapshot \<Rightarrow> application_interception \<Rightarrow> ipt_rule list" where
  "ipt_append_application_chains s interception =
     (if interception \<noteq> InterceptNone
      then ipt_application_chain s ChainAppTcp
           @ (if interception = PerPacket then ipt_application_chain s ChainAppPacket else [])
      else [])
     @ ipt_append_counted_verdict ChainAppTcp CDroppedOut
     @ ipt_append_counted_verdict ChainAppPacket CDroppedOut"

definition ipt_append_forward_chain :: "mode \<Rightarrow> ipt_rule list" where
  "ipt_append_forward_chain md =
     (if md = BlockAll then ipt_append_counted_verdict ChainForward CDroppedOut
      else [rule_in ChainForward [] TReturn])"

section \<open>Programs\<close>

definition owned_chains :: "ipt_chain list" where
  "owned_chains = [ChainIn, ChainOut, ChainForward, ChainAppTcp, ChainAppPacket]"

definition owned_mangle_chains :: "ipt_chain list" where
  "owned_mangle_chains = [ChainMark, ChainObserve]"

definition IPTABLES_OWNERSHIP_COMMENT :: ustring where
  "IPTABLES_OWNERSHIP_COMMENT = ascii ''openshield:owner:v1''"

definition ownership_rule :: "ipt_chain \<Rightarrow> ipt_rule" where
  "ownership_rule chain = rule_in chain [MComment IPTABLES_OWNERSHIP_COMMENT] TNone"

definition ipt_append_reserved_mark_sanitizer :: "ipt_chain \<Rightarrow> ipt_rule list" where
  "ipt_append_reserved_mark_sanitizer chain =
     [rule_in chain [MMarkNot 0 APPLICATION_MARK_DOMAIN_MASK]
        (TMark 0 APPLICATION_MARK_DOMAIN_MASK)]"

definition ipt_learning_observer :: "ipt_rule list" where
  "ipt_learning_observer =
     map (\<lambda>selector. rule_in ChainObserve
            (selector @ [MComment (ascii ''openshield:learned_out'')])
            (TQueueBypass APPLICATION_LEARNING_QUEUE_NUMBER))
       [[MProtocol ProtoTcp, MTcpFlags [FlagFin, FlagSyn, FlagRst, FlagAck] [FlagSyn],
         ctmatch [CtNew] CtOriginal],
        [MProtocol ProtoTcp, MTcpFlags [FlagFin, FlagRst] [], ctmatch [CtEstablished] CtOriginal,
         MLimit],
        [MNotProtocol ProtoTcp, in_original_direction]]"

definition ipt_mangle_rules :: "snapshot \<Rightarrow> ip_family \<Rightarrow> ipt_rule list" where
  "ipt_mangle_rules s family =
     [ownership_rule ChainMark] @ ipt_append_reserved_mark_sanitizer ChainMark
     @ [rule_in ChainMark [] TReturn]
     @ [ownership_rule ChainObserve] @ ipt_append_reserved_mark_sanitizer ChainObserve
     @ (if sn_mode s = Learning
        then ipt_append_learning_observer_kernel_guards s family @ ipt_learning_observer else [])
     @ [rule_in ChainObserve [] TReturn]"

definition ipt_filter_rules ::
    "snapshot \<Rightarrow> ip_family \<Rightarrow> application_interception \<Rightarrow> ipt_rule list" where
  "ipt_filter_rules s family interception =
     map ownership_rule owned_chains
     @ ipt_append_input_chain s family interception
     @ ipt_append_output_chain s family interception
     @ ipt_append_application_chains s interception
     @ ipt_append_forward_chain (sn_mode s)"

definition ipt_program :: "ipt_table \<Rightarrow> ipt_chain list \<Rightarrow> ipt_rule list \<Rightarrow> ipt_line list" where
  "ipt_program table owned rules =
     LTable table # map LFlush owned @ map LAppend rules @ [LCommit]"

definition compile_family ::
    "snapshot \<Rightarrow> ip_family \<Rightarrow> application_interception \<Rightarrow> ipt_line list" where
  "compile_family s family interception =
     (let mangle = ipt_program TableMangle owned_mangle_chains (ipt_mangle_rules s family);
          filt = ipt_program TableFilter owned_chains (ipt_filter_rules s family interception)
      in if sn_mode s = BlockAll then filt @ mangle else mangle @ filt)"

section \<open>Text\<close>

fun ipt_chain_text :: "ipt_chain \<Rightarrow> ustring" where
  "ipt_chain_text ChainIn = ascii ''OPENSHIELD_IN''"
| "ipt_chain_text ChainOut = ascii ''OPENSHIELD_OUT''"
| "ipt_chain_text ChainForward = ascii ''OPENSHIELD_FWD''"
| "ipt_chain_text ChainAppTcp = ascii ''OPENSHIELD_APP_TCP''"
| "ipt_chain_text ChainAppPacket = ascii ''OPENSHIELD_APP_PKT''"
| "ipt_chain_text ChainMark = ascii ''OPENSHIELD_MARK''"
| "ipt_chain_text ChainObserve = ascii ''OPENSHIELD_OBSERVE''"

fun ipt_state_text :: "ct_state \<Rightarrow> ustring" where
  "ipt_state_text CtNew = ascii ''NEW''"
| "ipt_state_text CtEstablished = ascii ''ESTABLISHED''"
| "ipt_state_text CtRelated = ascii ''RELATED''"
| "ipt_state_text CtInvalid = ascii ''INVALID''"
| "ipt_state_text CtUntracked = ascii ''UNTRACKED''"

fun ipt_protocol_text :: "ip_protocol \<Rightarrow> ustring" where
  "ipt_protocol_text ProtoTcp = ascii ''tcp''"
| "ipt_protocol_text ProtoUdp = ascii ''udp''"
| "ipt_protocol_text ProtoIcmp = ascii ''icmp''"
| "ipt_protocol_text ProtoIcmpV6 = ascii ''ipv6-icmp''"

fun ipt_flag_text :: "tcp_flag \<Rightarrow> ustring" where
  "ipt_flag_text FlagFin = ascii ''FIN''"
| "ipt_flag_text FlagSyn = ascii ''SYN''"
| "ipt_flag_text FlagRst = ascii ''RST''"
| "ipt_flag_text FlagAck = ascii ''ACK''"

definition ipt_flags_text :: "tcp_flag list \<Rightarrow> ustring" where
  "ipt_flags_text fs =
     (if fs = [] then ascii ''NONE'' else join_with (ascii '','') (map ipt_flag_text fs))"

fun ipt_source_type_text :: "scope \<Rightarrow> ustring" where
  "ipt_source_type_text UnspecifiedV6 = ascii ''UNSPEC''"
| "ipt_source_type_text MulticastV6 = ascii ''MULTICAST''"
| "ipt_source_type_text sc = scope_text sc"

fun ipt_scope_text :: "scope \<Rightarrow> ustring" where
  "ipt_scope_text BroadcastV4 = ascii ''255.255.255.255/32''"
| "ipt_scope_text sc = scope_text sc"

definition ipt_masked :: "u32 \<Rightarrow> u32 \<Rightarrow> ustring" where
  "ipt_masked v bits = hex_literal v @ ascii ''/'' @ hex_literal bits"

text \<open>A host prefix is printed as its address in \<open>--ctorigdst\<close>.\<close>

fun original_destination ::
    "(ip_net \<Rightarrow> ustring) \<Rightarrow> ip_net \<Rightarrow> ustring" where
  "original_destination show_net (NetV4 a n) =
     (if n = 32 then display_ip (IpV4 a) else show_net (NetV4 a n))"
| "original_destination show_net (NetV6 a n) =
     (if n = 128 then display_ip (IpV6 a) else show_net (NetV6 a n))"

fun ipt_icmp_text :: "ip_protocol \<Rightarrow> ustring" where
  "ipt_icmp_text ProtoIcmpV6 = ascii ''-m icmp6 --icmpv6-type ''"
| "ipt_icmp_text _ = ascii ''-m icmp --icmp-type ''"

fun ipt_match_text ::
    "(ip_net \<Rightarrow> ustring) \<Rightarrow> ipt_match \<Rightarrow> ustring" where
  "ipt_match_text show_net (MSource n) = ascii ''-s '' @ show_net n"
| "ipt_match_text show_net (MDestination n) = ascii ''-d '' @ show_net n"
| "ipt_match_text show_net (MSourceScope sc) = ascii ''-s '' @ ipt_scope_text sc"
| "ipt_match_text show_net (MDestinationScope sc) = ascii ''-d '' @ ipt_scope_text sc"
| "ipt_match_text show_net (MInInterface i) = ascii ''-i '' @ i"
| "ipt_match_text show_net (MOutInterface i) = ascii ''-o '' @ i"
| "ipt_match_text show_net (MProtocol k) = ascii ''-p '' @ ipt_protocol_text k"
| "ipt_match_text show_net (MNotProtocol k) = ascii ''! -p '' @ ipt_protocol_text k"
| "ipt_match_text show_net (MConntrack states dst ports dir) =
     ascii ''-m conntrack''
     @ (if states = [] then []
        else ascii '' --ctstate '' @ join_with (ascii '','') (map ipt_state_text states))
     @ (case dst of None \<Rightarrow> []
        | Some n \<Rightarrow> ascii '' --ctorigdst '' @ original_destination show_net n)
     @ (case ports of None \<Rightarrow> []
        | Some r \<Rightarrow> ascii '' --ctorigdstport '' @ range_text (ascii '':'') r)
     @ (case dir of None \<Rightarrow> []
        | Some CtOriginal \<Rightarrow> ascii '' --ctdir ORIGINAL''
        | Some CtReply \<Rightarrow> ascii '' --ctdir REPLY'')"
| "ipt_match_text show_net (MSourcePort _ r) =
     ascii ''--sport '' @ range_text (ascii '':'') r"
| "ipt_match_text show_net (MDestinationPort _ r) =
     ascii ''--dport '' @ range_text (ascii '':'') r"
| "ipt_match_text show_net (MUdpPorts s d) =
     ascii ''-m udp --sport '' @ dec_string (unat s) @ ascii '' --dport '' @ dec_string (unat d)"
| "ipt_match_text show_net (MTcpFlags among these) =
     ascii ''-m tcp --tcp-flags '' @ ipt_flags_text among @ ascii '' '' @ ipt_flags_text these"
| "ipt_match_text show_net (MIcmp k t code) =
     ipt_icmp_text k @ dec_string (unat t)
     @ (case code of None \<Rightarrow> [] | Some c \<Rightarrow> ascii ''/'' @ dec_string (unat c))"
| "ipt_match_text show_net (MSourceTypeNot scs) =
     ascii ''-m addrtype ! --src-type ''
     @ join_with (ascii '','') (map ipt_source_type_text scs)"
| "ipt_match_text show_net (MHopLimit h) = ascii ''-m hl --hl-eq '' @ dec_string (unat h)"
| "ipt_match_text show_net (MMark v bits) = ascii ''-m mark --mark '' @ ipt_masked v bits"
| "ipt_match_text show_net (MMarkNot v bits) =
     ascii ''-m mark ! --mark '' @ ipt_masked v bits"
| "ipt_match_text show_net (MConnmark v bits) =
     ascii ''-m connmark --mark '' @ ipt_masked v bits"
| "ipt_match_text show_net MLimit = ascii ''-m limit --limit 64/sec --limit-burst 32''"
| "ipt_match_text show_net (MComment t) = ascii ''-m comment --comment '' @ t"

fun ipt_target_text :: "ipt_target \<Rightarrow> ustring list" where
  "ipt_target_text TReturn = [ascii ''-j RETURN'']"
| "ipt_target_text TDrop = [ascii ''-j DROP'']"
| "ipt_target_text TRejectTcpReset = [ascii ''-j REJECT --reject-with tcp-reset'']"
| "ipt_target_text (TRejectUnreachable Ipv4) =
     [ascii ''-j REJECT --reject-with icmp-port-unreachable'']"
| "ipt_target_text (TRejectUnreachable Ipv6) =
     [ascii ''-j REJECT --reject-with icmp6-port-unreachable'']"
| "ipt_target_text (TMark v bits) = [ascii ''-j MARK --set-xmark '' @ ipt_masked v bits]"
| "ipt_target_text (TConnmark v bits) = [ascii ''-j CONNMARK --set-xmark '' @ ipt_masked v bits]"
| "ipt_target_text (TQueue n) = [ascii ''-j NFQUEUE --queue-num '' @ dec_string (unat n)]"
| "ipt_target_text (TQueueBypass n) =
     [ascii ''-j NFQUEUE --queue-num '' @ dec_string (unat n) @ ascii '' --queue-bypass'']"
| "ipt_target_text (TGoto c) = [ascii ''-g '' @ ipt_chain_text c]"
| "ipt_target_text TNone = []"

fun ipt_line_text ::
    "(ip_net \<Rightarrow> ustring) \<Rightarrow> ipt_line \<Rightarrow> ustring" where
  "ipt_line_text show_net (LTable TableMangle) = ascii ''*mangle''"
| "ipt_line_text show_net (LTable TableFilter) = ascii ''*filter''"
| "ipt_line_text show_net (LFlush c) = ascii ''-F '' @ ipt_chain_text c"
| "ipt_line_text show_net (LAppend r) =
     join_with (ascii '' '')
       ([ascii ''-A '' @ ipt_chain_text (ir_chain r)]
        @ map (ipt_match_text show_net) (ir_matches r) @ ipt_target_text (ir_target r))"
| "ipt_line_text show_net LCommit = ascii ''COMMIT''"

definition ipt_render ::
    "(ip_net \<Rightarrow> ustring) \<Rightarrow> ipt_line list \<Rightarrow> ustring" where
  "ipt_render show_net ls =
     concat (map (\<lambda>l. ipt_line_text show_net l @ [0x0A]) ls)"

record iptables_policy =
  ip_ipv4 :: ustring
  ip_ipv6 :: ustring

definition ipt_compile ::
    "(ip_net \<Rightarrow> ustring) \<Rightarrow> snapshot
     \<Rightarrow> compile_error + iptables_policy" where
  "ipt_compile show_net s =
     bindE (map_err InvalidState (snapshot_validate s))
       (\<lambda>_. let interception = snapshot_application_interception s
            in Inr \<lparr>ip_ipv4 = ipt_render show_net (compile_family s Ipv4 interception),
                    ip_ipv6 = ipt_render show_net (compile_family s Ipv6 interception)\<rparr>)"

section \<open>Restoring a program\<close>

type_synonym ipt_chains = "ipt_chain \<Rightarrow> ipt_rule list"

fun restore_line :: "ipt_line \<Rightarrow> ipt_chains \<Rightarrow> ipt_chains" where
  "restore_line (LFlush c) cs = cs(c := [])"
| "restore_line (LAppend r) cs = cs(ir_chain r := cs (ir_chain r) @ [r])"
| "restore_line _ cs = cs"

definition ipt_restore :: "ipt_line list \<Rightarrow> ipt_chains \<Rightarrow> ipt_chains" where
  "ipt_restore ls cs = fold restore_line ls cs"

section \<open>Running the chains\<close>

fun port_criterion :: "ip_protocol option \<Rightarrow> (ip_protocol \<Rightarrow> port_range \<Rightarrow> criterion)
    \<Rightarrow> port_range \<Rightarrow> criterion" where
  "port_criterion (Some ProtoTcp) mk r = mk ProtoTcp r"
| "port_criterion (Some ProtoUdp) mk r = mk ProtoUdp r"
| "port_criterion _ mk r = StrayPort r"

fun match_criteria :: "ipt_match \<Rightarrow> criterion list" where
  "match_criteria (MSource n) = [SrcNet n]"
| "match_criteria (MDestination n) = [DstNet n]"
| "match_criteria (MSourceScope sc) = [SrcScope sc]"
| "match_criteria (MDestinationScope sc) = [DstScope sc]"
| "match_criteria (MInInterface i) = [IifName i]"
| "match_criteria (MOutInterface i) = [OifName i]"
| "match_criteria (MProtocol k) = [L4Proto k]"
| "match_criteria (MNotProtocol k) = [L4ProtoNot k]"
| "match_criteria (MConntrack states dst ports dir) =
     (if states = [] then [] else [CtState states])
     @ (case dst of None \<Rightarrow> [] | Some n \<Rightarrow> [OriginalDst n])
     @ (case ports of None \<Rightarrow> [] | Some r \<Rightarrow> [OriginalDstPort r])
     @ (case dir of None \<Rightarrow> [] | Some d \<Rightarrow> [CtDirection d])"
| "match_criteria (MSourcePort k r) = [port_criterion k SrcPort r]"
| "match_criteria (MDestinationPort k r) = [port_criterion k DstPort r]"
| "match_criteria (MUdpPorts s d) =
     [SrcPort ProtoUdp (one_port s), DstPort ProtoUdp (one_port d)]"
| "match_criteria (MTcpFlags among these) = [TcpFlags among these]"
| "match_criteria (MIcmp k t code) =
     IcmpType k (LabelNumber t)
     # (case code of None \<Rightarrow> [] | Some c \<Rightarrow> [IcmpCode k (LabelNumber c)])"
| "match_criteria (MSourceTypeNot scs) = map SrcNotScope scs"
| "match_criteria (MHopLimit h) = [HopLimit h]"
| "match_criteria (MMark v bits) = [PacketMark bits v]"
| "match_criteria (MMarkNot v bits) = [PacketMarkNot bits v]"
| "match_criteria (MConnmark v bits) = [ConnMark bits v]"
| "match_criteria MLimit = [RateLimit]"
| "match_criteria (MComment t) = []"

definition ipt_holds :: "bool \<Rightarrow> packet \<Rightarrow> marks \<Rightarrow> ipt_match list \<Rightarrow> bool" where
  "ipt_holds lim p m ms = list_all (\<lambda>c. hold_all lim p m (match_criteria c)) ms"

definition set_xmark :: "u32 \<Rightarrow> u32 \<Rightarrow> u32 \<Rightarrow> u32" where
  "set_xmark v bits x = (x AND NOT bits) XOR v"

datatype ipt_outcome = IptReturn | IptDrop | IptReject | IptQueue u16 bool

text \<open>
  The rules of a chain in order, up to the first verdict.  A goto continues in the other chain,
  whose return is a return of this one (\<open>jump\<close>).
\<close>

fun run_ipt ::
    "(ipt_chain \<Rightarrow> marks \<Rightarrow> ipt_outcome \<times> marks) \<Rightarrow> bool \<Rightarrow> packet \<Rightarrow> ipt_rule list \<Rightarrow> marks
     \<Rightarrow> ipt_outcome option \<times> marks" where
  "run_ipt jump lim p [] m = (None, m)"
| "run_ipt jump lim p (r # rs) m =
     (if \<not> ipt_holds lim p m (ir_matches r) then run_ipt jump lim p rs m
      else
        (case ir_target r of
           TReturn \<Rightarrow> (Some IptReturn, m)
         | TDrop \<Rightarrow> (Some IptDrop, m)
         | TRejectTcpReset \<Rightarrow> (Some IptReject, m)
         | TRejectUnreachable _ \<Rightarrow> (Some IptReject, m)
         | TMark v bits \<Rightarrow>
             run_ipt jump lim p rs (m\<lparr>mk_packet := set_xmark v bits (mk_packet m)\<rparr>)
         | TConnmark v bits \<Rightarrow>
             run_ipt jump lim p rs
               (set_connection_mark p (set_xmark v bits (mk_connection m)) m)
         | TQueue n \<Rightarrow> (Some (IptQueue n False), m)
         | TQueueBypass n \<Rightarrow> (Some (IptQueue n True), m)
         | TGoto c \<Rightarrow> (case jump c m of (v, m') \<Rightarrow> (Some v, m'))
         | TNone \<Rightarrow> run_ipt jump lim p rs m))"

text \<open>
  The end of a chain returns to its caller.  No generated chain is entered by two gotos in a row, so
  a depth of two is enough.
\<close>

primrec run_ipt_chain ::
    "nat \<Rightarrow> ipt_chains \<Rightarrow> bool \<Rightarrow> packet \<Rightarrow> ipt_chain \<Rightarrow> marks \<Rightarrow> ipt_outcome \<times> marks" where
  "run_ipt_chain 0 cs lim p c m = (IptDrop, m)"
| "run_ipt_chain (Suc depth) cs lim p c m =
     (case run_ipt (\<lambda>c' m'. run_ipt_chain depth cs lim p c' m') lim p (cs c) m of
        (Some v, m') \<Rightarrow> (v, m')
      | (None, m') \<Rightarrow> (IptReturn, m'))"

fun run_ipt_table ::
    "ipt_chains \<Rightarrow> bool \<Rightarrow> packet \<Rightarrow> ipt_chain list \<Rightarrow> marks \<Rightarrow> ipt_outcome \<times> marks" where
  "run_ipt_table cs lim p [] m = (IptReturn, m)"
| "run_ipt_table cs lim p (c # rest) m =
     (case run_ipt_chain 2 cs lim p c m of
        (IptReturn, m') \<Rightarrow> run_ipt_table cs lim p rest m'
      | other \<Rightarrow> other)"

text \<open>
  The dispatchers of \<open>src/crates/openshield-daemon/src/backend.rs\<close>: in the output hook the mangle
  table enters the sanitiser first and the observer last, and the filter table follows.
\<close>

fun ipt_dispatch :: "nft_hook \<Rightarrow> ipt_chain list list" where
  "ipt_dispatch HookInput = [[ChainIn]]"
| "ipt_dispatch HookOutput = [[ChainMark, ChainObserve], [ChainOut]]"
| "ipt_dispatch HookForward = [[ChainForward]]"

fun ipt_traverse ::
    "nat \<Rightarrow> queue_consumer \<Rightarrow> ipt_chains \<Rightarrow> bool \<Rightarrow> packet \<Rightarrow> ipt_chain list list \<Rightarrow> marks
     \<Rightarrow> hook_verdict \<times> marks" where
  "ipt_traverse fuel consume cs lim p [] m = (Passed, m)"
| "ipt_traverse 0 consume cs lim p (t # ts) m = (Unfinished, m)"
| "ipt_traverse (Suc fuel) consume cs lim p (t # ts) m =
     (case run_ipt_table cs lim p t m of
        (IptReturn, m') \<Rightarrow> ipt_traverse fuel consume cs lim p ts m'
      | (IptDrop, m') \<Rightarrow> (Discarded, m')
      | (IptReject, m') \<Rightarrow> (Refused, m')
      | (IptQueue n bypass, m') \<Rightarrow>
          (case consume n p m' of
             QueueAbsent \<Rightarrow>
               if bypass then ipt_traverse fuel consume cs lim p ts m' else (Discarded, m')
           | QueueDrop \<Rightarrow> (Discarded, m')
           | QueueAccept v \<Rightarrow> ipt_traverse fuel consume cs lim p ts (m'\<lparr>mk_packet := v\<rparr>)
           | QueueRepeat v \<Rightarrow> ipt_traverse fuel consume cs lim p (t # ts) (m'\<lparr>mk_packet := v\<rparr>)))"

definition ipt_hook_run ::
    "nat \<Rightarrow> queue_consumer \<Rightarrow> bool \<Rightarrow> ipt_chains \<Rightarrow> nft_hook \<Rightarrow> packet \<Rightarrow> marks
     \<Rightarrow> hook_verdict \<times> marks" where
  "ipt_hook_run fuel consume lim cs h p m = ipt_traverse fuel consume cs lim p (ipt_dispatch h) m"

definition ipt_chains_of :: "snapshot \<Rightarrow> ip_family \<Rightarrow> ipt_chains \<Rightarrow> ipt_chains" where
  "ipt_chains_of s family =
     ipt_restore (compile_family s family (snapshot_application_interception s))"

end
