(* ===== verification/Filter_Policy.thy ===== *)
theory Filter_Policy
  imports Nftables
begin

text \<open>
  What a policy means for a packet, stated once for both firewall back ends: which packets its
  network rules refuse, admit and answer, and the fixed exceptions of an active policy.
\<close>

unbundle bit_operations_syntax

section \<open>Rules\<close>

definition network_rules :: "snapshot \<Rightarrow> direction \<Rightarrow> rule_action list \<Rightarrow> rule_spec set" where
  "network_rules s dir actions =
     {spec \<in> rule_spec ` set (sn_rules s).
        spec_enabled spec \<and> spec_direction spec = dir \<and> spec_application spec = None
        \<and> spec_action spec \<in> set actions}"

definition denies :: "snapshot \<Rightarrow> packet \<Rightarrow> bool" where
  "denies s p \<longleftrightarrow> (\<exists>spec \<in> network_rules s Outbound [Drop, Reject]. rule_selects spec Outbound False p)"

definition admits :: "snapshot \<Rightarrow> direction \<Rightarrow> packet \<Rightarrow> bool" where
  "admits s dir p \<longleftrightarrow> (\<exists>spec \<in> network_rules s dir [Accept]. rule_selects spec dir False p)"

fun opposite :: "direction \<Rightarrow> direction" where
  "opposite Inbound = Outbound"
| "opposite Outbound = Inbound"

definition answers :: "snapshot \<Rightarrow> direction \<Rightarrow> packet \<Rightarrow> bool" where
  "answers s dir p \<longleftrightarrow>
     (\<exists>spec \<in> network_rules s (opposite dir) [Accept]. rule_selects spec dir True p)"

definition application_specs :: "snapshot \<Rightarrow> rule_action list \<Rightarrow> rule_spec set" where
  "application_specs s actions = rule_spec ` set (application_rules s actions)"

definition concerns_application :: "snapshot \<Rightarrow> rule_action list \<Rightarrow> packet \<Rightarrow> bool" where
  "concerns_application s actions p \<longleftrightarrow>
     (\<exists>spec \<in> application_specs s actions. rule_selects spec Outbound False p)"

section \<open>Fixed exceptions\<close>

definition in_direction :: "ct_direction \<Rightarrow> packet \<Rightarrow> bool" where
  "in_direction d p \<longleftrightarrow> is_some_and (pk_conntrack p) (\<lambda>c. ck_direction c = d)"

fun refusal_payload :: "ip_family \<Rightarrow> payload \<Rightarrow> bool" where
  "refusal_payload f (TcpSegment _ _ fs) \<longleftrightarrow> FlagRst \<in> set fs"
| "refusal_payload f (IcmpMessage t c) \<longleftrightarrow> f = Ipv4 \<and> t = 3 \<and> c = 3"
| "refusal_payload f (IcmpV6Message t c) \<longleftrightarrow> f = Ipv6 \<and> t = 1 \<and> c = 4"
| "refusal_payload f _ \<longleftrightarrow> False"

text \<open>
  The error a reject rule makes the kernel send: related to the rejected connection, in its reply
  direction, and carrying the mark of the current generation.
\<close>

definition refusal_notice :: "snapshot \<Rightarrow> packet \<Rightarrow> marks \<Rightarrow> bool" where
  "refusal_notice s p m \<longleftrightarrow>
     has_enabled_outbound_reject s \<and> pk_ct_state p = CtRelated \<and> in_direction CtReply p
     \<and> refusal_payload (family_of (pk_src p)) (pk_payload p)
     \<and> mk_connection m AND APPLICATION_CONNMARK_MASK
       = application_reject_connmark (sn_flow_generation s)"

fun dhcp_payload :: "u16 \<Rightarrow> u16 \<Rightarrow> payload \<Rightarrow> bool" where
  "dhcp_payload src dst (UdpDatagram s d) \<longleftrightarrow> s = src \<and> d = dst"
| "dhcp_payload src dst _ \<longleftrightarrow> False"

definition dhcp_offer :: "packet \<Rightarrow> bool" where
  "dhcp_offer p \<longleftrightarrow>
     (family_of (pk_src p) = Ipv6 \<and> net_member (scope_net LinkLocalV6) (pk_src p)
        \<and> dhcp_payload 547 546 (pk_payload p))
     \<or> (family_of (pk_src p) = Ipv4 \<and> net_member (scope_net BroadcastV4) (pk_dst p)
        \<and> dhcp_payload 67 68 (pk_payload p))"

definition ipv6_source_is :: "scope \<Rightarrow> packet \<Rightarrow> bool" where
  "ipv6_source_is sc p \<longleftrightarrow> net_member (scope_net sc) (pk_src p)"

text \<open>
  The ICMPv6 a host cannot do without: errors of its own connections, and the neighbour,
  router and multicast messages that cannot have crossed a router.
\<close>

definition control_plane_message :: "packet \<Rightarrow> u8 \<Rightarrow> u8 \<Rightarrow> bool" where
  "control_plane_message p t c \<longleftrightarrow>
     (let unicast = \<not> ipv6_source_is UnspecifiedV6 p \<and> \<not> ipv6_source_is MulticastV6 p;
          local = (pk_hop_limit p = 255)
      in (pk_ct_state p = CtRelated \<and> unicast
            \<and> (t = 1 \<or> (t = 2 \<and> c = 0) \<or> (t = 3 \<and> c = 0) \<or> (t = 4 \<and> (c = 1 \<or> c = 2))))
         \<or> (t = 134 \<and> c = 0 \<and> local \<and> ipv6_source_is LinkLocalV6 p)
         \<or> (t = 135 \<and> c = 0 \<and> local \<and> \<not> ipv6_source_is MulticastV6 p)
         \<or> (t = 136 \<and> c = 0 \<and> local \<and> unicast)
         \<or> (t = 130 \<and> c = 0 \<and> pk_hop_limit p = 1 \<and> ipv6_source_is LinkLocalV6 p
            \<and> net_member (scope_net LinkMulticastV6) (pk_dst p)))"

definition control_plane :: "packet \<Rightarrow> bool" where
  "control_plane p \<longleftrightarrow>
     family_of (pk_src p) = Ipv6
     \<and> (case pk_payload p of IcmpV6Message t c \<Rightarrow> control_plane_message p t c | _ \<Rightarrow> False)"

section \<open>Verdicts of a network policy\<close>

definition outbound_allowed :: "snapshot \<Rightarrow> packet \<Rightarrow> marks \<Rightarrow> bool" where
  "outbound_allowed s p m \<longleftrightarrow>
     refusal_notice s p m
     \<or> (pk_ct_state p \<noteq> CtInvalid \<and> \<not> denies s p \<and> (answers s Outbound p \<or> admits s Outbound p))"

definition inbound_allowed :: "snapshot \<Rightarrow> packet \<Rightarrow> marks \<Rightarrow> bool" where
  "inbound_allowed s p m \<longleftrightarrow>
     refusal_notice s p m \<or> dhcp_offer p
     \<or> (pk_ct_state p \<noteq> CtInvalid
        \<and> (control_plane p \<or> admits s Inbound p \<or> answers s Inbound p))"

section \<open>Packets of an authorised application flow\<close>

definition flow_marked :: "snapshot \<Rightarrow> packet \<Rightarrow> marks \<Rightarrow> bool" where
  "flow_marked s p m \<longleftrightarrow>
     pk_conntrack p \<noteq> None
     \<and> mk_connection m AND APPLICATION_CONNMARK_MASK = application_flow_mark (sn_flow_generation s)"

definition intercepted :: "application_interception \<Rightarrow> packet \<Rightarrow> bool" where
  "intercepted interception p \<longleftrightarrow>
     (case interception of
        InterceptNone \<Rightarrow> False
      | TcpInitial \<Rightarrow> protocol_selects Tcp p
      | PerPacket \<Rightarrow> list_ex (\<lambda>k. protocol_selects k p) [Tcp, Udp, Icmp, IcmpV6])"

definition flow_reply :: "snapshot \<Rightarrow> packet \<Rightarrow> marks \<Rightarrow> bool" where
  "flow_reply s p m \<longleftrightarrow>
     intercepted (snapshot_application_interception s) p \<and> flow_marked s p m
     \<and> (reply_of_established p
        \<or> (pk_iif p = ascii ''lo'' \<and> in_direction CtOriginal p
           \<and> pk_ct_state p \<in> {CtNew, CtEstablished}))"

definition flow_continues :: "snapshot \<Rightarrow> packet \<Rightarrow> marks \<Rightarrow> bool" where
  "flow_continues s p m \<longleftrightarrow>
     snapshot_application_interception s \<noteq> InterceptNone
     \<and> flow_marked s p m \<and> pk_ct_state p = CtEstablished
     \<and> ((protocol_selects Tcp p \<and> in_direction CtOriginal p)
        \<or> (intercepted (snapshot_application_interception s) p
           \<and> pk_oif p = ascii ''lo'' \<and> in_direction CtReply p))"

section \<open>Facts\<close>

lemma direct_rules_specs:
  "rule_spec ` set (direct_rules s dir actions) = network_rules s dir actions"
  by (auto simp: direct_rules_def network_rules_def)

lemma reverse_rules_specs:
  "rule_spec ` set (reverse_rules s dir) = network_rules s (opposite dir) [Accept]"
  by (cases dir) (auto simp: reverse_rules_def network_rules_def intro!: image_eqI, (metis direction.exhaust)+)

lemma enforcing_application:
  "classify_enforcing i rules = InterceptNone \<longleftrightarrow>
     i = InterceptNone
     \<and> (\<forall>r \<in> set rules. \<not> (spec_enabled (rule_spec r) \<and> spec_direction (rule_spec r) = Outbound
                           \<and> spec_application (rule_spec r) \<noteq> None))"
  by (induction i rules rule: classify_enforcing.induct) (auto split: transport_protocol.splits)

lemma no_interception:
  assumes "snapshot_application_interception s = InterceptNone" "sn_mode s = Enforcing"
  shows "application_rules s actions = []"
  using assms
  by (auto simp: snapshot_application_interception_def classify_application_interception_def
      enforcing_application application_rules_def filter_empty_conv)

lemma interception_by_mode:
  "sn_mode s = BlockAll \<Longrightarrow> snapshot_application_interception s = InterceptNone"
  "sn_mode s = Learning \<Longrightarrow> snapshot_application_interception s = PerPacket"
  by (simp_all add: snapshot_application_interception_def classify_application_interception_def)

lemma denies_rules:
  "denies s p \<longleftrightarrow> (\<exists>r \<in> set (direct_rules s Outbound [Drop, Reject]). rule_selects (rule_spec r) Outbound False p)"
  unfolding denies_def direct_rules_specs [symmetric] by simp

lemma admits_rules:
  "admits s dir p \<longleftrightarrow> (\<exists>r \<in> set (direct_rules s dir [Accept]). rule_selects (rule_spec r) dir False p)"
  unfolding admits_def direct_rules_specs [symmetric] by simp

lemma answers_rules:
  "answers s dir p \<longleftrightarrow> (\<exists>r \<in> set (reverse_rules s dir). rule_selects (rule_spec r) dir True p)"
  unfolding answers_def reverse_rules_specs [symmetric] by simp

section \<open>A small policy\<close>

definition network_sample_rule ::
    "uuid \<Rightarrow> rule_action \<Rightarrow> transport_protocol \<Rightarrow> ip_net option \<Rightarrow> port_range option \<Rightarrow> rule" where
  "network_sample_rule i action protocol net port =
     \<lparr>rule_id = i,
      rule_spec = \<lparr>spec_name = RuleName (ascii ''sample''), spec_direction = Outbound,
        spec_action = action, spec_protocol = protocol, spec_peer_network = net, spec_port = port,
        spec_interface = None, spec_application = None, spec_origin = Manual, spec_enabled = True\<rparr>,
      rule_created_at = 0, rule_updated_at = 0\<rparr>"

definition sample_web :: rule where
  "sample_web = network_sample_rule 1 Accept Tcp None (Some \<lparr>pr_start = 443, pr_end = 443\<rparr>)"

definition sample_deny :: rule where
  "sample_deny = network_sample_rule 2 Drop Any (Some (NetV4 0x0a000000 8)) None"

definition sample_policy :: "mode \<Rightarrow> rule list \<Rightarrow> snapshot" where
  "sample_policy md rules =
     \<lparr>sn_revision = 1, sn_flow_generation = 1, sn_mode = md, sn_rules = rules\<rparr>"

definition sample_packet ::
    "ct_state \<Rightarrow> ct_direction \<Rightarrow> ip_addr \<Rightarrow> ip_addr \<Rightarrow> payload \<Rightarrow> packet" where
  "sample_packet st dir src dst body =
     \<lparr>pk_iif = ascii ''eth0'', pk_oif = ascii ''eth0'', pk_src = src, pk_dst = dst, pk_hop_limit = 64,
      pk_payload = body, pk_ct_state = st,
      pk_conntrack = Some \<lparr>ck_direction = dir, ck_original_dst = dst, ck_original_dport = 0\<rparr>\<rparr>"

lemmas policy_eval = denies_rules admits_rules answers_rules direct_rules_def reverse_rules_def
  concerns_application_def application_specs_def application_rules_def rule_selects_def
  reply_of_established_def in_range_def device_of_def peer_of_def refusal_notice_def

lemmas filter_sample_defs = network_sample_rule_def sample_web_def sample_deny_def sample_policy_def
  sample_packet_def

end
