(* ===== verification/Nftables_Properties.thy ===== *)
theory Nftables_Properties
  imports Filter_Policy
begin

text \<open>
  What the compiled nftables table does with a packet: running the blocks the \<open>append_*\<close> functions
  produce, and from them the verdict of each hook in each mode.
\<close>

unbundle bit_operations_syntax

section \<open>Running blocks of rules\<close>

lemma run_matches [simp]:
  "run_statements lim p (map Match cs @ ss) m =
     (if hold_all lim p m cs then run_statements lim p ss m else (None, m))"
  by (induction cs) auto

lemma run_rules_append:
  "run_rules lim p (rs @ rs') m =
     (case run_rules lim p rs m of
        (Some v, m') \<Rightarrow> (Some v, m')
      | (None, m') \<Rightarrow> run_rules lim p rs' m')"
  by (induction rs arbitrary: m) (auto split: prod.splits option.splits)

lemma uniform_block:
  assumes "\<And>r. r \<in> set rs \<Longrightarrow>
      run_statements lim p (f r) m = (if P r then (Some v, m') else (None, m))"
  shows "run_rules lim p (map f rs) m =
      (if \<exists>r \<in> set rs. P r then (Some v, m') else (None, m))"
  using assms by (induction rs) auto

lemma silent_block:
  assumes "\<And>r. r \<in> set rs \<Longrightarrow> run_statements lim p (f r) m = (None, m)"
  shows "run_rules lim p (map f rs) m = (None, m)"
  using assms by (induction rs) auto

lemma selectors_select [simp]:
  "hold_all lim p m (nft_append_rule_selectors r dir is_reply) \<longleftrightarrow>
     rule_selects (rule_spec r) dir is_reply p"
proof -
  have "hold_all lim p m (nft_protocol_selector k) \<longleftrightarrow> protocol_selects k p" for k
    by (cases k) auto
  moreover have "holds lim p m (nft_port_selector k is_reply ports) \<longleftrightarrow> port_selects k is_reply ports p"
    for k ports
    by (cases k; cases is_reply) (auto simp: is_some_and_def split: option.splits)
  ultimately show ?thesis
    by (auto simp: nft_append_rule_selectors_def rule_selects_def reply_of_established_def
        peer_of_def device_of_def is_none_or_def is_some_and_def
        split: option.splits direction.splits)
qed

definition handed_off :: "marks \<Rightarrow> marks" where
  "handed_off m = m\<lparr>mk_packet :=
     (mk_packet m AND APPLICATION_MARK_PAYLOAD_MASK) OR APPLICATION_HANDOFF_DOMAIN\<rparr>"

definition handed_over :: "direction \<Rightarrow> marks \<Rightarrow> marks" where
  "handed_over dir m = (if dir = Outbound then handed_off m else m)"

lemma run_handoff [simp]:
  "run_statements lim p (handoff_outbound dir @ ss) m = run_statements lim p ss (handed_over dir m)"
  by (simp add: handoff_outbound_def handed_over_def handed_off_def)

lemma run_reject_replies:
  "run_rules lim p (nft_append_generated_reject_reply_accept dir counter
       (application_reject_connmark (sn_flow_generation s))) m =
     (if pk_ct_state p = CtRelated \<and> in_direction CtReply p
         \<and> refusal_payload (family_of (pk_src p)) (pk_payload p)
         \<and> mk_connection m AND APPLICATION_CONNMARK_MASK
           = application_reject_connmark (sn_flow_generation s)
      then (Some NftAccept, handed_over dir m) else (None, m))"
proof -
  let ?mark = "ConnMark APPLICATION_CONNMARK_MASK (application_reject_connmark (sn_flow_generation s))"
  have "run_rules lim p (nft_append_generated_reject_reply_accept dir counter
         (application_reject_connmark (sn_flow_generation s))) m =
      (if \<exists>sel \<in> set nft_reject_reply_selectors. hold_all lim p m sel \<and> holds lim p m ?mark
       then (Some NftAccept, handed_over dir m) else (None, m))"
    unfolding nft_append_generated_reject_reply_accept_def by (rule uniform_block) simp
  also have "(\<exists>sel \<in> set nft_reject_reply_selectors. hold_all lim p m sel) \<longleftrightarrow>
      pk_ct_state p = CtRelated \<and> in_direction CtReply p
      \<and> refusal_payload (family_of (pk_src p)) (pk_payload p)"
    by (cases "pk_payload p")
      (auto simp: nft_reject_reply_selectors_def in_direction_def is_some_and_def split: option.splits)
  then have "(\<exists>sel \<in> set nft_reject_reply_selectors. hold_all lim p m sel \<and> holds lim p m ?mark) \<longleftrightarrow>
      pk_ct_state p = CtRelated \<and> in_direction CtReply p
      \<and> refusal_payload (family_of (pk_src p)) (pk_payload p)
      \<and> mk_connection m AND APPLICATION_CONNMARK_MASK
        = application_reject_connmark (sn_flow_generation s)"
    by (auto simp: in_direction_def is_some_and_def split: option.splits)
  finally show ?thesis .
qed

lemma run_optional_reject_replies:
  "run_rules lim p (if has_enabled_outbound_reject s
       then nft_append_generated_reject_reply_accept dir counter
              (application_reject_connmark (sn_flow_generation s)) else []) m =
     (if refusal_notice s p m then (Some NftAccept, handed_over dir m) else (None, m))"
  by (simp add: run_reject_replies refusal_notice_def)

lemma run_reverse_rules:
  assumes "sn_mode s \<noteq> Learning"
  shows "run_rules lim p (nft_append_reverse_rules s dir counter) m =
     (if answers s dir p then (Some NftAccept, handed_over dir m) else (None, m))"
proof -
  have "run_rules lim p (nft_append_reverse_rules s dir counter) m =
      (if \<exists>r \<in> set (sort_key rule_id (reverse_rules s dir)). rule_selects (rule_spec r) dir True p
       then (Some NftAccept, handed_over dir m) else (None, m))"
    unfolding nft_append_reverse_rules_def nft_append_rule_verdict_def
    by (rule uniform_block) (use assms in \<open>simp add: handed_over_def handed_off_def\<close>)
  then show ?thesis by (simp add: answers_rules)
qed

lemma run_accept_rules:
  assumes "sn_mode s \<noteq> Learning"
  shows "run_rules lim p (nft_append_direct_rules s dir [Accept] counter) m =
     (if admits s dir p then (Some NftAccept, handed_over dir m) else (None, m))"
proof -
  have "run_rules lim p (nft_append_direct_rules s dir [Accept] counter) m =
      (if \<exists>r \<in> set (sort_key nft_order (direct_rules s dir [Accept])).
            rule_selects (rule_spec r) dir False p
       then (Some NftAccept, handed_over dir m) else (None, m))"
    unfolding nft_append_direct_rules_def nft_append_rule_verdict_def
    by (rule uniform_block)
      (use assms in \<open>auto simp: handed_over_def handed_off_def direct_rules_def\<close>)
  then show ?thesis by (simp add: admits_rules)
qed

lemma run_deny_rules:
  "(\<not> denies s p \<longrightarrow>
      run_rules lim p (nft_append_direct_rules s Outbound [Drop, Reject] counter) m = (None, m))
   \<and> (denies s p \<longrightarrow>
      fst (run_rules lim p (nft_append_direct_rules s Outbound [Drop, Reject] counter) m)
        \<in> {Some NftDrop, Some NftReject})"
proof -
  have "(\<not> (\<exists>r \<in> set rs. rule_selects (rule_spec r) Outbound False p) \<longrightarrow>
           run_rules lim p (map (\<lambda>r. nft_append_rule_verdict r Outbound False counter
             (spec_action (rule_spec r)) h c) rs) m = (None, m))
      \<and> ((\<exists>r \<in> set rs. rule_selects (rule_spec r) Outbound False p) \<longrightarrow>
           fst (run_rules lim p (map (\<lambda>r. nft_append_rule_verdict r Outbound False counter
             (spec_action (rule_spec r)) h c) rs) m) \<in> {Some NftDrop, Some NftReject})"
    if "\<forall>r \<in> set rs. spec_action (rule_spec r) \<in> {Drop, Reject}" for rs h c
    using that by (induction rs) (auto simp: nft_append_rule_verdict_def)
  from this [of "sort_key nft_order (direct_rules s Outbound [Drop, Reject])"
      "sn_mode s \<noteq> Learning" "application_reject_connmark (sn_flow_generation s)"]
  show ?thesis by (simp add: nft_append_direct_rules_def denies_rules) (auto simp: direct_rules_def)
qed

lemma run_counted_accepts:
  "run_rules lim p (map (counted_accept counter) selectors) m =
     (if \<exists>sel \<in> set selectors. hold_all lim p m sel then (Some NftAccept, m) else (None, m))"
  by (rule uniform_block) (simp add: counted_accept_def)

lemma one_port_range [simp]: "in_range (one_port n) q \<longleftrightarrow> q = n"
  by (auto simp: in_range_def one_port_def)

lemma run_dhcp:
  "run_rules lim p (nft_append_dhcp_bootstrap_accepts counter) m =
     (if dhcp_offer p then (Some NftAccept, m) else (None, m))"
proof -
  have "(\<exists>sel \<in> set nft_dhcp_selectors. hold_all lim p m sel) \<longleftrightarrow> dhcp_offer p"
    by (cases "pk_payload p") (auto simp: nft_dhcp_selectors_def dhcp_offer_def)
  then show ?thesis by (simp add: nft_append_dhcp_bootstrap_accepts_def run_counted_accepts)
qed

definition control_message :: "packet \<Rightarrow> u8 \<Rightarrow> u8 option \<Rightarrow> bool" where
  "control_message p t code \<longleftrightarrow>
     is_some_and (payload_icmp ProtoIcmpV6 (pk_payload p))
       (\<lambda>(t', c). t' = t \<and> is_none_or code (\<lambda>c'. c = c'))"

lemma ipv6_error_holds:
  "hold_all lim p m (ipv6_error t code) \<longleftrightarrow>
     family_of (pk_src p) = Ipv6 \<and> pk_ct_state p = CtRelated \<and> \<not> ipv6_source_is UnspecifiedV6 p
     \<and> \<not> ipv6_source_is MulticastV6 p \<and> control_message p t code"
  by (cases "pk_payload p"; cases code)
    (auto simp: ipv6_error_def control_message_def ipv6_source_is_def)

lemma ipv6_control_holds:
  "hold_all lim p m (ipv6_control addresses hops t) \<longleftrightarrow>
     family_of (pk_src p) = Ipv6 \<and> hold_all lim p m addresses \<and> pk_hop_limit p = hops
     \<and> control_message p t (Some 0)"
  by (cases "pk_payload p") (auto simp: ipv6_control_def control_message_def)

lemma source_scope_holds:
  "holds lim p m (SrcScope sc) \<longleftrightarrow> ipv6_source_is sc p"
  "sc \<noteq> BroadcastV4 \<Longrightarrow>
     holds lim p m (SrcNotScope sc) \<longleftrightarrow> family_of (pk_src p) = Ipv6 \<and> \<not> ipv6_source_is sc p"
  by (auto simp: ipv6_source_is_def) (cases sc; simp)+

lemma control_plane_selectors:
  "(\<exists>sel \<in> set nft_control_plane_selectors. hold_all lim p m sel) \<longleftrightarrow> control_plane p"
proof (cases "pk_payload p")
  case (IcmpV6Message t c)
  then have message: "control_message p t' code \<longleftrightarrow> t = t' \<and> is_none_or code (\<lambda>c'. c = c')" for t' code
    by (simp add: control_message_def)
  have "holds lim p m (DstScope sc) \<longleftrightarrow> net_member (scope_net sc) (pk_dst p)" for sc by simp
  then show ?thesis
    unfolding nft_control_plane_selectors_def control_plane_def control_plane_message_def Let_def
    by (simp add: IcmpV6Message ipv6_error_holds ipv6_control_holds source_scope_holds message
        del: holds.simps scope_net.simps)
      argo
qed (simp_all add: nft_control_plane_selectors_def ipv6_error_holds ipv6_control_holds
    control_message_def control_plane_def)

lemma run_control_plane:
  "run_rules lim p (nft_append_ipv6_host_control_plane_accepts counter) m =
     (if control_plane p then (Some NftAccept, m) else (None, m))"
  by (simp add: nft_append_ipv6_host_control_plane_accepts_def run_counted_accepts
      control_plane_selectors)

lemma intercepted_protocols_hold:
  "(\<exists>sel \<in> set (intercepted_protocols i). hold_all lim p m sel) \<longleftrightarrow> intercepted i p"
  by (cases i) (auto simp: intercepted_protocols_def intercepted_def
      application_reply_protocol_matches_def)

lemma flow_connmark_holds [simp]: "holds lim p m (flow_connmark s) \<longleftrightarrow> flow_marked s p m"
  by (simp add: flow_connmark_def flow_marked_def)

lemma protocol_block:
  assumes "\<And>sel. run_statements lim p (f sel) m =
      (if hold_all lim p m sel \<and> C then (Some v, m') else (None, m))"
  shows "run_rules lim p (map f (intercepted_protocols i)) m =
      (if intercepted i p \<and> C then (Some v, m') else (None, m))"
  using uniform_block [where rs = "intercepted_protocols i" and f = f
      and P = "\<lambda>sel. hold_all lim p m sel \<and> C", OF assms]
    intercepted_protocols_hold [of i lim p m] by auto

lemma run_loopback:
  assumes "sn_mode s = Enforcing"
  shows "run_rules lim p (nft_append_application_loopback_accept s dir counter i) m =
     (if intercepted i p \<and> flow_marked s p m
         \<and> (case dir of
              Inbound \<Rightarrow> pk_iif p = ascii ''lo'' \<and> in_direction CtOriginal p
                         \<and> pk_ct_state p \<in> {CtNew, CtEstablished}
            | Outbound \<Rightarrow> pk_oif p = ascii ''lo'' \<and> reply_of_established p)
      then (Some NftAccept, handed_over dir m) else (None, m))"
proof -
  have enforcing: "\<not> sn_mode s \<noteq> Enforcing" using assms by simp
  show ?thesis
    unfolding nft_append_application_loopback_accept_def if_not_P [OF enforcing]
    by (rule protocol_block)
      (cases dir; auto simp: in_direction_def reply_of_established_def)
qed

lemma inbound_flow_protocols:
  "(case (Inbound, i) of (_, InterceptNone) \<Rightarrow> []
      | (Inbound, PerPacket) \<Rightarrow> application_reply_protocol_matches
      | _ \<Rightarrow> take 1 application_reply_protocol_matches) = intercepted_protocols i"
  by (cases i) (simp_all add: intercepted_protocols_def)

lemma outbound_flow_protocols:
  "(case (Outbound, i) of (_, InterceptNone) \<Rightarrow> []
      | (Inbound, PerPacket) \<Rightarrow> application_reply_protocol_matches
      | _ \<Rightarrow> take 1 application_reply_protocol_matches)
   = intercepted_protocols (if i = InterceptNone then InterceptNone else TcpInitial)"
  by (cases i) (simp_all add: intercepted_protocols_def)

lemma run_inbound_flow:
  "run_rules lim p (nft_append_application_flow_accept s Inbound counter i) m =
     (if intercepted i p \<and> reply_of_established p \<and> flow_marked s p m
      then (Some NftAccept, m) else (None, m))"
  unfolding nft_append_application_flow_accept_def inbound_flow_protocols
  by (rule protocol_block) (auto simp: reply_of_established_def handed_over_def)

lemma run_outbound_flow:
  assumes "i \<noteq> InterceptNone"
  shows "run_rules lim p (nft_append_application_flow_accept s Outbound counter i) m =
     (if protocol_selects Tcp p \<and> in_direction CtOriginal p \<and> pk_ct_state p = CtEstablished
         \<and> flow_marked s p m
      then (Some NftAccept, handed_off m) else (None, m))"
proof -
  have "run_rules lim p (nft_append_application_flow_accept s Outbound counter i) m =
     (if intercepted (if i = InterceptNone then InterceptNone else TcpInitial) p
         \<and> in_direction CtOriginal p \<and> pk_ct_state p = CtEstablished \<and> flow_marked s p m
      then (Some NftAccept, handed_off m) else (None, m))"
    unfolding nft_append_application_flow_accept_def outbound_flow_protocols
    by (rule protocol_block) (auto simp: in_direction_def handed_over_def)
  then show ?thesis using assms by (simp add: intercepted_def)
qed

section \<open>Inbound traffic\<close>

definition reply_awaited :: "snapshot \<Rightarrow> packet \<Rightarrow> marks \<Rightarrow> bool" where
  "reply_awaited s p m \<longleftrightarrow>
     snapshot_application_interception s = PerPacket
     \<and> mk_packet m AND 0xc0000000 \<noteq> 0xc0000000
     \<and> (\<exists>r \<in> set (application_reply_candidates s).
          rule_selects (rule_spec r) Inbound True p
          \<and> hold_all True p m (echo_reply_selector (spec_protocol (rule_spec r))))"

lemma echo_reply_limit:
  "hold_all lim p m (echo_reply_selector k) = hold_all True p m (echo_reply_selector k)"
  by (cases k) auto

lemma run_reply_queues:
  "run_rules lim p (nft_append_application_reply_queues s) m =
     (if mk_packet m AND 0xc0000000 \<noteq> 0xc0000000
         \<and> (\<exists>r \<in> set (application_reply_candidates s).
              rule_selects (rule_spec r) Inbound True p
              \<and> hold_all True p m (echo_reply_selector (spec_protocol (rule_spec r))))
      then (Some (NftQueue APPLICATION_REPLY_QUEUE_NUMBER False), m) else (None, m))"
proof -
  have "run_rules lim p (nft_append_application_reply_queues s) m =
      (if \<exists>r \<in> set (application_reply_candidates s).
            rule_selects (rule_spec r) Inbound True p
            \<and> hold_all True p m (echo_reply_selector (spec_protocol (rule_spec r)))
            \<and> mk_packet m AND 0xc0000000 \<noteq> 0xc0000000
       then (Some (NftQueue APPLICATION_REPLY_QUEUE_NUMBER False), m) else (None, m))"
    unfolding nft_append_application_reply_queues_def
    by (rule uniform_block) (simp add: echo_reply_limit [of lim])
  then show ?thesis by auto
qed

lemma run_inbound_rules:
  assumes "sn_mode s = Enforcing" and i: "i = snapshot_application_interception s"
  shows "run_rules lim p (nft_inbound_rules s i) m =
     (if refusal_notice s p m \<or> dhcp_offer p then (Some NftAccept, m)
      else if pk_ct_state p = CtInvalid then (Some NftDrop, m)
      else if control_plane p \<or> flow_reply s p m \<or> admits s Inbound p \<or> answers s Inbound p
      then (Some NftAccept, m)
      else if reply_awaited s p m
      then (Some (NftQueue APPLICATION_REPLY_QUEUE_NUMBER False), m)
      else (None, m))"
proof -
  have flow: "run_rules lim p (if i \<noteq> InterceptNone
        then nft_append_application_loopback_accept s Inbound AcceptedIn i
             @ nft_append_application_flow_accept s Inbound AcceptedIn i else []) m =
      (if flow_reply s p m then (Some NftAccept, m) else (None, m))" for m
    unfolding flow_reply_def i [symmetric]
    by (simp add: run_rules_append run_loopback [OF assms(1)] run_inbound_flow handed_over_def)
      (auto simp: intercepted_def)
  have learning: "(if sn_mode s = Learning then xs else []) = []" for xs :: "nft_rule list"
    using assms by simp
  have queues: "run_rules lim p (if sn_mode s = Enforcing \<and> i = PerPacket
        then nft_append_application_reply_queues s else []) m =
      (if reply_awaited s p m then (Some (NftQueue APPLICATION_REPLY_QUEUE_NUMBER False), m)
       else (None, m))" for m
    using assms by (auto simp: run_reply_queues reply_awaited_def)
  have active: "sn_mode s \<noteq> Learning" using assms by simp
  show ?thesis
    unfolding nft_inbound_rules_def run_rules_append run_optional_reject_replies flow learning queues
      run_dhcp run_control_plane run_accept_rules [OF active] run_reverse_rules [OF active]
    by (simp add: handed_over_def)
qed

lemma run_inbound_chain:
  assumes "sn_mode s = Enforcing"
  shows "run_chain lim p (nft_append_chain s Inbound (snapshot_application_interception s)) m =
     (if inbound_allowed s p m \<or> flow_reply s p m then (NftAccept, m)
      else if pk_ct_state p \<noteq> CtInvalid \<and> reply_awaited s p m
      then (NftQueue APPLICATION_REPLY_QUEUE_NUMBER False, m)
      else (NftDrop, m))"
proof -
  have "flow_reply s p m \<longrightarrow> pk_ct_state p \<noteq> CtInvalid" "refusal_notice s p m \<longrightarrow> pk_ct_state p = CtRelated"
    by (auto simp: flow_reply_def reply_of_established_def refusal_notice_def)
  then show ?thesis
    using assms
    by (simp add: run_chain_def nft_append_chain_def run_rules_append run_inbound_rules [OF assms refl]
        inbound_allowed_def) blast
qed

section \<open>Outbound traffic\<close>

definition attributed_per_packet :: "packet \<Rightarrow> bool" where
  "attributed_per_packet p \<longleftrightarrow> list_ex (\<lambda>k. protocol_selects k p) [Udp, Icmp, IcmpV6]"

text \<open>
  The connection mark of a locally originated packet of a protocol without connections is
  forgotten before the packet is judged.
\<close>

definition forget_flow :: "snapshot \<Rightarrow> packet \<Rightarrow> marks \<Rightarrow> marks" where
  "forget_flow s p m =
     (if snapshot_application_interception s = PerPacket \<and> in_direction CtOriginal p
         \<and> attributed_per_packet p
      then m\<lparr>mk_connection := mk_connection m AND APPLICATION_CONNMARK_FOREIGN_MASK\<rparr>
      else m)"

definition in_domain :: "u32 \<Rightarrow> marks \<Rightarrow> marks" where
  "in_domain d m = m\<lparr>mk_packet := (mk_packet m AND APPLICATION_MARK_PAYLOAD_MASK) OR d\<rparr>"

definition originally_selects :: "rule_spec \<Rightarrow> packet \<Rightarrow> bool" where
  "originally_selects spec p \<longleftrightarrow>
     \<not> (spec_peer_network spec = None \<and> spec_port spec = None)
     \<and> is_none_or (spec_interface spec) (\<lambda>i. pk_oif p = interface_str i)
     \<and> protocol_selects (spec_protocol spec) p
     \<and> is_none_or (spec_peer_network spec)
         (\<lambda>n. is_some_and (pk_conntrack p) (\<lambda>c. net_member n (ck_original_dst c)))
     \<and> is_none_or (spec_port spec)
         (\<lambda>r. is_some_and (pk_conntrack p) (\<lambda>c. in_range r (ck_original_dport c)))"

definition guarded :: "snapshot \<Rightarrow> rule_action list \<Rightarrow> packet \<Rightarrow> bool" where
  "guarded s actions p \<longleftrightarrow>
     (\<exists>spec \<in> application_specs s actions.
        rule_selects spec Outbound False p \<or> originally_selects spec p)"

lemma handed_off_domain: "handed_off m = in_domain APPLICATION_HANDOFF_DOMAIN m"
  by (simp add: handed_off_def in_domain_def)

lemma non_tcp_protocols_hold:
  "(\<exists>sel \<in> set application_non_tcp_protocol_matches. hold_all lim p m sel) \<longleftrightarrow>
     attributed_per_packet p"
  by (auto simp: application_non_tcp_protocol_matches_def attributed_per_packet_def)

lemma run_connmark_reset:
  "run_rules lim p nft_append_application_non_tcp_connmark_reset m =
     (None, if in_direction CtOriginal p \<and> attributed_per_packet p
            then m\<lparr>mk_connection := mk_connection m AND APPLICATION_CONNMARK_FOREIGN_MASK\<rparr> else m)"
  by (cases "pk_payload p"; cases "pk_src p"; cases "pk_conntrack p")
    (auto simp: nft_append_application_non_tcp_connmark_reset_def attributed_per_packet_def
      application_non_tcp_protocol_matches_def in_direction_def set_connection_mark_def)

lemma run_application_queues:
  "run_rules lim p (nft_append_application_rule_queues s actions) m =
     (if in_direction CtOriginal p \<and> concerns_application s actions p
      then (Some (NftQueue APPLICATION_QUEUE_NUMBER False), in_domain APPLICATION_PENDING_DOMAIN m)
      else (None, m))"
proof -
  have "run_rules lim p (nft_append_application_rule_queues s actions) m =
      (if \<exists>r \<in> set (sort_key nft_order (application_rules s actions)).
            in_direction CtOriginal p \<and> rule_selects (rule_spec r) Outbound False p
       then (Some (NftQueue APPLICATION_QUEUE_NUMBER False), in_domain APPLICATION_PENDING_DOMAIN m)
       else (None, m))"
    unfolding nft_append_application_rule_queues_def
    by (rule uniform_block) (simp add: in_direction_def in_domain_def)
  then show ?thesis by (auto simp: concerns_application_def application_specs_def)
qed

lemma original_selectors_hold:
  "hold_all lim p m (nft_original_selectors r) \<and>
     \<not> (spec_peer_network (rule_spec r) = None \<and> spec_port (rule_spec r) = None) \<longleftrightarrow>
     originally_selects (rule_spec r) p"
proof -
  have "hold_all lim p m (nft_protocol_selector k) \<longleftrightarrow> protocol_selects k p" for k
    by (cases k) auto
  then show ?thesis
    by (auto simp: nft_original_selectors_def originally_selects_def is_none_or_def
        split: option.splits)
qed

lemma run_candidate_guards:
  "run_rules lim p (nft_append_application_candidate_guard_drops s counter actions) m =
     (if guarded s actions p then (Some NftDrop, m) else (None, m))"
proof -
  let ?selectors = "\<lambda>r. nft_append_rule_selectors r Outbound False
      # (if spec_peer_network (rule_spec r) = None \<and> spec_port (rule_spec r) = None
         then [] else [nft_original_selectors r])"
  let ?rules = "sort_key nft_order (application_rules s actions)"
  have "nft_append_application_candidate_guard_drops s counter actions =
      map (\<lambda>cs. map Match cs @ [CounterName counter, DropPacket]) (concat (map ?selectors ?rules))"
    unfolding nft_append_application_candidate_guard_drops_def map_concat map_map
    by (rule arg_cong [where f = concat], rule map_cong) auto
  moreover have "run_rules lim p
        (map (\<lambda>cs. map Match cs @ [CounterName counter, DropPacket]) (concat (map ?selectors ?rules))) m =
      (if \<exists>cs \<in> set (concat (map ?selectors ?rules)). hold_all lim p m cs
       then (Some NftDrop, m) else (None, m))"
    by (rule uniform_block) simp
  moreover have "(\<exists>cs \<in> set (?selectors r). hold_all lim p m cs) \<longleftrightarrow>
      rule_selects (rule_spec r) Outbound False p \<or> originally_selects (rule_spec r) p" for r
    unfolding original_selectors_hold [of lim p m, symmetric] by auto
  then have "(\<exists>cs \<in> set (concat (map ?selectors ?rules)). hold_all lim p m cs) \<longleftrightarrow>
      (\<exists>r \<in> set (application_rules s actions).
         rule_selects (rule_spec r) Outbound False p \<or> originally_selects (rule_spec r) p)"
    unfolding set_concat set_map bex_simps set_sort by blast
  ultimately show ?thesis by (simp add: guarded_def application_specs_def)
qed

lemma run_outbound_rules:
  fixes s p m
  defines "m' \<equiv> forget_flow s p m" and "every \<equiv> [Drop, Reject, Accept]"
  assumes mode: "sn_mode s = Enforcing" and i: "i = snapshot_application_interception s"
  shows "run_rules lim p (nft_outbound_rules s i) m =
     (if refusal_notice s p m then (Some NftAccept, handed_off m)
      else if pk_ct_state p = CtInvalid then (Some NftDrop, m)
      else if denies s p
      then run_rules lim p (nft_append_direct_rules s Outbound [Drop, Reject] DroppedOut) m
      else if flow_continues s p m then (Some NftAccept, handed_off m)
      else if answers s Outbound p then (Some NftAccept, handed_off m')
      else if in_direction CtOriginal p \<and> concerns_application s every p
      then (Some (NftQueue APPLICATION_QUEUE_NUMBER False), in_domain APPLICATION_PENDING_DOMAIN m')
      else if guarded s every p then (Some NftDrop, m')
      else if admits s Outbound p then (Some NftAccept, handed_off m')
      else (None, m'))"
proof -
  have flow: "run_rules lim p (if i \<noteq> InterceptNone
        then nft_append_application_loopback_accept s Outbound AcceptedOut i
             @ nft_append_application_flow_accept s Outbound AcceptedOut i
             @ (if i = PerPacket then nft_append_application_non_tcp_connmark_reset else [])
        else []) m =
      (if flow_continues s p m then (Some NftAccept, handed_off m)
       else (None, forget_flow s p m))"
    by (cases "i = InterceptNone"; cases "i = PerPacket")
      (auto simp: run_rules_append run_loopback [OF mode] run_outbound_flow run_connmark_reset
        handed_over_def flow_continues_def forget_flow_def i [symmetric] reply_of_established_def
        in_direction_def)
  have enforcing: "(if sn_mode s = Enforcing then xs else ys) = xs"
      "(if i \<noteq> InterceptNone \<and> sn_mode s = Learning then xs else ys) = ys" for xs ys :: "nft_rule list"
    using mode by simp_all
  have active: "sn_mode s \<noteq> Learning" using mode by simp
  show ?thesis
  proof (cases "refusal_notice s p m \<or> pk_ct_state p = CtInvalid \<or> denies s p")
    case True
    then show ?thesis
      using run_deny_rules [of s p lim DroppedOut m]
      unfolding nft_outbound_rules_def run_rules_append run_optional_reject_replies enforcing
      by (cases "run_rules lim p (nft_append_direct_rules s Outbound [Drop, Reject] DroppedOut) m")
        (auto simp: handed_over_def)
  next
    case False
    then have silent:
      "run_rules lim p (nft_append_direct_rules s Outbound [Drop, Reject] DroppedOut) m = (None, m)"
      using run_deny_rules [of s p lim DroppedOut m] by simp
    show ?thesis
      using False silent
      unfolding nft_outbound_rules_def run_rules_append run_optional_reject_replies enforcing
        run_application_queues run_candidate_guards run_accept_rules [OF active]
        run_reverse_rules [OF active] m'_def every_def
      by (simp add: flow handed_over_def)
  qed
qed

section \<open>Hooks\<close>

definition sanitised :: "marks \<Rightarrow> marks" where
  "sanitised m = m\<lparr>mk_packet := mk_packet m AND APPLICATION_MARK_PAYLOAD_MASK\<rparr>"

abbreviation domain_of :: "marks \<Rightarrow> u32" where
  "domain_of m \<equiv> mk_packet m AND APPLICATION_MARK_DOMAIN_MASK"

lemma mask_split:
  "(x :: u32) AND APPLICATION_MARK_DOMAIN_MASK = 0 \<Longrightarrow> x AND APPLICATION_MARK_PAYLOAD_MASK = x"
proof -
  assume "x AND APPLICATION_MARK_DOMAIN_MASK = 0"
  moreover have "APPLICATION_MARK_DOMAIN_MASK OR APPLICATION_MARK_PAYLOAD_MASK = -1" by code_simp
  then have "x = x AND (APPLICATION_MARK_DOMAIN_MASK OR APPLICATION_MARK_PAYLOAD_MASK)" by simp
  ultimately show ?thesis by (simp add: bit.conj_disj_distrib)
qed

lemma mask_disjoint: "(x AND APPLICATION_MARK_PAYLOAD_MASK) AND APPLICATION_MARK_DOMAIN_MASK = 0"
  by (simp add: and.assoc APPLICATION_MARK_DOMAIN_MASK_def APPLICATION_MARK_PAYLOAD_MASK_def)

lemma domain_of_in_domain:
  "d AND APPLICATION_MARK_DOMAIN_MASK = d \<Longrightarrow> domain_of (in_domain d m) = d"
  by (simp add: in_domain_def bit.conj_disj_distrib2 mask_disjoint)

lemmas domain_defs = APPLICATION_MARK_DOMAIN_MASK_def APPLICATION_PENDING_DOMAIN_def
  APPLICATION_HANDOFF_DOMAIN_def APPLICATION_REJECT_DOMAIN_def

lemma domains [simp]:
  "domain_of (in_domain APPLICATION_PENDING_DOMAIN m) = APPLICATION_PENDING_DOMAIN"
  "domain_of (in_domain APPLICATION_HANDOFF_DOMAIN m) = APPLICATION_HANDOFF_DOMAIN"
  "domain_of (sanitised m) = 0"
  "APPLICATION_HANDOFF_DOMAIN \<noteq> APPLICATION_PENDING_DOMAIN"
  "APPLICATION_HANDOFF_DOMAIN \<noteq> APPLICATION_REJECT_DOMAIN"
  "APPLICATION_PENDING_DOMAIN \<noteq> APPLICATION_REJECT_DOMAIN"
  "APPLICATION_HANDOFF_DOMAIN \<noteq> 0" "APPLICATION_PENDING_DOMAIN \<noteq> 0" "APPLICATION_REJECT_DOMAIN \<noteq> 0"
  by (rule domain_of_in_domain, simp add: domain_defs)+
    (simp_all add: sanitised_def mask_disjoint, simp_all add: domain_defs)

lemma sanitised_marks:
  "refusal_notice s p (sanitised m) = refusal_notice s p m"
  "flow_continues s p (sanitised m) = flow_continues s p m"
  "in_domain d (forget_flow s p (sanitised m)) = in_domain d (forget_flow s p m)"
proof -
  have "forget_flow s p (sanitised m) = sanitised (forget_flow s p m)"
    by (simp add: forget_flow_def sanitised_def)
  then show "in_domain d (forget_flow s p (sanitised m)) = in_domain d (forget_flow s p m)"
    by (simp add: sanitised_def in_domain_def and.assoc)
qed (simp_all add: refusal_notice_def flow_continues_def flow_marked_def sanitised_def)

lemma run_sanitization:
  "run_chain lim p nft_append_application_mark_sanitization_chain m = (NftAccept, sanitised m)"
  using mask_split [of "mk_packet m"]
  by (simp add: run_chain_def nft_append_application_mark_sanitization_chain_def sanitised_def)

lemma run_authorization:
  assumes "i = snapshot_application_interception s"
  shows "fst (run_chain lim p (nft_append_application_authorization_chain s i) m) =
     (if i \<noteq> InterceptNone \<and> domain_of m = APPLICATION_REJECT_DOMAIN then NftReject
      else if (intercepted i p \<and> domain_of m = APPLICATION_PENDING_DOMAIN)
              \<or> (sn_mode s \<noteq> BlockAll \<and> domain_of m = APPLICATION_HANDOFF_DOMAIN)
              \<or> sn_mode s = Learning
      then NftAccept else NftDrop)"
proof -
  let ?pending = "\<lambda>sel. map Match sel
      @ [Match (PacketMark APPLICATION_MARK_DOMAIN_MASK APPLICATION_PENDING_DOMAIN),
         ConnReplace APPLICATION_CONNMARK_FOREIGN_MASK (application_flow_mark (sn_flow_generation s)),
         MarkKeep APPLICATION_MARK_PAYLOAD_MASK]
      @ (if sn_mode s = Learning then [CounterName LearnedOut] else [])
      @ [CounterName AcceptedOut, AcceptPacket]"
  have pending: "run_rules lim p (map ?pending (intercepted_protocols i)) m =
      (if intercepted i p \<and> domain_of m = APPLICATION_PENDING_DOMAIN
       then (Some NftAccept, sanitised (set_connection_mark p
              ((mk_connection m AND APPLICATION_CONNMARK_FOREIGN_MASK)
               OR application_flow_mark (sn_flow_generation s)) m))
       else (None, m))" for m
    by (rule protocol_block) (simp add: sanitised_def set_connection_mark_def)
  show ?thesis
  proof (cases "i = InterceptNone")
    case True
    then show ?thesis
      using assms interception_by_mode(2) [of s]
      by (cases "sn_mode s") (simp_all add: run_chain_def nft_authorization_rules_def intercepted_def
          nft_append_application_authorization_chain_def)
  next
    case False
    then have active: "sn_mode s \<noteq> BlockAll" using assms interception_by_mode(1) by auto
    show ?thesis
      unfolding run_chain_def nft_append_application_authorization_chain_def nft_chain.select_convs
        nft_authorization_rules_def Let_def if_P [OF False] if_P [OF active] run_rules_append pending
      using False active by (cases "payload_protocol (pk_payload p) = Some ProtoTcp") simp_all
  qed
qed

lemma hook_chains_of:
  "hook_chains HookInput (nft_table_of s) =
     [nft_append_chain s Inbound (snapshot_application_interception s)]"
  "hook_chains HookOutput (nft_table_of s) =
     [nft_append_application_mark_sanitization_chain,
      nft_append_chain s Outbound (snapshot_application_interception s),
      nft_append_application_authorization_chain s (snapshot_application_interception s)]"
  "hook_chains HookForward (nft_table_of s) = [nft_append_forward_chain (sn_mode s)]"
  by (simp_all add: hook_chains_def nft_table_of_def Let_def nft_append_chain_def
      nft_append_application_mark_sanitization_chain_def nft_append_forward_chain_def
      nft_append_application_authorization_chain_def)

lemma three_steps:
  assumes "3 \<le> fuel"
  obtains n where "fuel = Suc (Suc (Suc n))"
  using assms by (metis Suc_le_D numeral_3_eq_3 Suc_le_mono)

section \<open>Verdicts\<close>

lemma nft_block_all:
  assumes "sn_mode s = BlockAll" and "3 \<le> fuel"
  shows "fst (nft_hook_run fuel consume lim (nft_table_of s) h p m) = Discarded"
proof -
  obtain n where [simp]: "fuel = Suc (Suc (Suc n))" using assms(2) by (rule three_steps)
  have chain: "run_chain lim p (nft_append_chain s dir i) m' = (NftDrop, m')" for dir i m'
    using assms(1) by (cases dir) (simp_all add: run_chain_def nft_append_chain_def)
  have forward: "run_chain lim p (nft_append_forward_chain (sn_mode s)) m' = (NftDrop, m')" for m'
    using assms(1) by (simp add: run_chain_def nft_append_forward_chain_def)
  show ?thesis
    by (cases h) (simp_all add: nft_hook_run_def hook_chains_of chain forward run_sanitization)
qed

text \<open>C5: In BlockAll the table discards every packet at every hook, whatever its marks, whatever
  the queue consumers answer and whatever rules the policy holds.\<close>

theorem nft_block_all_discards:
  assumes "sn_mode s = BlockAll" and "3 \<le> fuel"
  shows "fst (nft_hook_run fuel consume lim (nft_table_of s) h p m) = Discarded"
  using assms by (rule nft_block_all)

theorem nft_block_all_discards_witness:
  "fst (nft_hook_run 3 (\<lambda>_ _ _. QueueAccept 0xc0000000) True
       (nft_table_of (sample_policy BlockAll [sample_web])) HookOutput
       (sample_packet CtEstablished CtOriginal (IpV4 9) (IpV4 7) (TcpSegment 5000 443 []))
       \<lparr>mk_packet = 0xc0000000, mk_connection = 0x40000001\<rparr>) = Discarded"
  by (rule nft_block_all_discards) (simp_all add: sample_policy_def)

text \<open>C39: A sender cannot forge a verdict: the outcome on the output hook is the one the packet would
  have with the two reserved bits of its mark cleared.\<close>

theorem nft_marks_cannot_be_forged:
  "nft_hook_run (Suc fuel) consume lim (nft_table_of s) HookOutput p m =
   nft_hook_run (Suc fuel) consume lim (nft_table_of s) HookOutput p
     (m\<lparr>mk_packet := mk_packet m AND APPLICATION_MARK_PAYLOAD_MASK\<rparr>)"
  by (simp add: nft_hook_run_def hook_chains_of run_sanitization sanitised_def and.assoc)

lemma inbound_step:
  assumes "sn_mode s = Enforcing"
  shows "fst (nft_hook_run (Suc fuel) consume lim (nft_table_of s) HookInput p m) =
     (if inbound_allowed s p m \<or> flow_reply s p m then Passed
      else if pk_ct_state p \<noteq> CtInvalid \<and> reply_awaited s p m
      then (case consume APPLICATION_REPLY_QUEUE_NUMBER p m of
              QueueAccept v \<Rightarrow> Passed
            | QueueRepeat v \<Rightarrow>
                fst (nft_hook_run fuel consume lim (nft_table_of s) HookInput p (m\<lparr>mk_packet := v\<rparr>))
            | _ \<Rightarrow> Discarded)
      else Discarded)"
  by (simp add: nft_hook_run_def hook_chains_of run_inbound_chain [OF assms]
      split: queue_verdict.split)

lemma inbound_ignores_packet_mark:
  "inbound_allowed s p (m\<lparr>mk_packet := v\<rparr>) = inbound_allowed s p m"
  "flow_reply s p (m\<lparr>mk_packet := v\<rparr>) = flow_reply s p m"
  by (simp_all add: inbound_allowed_def refusal_notice_def flow_reply_def flow_marked_def)

text \<open>C6: In Enforcing a packet enters the host exactly when the network policy allows it or it
  belongs to an application flow authorised in the current generation, for every consumer
  of the reply queue that only drops or repeats.\<close>

theorem nft_inbound_exact:
  assumes "sn_mode s = Enforcing"
    and "\<And>m' v. consume APPLICATION_REPLY_QUEUE_NUMBER p m' \<noteq> QueueAccept v"
  shows "fst (nft_hook_run (Suc fuel) consume lim (nft_table_of s) HookInput p m) = Passed \<longleftrightarrow>
     inbound_allowed s p m \<or> flow_reply s p m"
proof (induction fuel arbitrary: m)
  case 0
  have "fst (nft_hook_run 0 consume lim (nft_table_of s) HookInput p m') = Unfinished" for m'
    by (simp add: nft_hook_run_def hook_chains_of)
  then show ?case
    using assms(2) by (simp add: inbound_step [OF assms(1)] split: queue_verdict.split)
next
  case (Suc fuel)
  show ?case
    using assms(2)
    by (subst inbound_step [OF assms(1)])
      (simp add: Suc.IH inbound_ignores_packet_mark split: queue_verdict.split)
qed

theorem nft_inbound_exact_witness:
  "fst (nft_hook_run 4 (\<lambda>_ _ _. QueueDrop) True (nft_table_of (sample_policy Enforcing [sample_web]))
       HookInput (sample_packet CtEstablished CtReply (IpV4 7) (IpV4 9) (TcpSegment 443 5000 []))
       \<lparr>mk_packet = 0, mk_connection = 0\<rparr>) = Passed"
proof -
  have "inbound_allowed (sample_policy Enforcing [sample_web])
      (sample_packet CtEstablished CtReply (IpV4 7) (IpV4 9) (TcpSegment 443 5000 []))
      \<lparr>mk_packet = 0, mk_connection = 0\<rparr>"
    by (simp add: inbound_allowed_def policy_eval filter_sample_defs)
  then show ?thesis
    using nft_inbound_exact [of "sample_policy Enforcing [sample_web]" "\<lambda>_ _ _. QueueDrop"
        "sample_packet CtEstablished CtReply (IpV4 7) (IpV4 9) (TcpSegment 443 5000 [])" 3 True
        "\<lparr>mk_packet = 0, mk_connection = 0\<rparr>"]
    by (simp add: sample_policy_def)
qed

text \<open>The packet the enforcement queue is asked about, and the answers that let it pass.\<close>

definition application_lets_pass :: "queue_consumer \<Rightarrow> snapshot \<Rightarrow> packet \<Rightarrow> marks \<Rightarrow> bool" where
  "application_lets_pass consume s p m \<longleftrightarrow>
     (case consume APPLICATION_QUEUE_NUMBER p
             (in_domain APPLICATION_PENDING_DOMAIN (forget_flow s p m)) of
        QueueAccept v \<Rightarrow>
          v AND APPLICATION_MARK_DOMAIN_MASK = APPLICATION_HANDOFF_DOMAIN
          \<or> (v AND APPLICATION_MARK_DOMAIN_MASK = APPLICATION_PENDING_DOMAIN
             \<and> intercepted (snapshot_application_interception s) p)
      | _ \<Rightarrow> False)"

definition outbound_passes :: "queue_consumer \<Rightarrow> snapshot \<Rightarrow> packet \<Rightarrow> marks \<Rightarrow> bool" where
  "outbound_passes consume s p m \<longleftrightarrow>
     refusal_notice s p m
     \<or> (pk_ct_state p \<noteq> CtInvalid \<and> \<not> denies s p
        \<and> (flow_continues s p m \<or> answers s Outbound p
           \<or> (if in_direction CtOriginal p \<and> concerns_application s [Drop, Reject, Accept] p
              then application_lets_pass consume s p m
              else \<not> guarded s [Drop, Reject, Accept] p \<and> admits s Outbound p)))"

lemma run_outbound_chain:
  assumes "sn_mode s = Enforcing" and i: "i = snapshot_application_interception s"
  shows "fst (traverse (Suc (Suc n)) consume lim p
        [nft_append_chain s Outbound i, nft_append_application_authorization_chain s i] m) =
     (if refusal_notice s p m then Passed
      else if pk_ct_state p = CtInvalid then Discarded
      else if denies s p
      then (if fst (run_rules lim p (nft_append_direct_rules s Outbound [Drop, Reject] DroppedOut) m)
               = Some NftDrop then Discarded else Refused)
      else if flow_continues s p m \<or> answers s Outbound p then Passed
      else if in_direction CtOriginal p \<and> concerns_application s [Drop, Reject, Accept] p
      then (case consume APPLICATION_QUEUE_NUMBER p
                   (in_domain APPLICATION_PENDING_DOMAIN (forget_flow s p m)) of
              QueueAccept v \<Rightarrow>
                if v AND APPLICATION_MARK_DOMAIN_MASK = APPLICATION_REJECT_DOMAIN \<and> i \<noteq> InterceptNone
                then Refused
                else if v AND APPLICATION_MARK_DOMAIN_MASK = APPLICATION_HANDOFF_DOMAIN
                        \<or> (v AND APPLICATION_MARK_DOMAIN_MASK = APPLICATION_PENDING_DOMAIN
                           \<and> intercepted i p)
                then Passed else Discarded
            | QueueRepeat v \<Rightarrow>
                fst (traverse (Suc n) consume lim p
                  [nft_append_chain s Outbound i, nft_append_application_authorization_chain s i]
                  ((in_domain APPLICATION_PENDING_DOMAIN (forget_flow s p m))\<lparr>mk_packet := v\<rparr>))
            | _ \<Rightarrow> Discarded)
      else if \<not> guarded s [Drop, Reject, Accept] p \<and> admits s Outbound p then Passed
      else Discarded)"
proof -
  have authorised: "fst (traverse (Suc k) consume lim p
        [nft_append_application_authorization_chain s i] m') =
      (if i \<noteq> InterceptNone \<and> domain_of m' = APPLICATION_REJECT_DOMAIN then Refused
       else if (intercepted i p \<and> domain_of m' = APPLICATION_PENDING_DOMAIN)
               \<or> domain_of m' = APPLICATION_HANDOFF_DOMAIN
       then Passed else Discarded)" for k m'
    using run_authorization [OF i, of lim p m'] assms(1)
    by (cases "run_chain lim p (nft_append_application_authorization_chain s i) m'") auto
  have step: "traverse (Suc (Suc n)) consume lim p (c # cs) m =
      (case run_chain lim p c m of
         (NftAccept, m') \<Rightarrow> traverse (Suc n) consume lim p cs m'
       | (NftDrop, m') \<Rightarrow> (Discarded, m')
       | (NftReject, m') \<Rightarrow> (Refused, m')
       | (NftQueue k bypass, m') \<Rightarrow>
           (case consume k p m' of
              QueueAbsent \<Rightarrow> if bypass then traverse (Suc n) consume lim p cs m' else (Discarded, m')
            | QueueDrop \<Rightarrow> (Discarded, m')
            | QueueAccept v \<Rightarrow> traverse (Suc n) consume lim p cs (m'\<lparr>mk_packet := v\<rparr>)
            | QueueRepeat v \<Rightarrow> traverse (Suc n) consume lim p (c # cs) (m'\<lparr>mk_packet := v\<rparr>)))" for c cs
    by (rule traverse.simps(3))
  have chain: "run_chain lim p (nft_append_chain s Outbound i) m =
      (case run_rules lim p (nft_outbound_rules s i) m of
         (Some v, m') \<Rightarrow> (v, m') | (None, m') \<Rightarrow> (NftDrop, m'))"
    using assms(1) by (auto simp: run_chain_def nft_append_chain_def run_rules_append
        split: option.split prod.split)
  have deny: "\<exists>v m'. run_rules lim p
      (nft_append_direct_rules s Outbound [Drop, Reject] DroppedOut) m = (Some v, m')
      \<and> v \<in> {NftDrop, NftReject}" if "denies s p"
    using run_deny_rules [of s p lim DroppedOut m] that
    by (cases "run_rules lim p (nft_append_direct_rules s Outbound [Drop, Reject] DroppedOut) m") auto
  show ?thesis
  proof (cases "denies s p")
    case True
    with deny obtain v m' where "run_rules lim p
        (nft_append_direct_rules s Outbound [Drop, Reject] DroppedOut) m = (Some v, m')"
      and "v = NftDrop \<or> v = NftReject" by blast
    then show ?thesis
      using True by (auto simp: step chain run_outbound_rules [OF assms] handed_off_domain authorised
          simp del: traverse.simps)
  next
    case False
    then show ?thesis
      by (simp add: step chain run_outbound_rules [OF assms] handed_off_domain authorised
          split: queue_verdict.split del: traverse.simps)
  qed
qed

text \<open>C4: In Enforcing the verdict on an outbound packet is exactly the one the policy states: a network
  deny is final; a packet inside the envelope of an application rule passes only on the answer
  of the queue consumer; any other packet needs a network accept, an accepted inbound connection it
  answers, or an application flow of the current generation.\<close>

theorem nft_outbound_exact:
  assumes "sn_mode s = Enforcing"
    and "\<And>m' v. consume APPLICATION_QUEUE_NUMBER p m' \<noteq> QueueRepeat v"
    and "3 \<le> fuel"
  shows "fst (nft_hook_run fuel consume lim (nft_table_of s) HookOutput p m) = Passed \<longleftrightarrow>
     outbound_passes consume s p m"
proof -
  obtain n where fuel: "fuel = Suc (Suc (Suc n))" using assms(3) by (rule three_steps)
  have "nft_hook_run fuel consume lim (nft_table_of s) HookOutput p m =
      traverse (Suc (Suc n)) consume lim p
        [nft_append_chain s Outbound (snapshot_application_interception s),
         nft_append_application_authorization_chain s (snapshot_application_interception s)]
        (sanitised m)"
    by (simp add: fuel nft_hook_run_def hook_chains_of run_sanitization)
  then show ?thesis
    using assms(2)
    by (simp add: run_outbound_chain [OF assms(1) refl] sanitised_marks outbound_passes_def
        application_lets_pass_def domains(5,6) [symmetric] split: queue_verdict.split
        del: traverse.simps)
qed

theorem nft_outbound_exact_witness:
  "fst (nft_hook_run 3 (\<lambda>_ _ _. QueueAbsent) True
       (nft_table_of (sample_policy Enforcing [sample_web, sample_deny]))
       HookOutput (sample_packet CtNew CtOriginal (IpV4 9) (IpV4 0x01020304) (TcpSegment 5000 443 [FlagSyn]))
       \<lparr>mk_packet = 0, mk_connection = 0\<rparr>) = Passed
   \<and> fst (nft_hook_run 3 (\<lambda>_ _ _. QueueAbsent) True
       (nft_table_of (sample_policy Enforcing [sample_web, sample_deny]))
       HookOutput (sample_packet CtNew CtOriginal (IpV4 9) (IpV4 0x0a020304) (TcpSegment 5000 443 [FlagSyn]))
       \<lparr>mk_packet = 0, mk_connection = 0\<rparr>) \<noteq> Passed"
proof -
  let ?s = "sample_policy Enforcing [sample_web, sample_deny]"
  let ?p = "\<lambda>a. sample_packet CtNew CtOriginal (IpV4 9) (IpV4 a) (TcpSegment 5000 443 [FlagSyn])"
  let ?m = "\<lparr>mk_packet = 0, mk_connection = 0\<rparr>"
  have "outbound_passes (\<lambda>_ _ _. QueueAbsent) ?s (?p 0x01020304) ?m"
    "\<not> outbound_passes (\<lambda>_ _ _. QueueAbsent) ?s (?p 0x0a020304) ?m"
    by (simp_all add: outbound_passes_def guarded_def policy_eval filter_sample_defs)
  then show ?thesis
    using nft_outbound_exact [of ?s "\<lambda>_ _ _. QueueAbsent" "?p a" 3 True ?m for a]
    by (simp add: sample_policy_def)
qed

section \<open>Learning\<close>

lemma run_learning_reverse:
  assumes "sn_mode s = Learning"
  shows "run_rules lim p (nft_append_reverse_rules s dir counter) m =
     (if answers s dir p then (Some NftAccept, m) else (None, m))"
proof -
  have "run_rules lim p (nft_append_reverse_rules s dir counter) m =
      (if \<exists>r \<in> set (sort_key rule_id (reverse_rules s dir)). rule_selects (rule_spec r) dir True p
       then (Some NftAccept, m) else (None, m))"
    unfolding nft_append_reverse_rules_def nft_append_rule_verdict_def
    by (rule uniform_block) (use assms in simp)
  then show ?thesis by (simp add: answers_rules)
qed

lemma run_learning_queue:
  obtains C where "run_rules lim p nft_append_learning_queue m =
      (if C then (Some (NftQueue APPLICATION_LEARNING_QUEUE_NUMBER True), m) else (None, m))"
proof
  show "run_rules lim p nft_append_learning_queue m =
      (if \<exists>sel \<in> set [[L4Proto ProtoTcp, CtState [CtNew], TcpFlags [FlagSyn, FlagAck] [FlagSyn]],
           [L4Proto ProtoTcp, CtState [CtEstablished], TcpFlags [FlagFin, FlagRst] [], RateLimit],
           [L4ProtoNot ProtoTcp]]. in_direction CtOriginal p \<and> hold_all lim p m sel
       then (Some (NftQueue APPLICATION_LEARNING_QUEUE_NUMBER True), m) else (None, m))"
    unfolding nft_append_learning_queue_def by (rule uniform_block) (auto simp: in_direction_def)
qed

lemma run_learning_rules:
  assumes mode: "sn_mode s = Learning" and "\<not> denies s p" "\<not> guarded s [Drop, Reject] p"
    and "domain_of m = 0"
  obtains v m' where "run_rules lim p (nft_outbound_rules s PerPacket) m = (Some v, m')"
    and "v = NftAccept \<or> v = NftQueue APPLICATION_LEARNING_QUEUE_NUMBER True"
    and "domain_of m' \<noteq> APPLICATION_REJECT_DOMAIN"
proof -
  have blocks: "nft_append_application_loopback_accept s Outbound AcceptedOut PerPacket = []"
    "(if sn_mode s = Enforcing then xs else ys) = ys"
    "(if sn_mode s = Learning then xs else ys) = xs"
    "(if PerPacket \<noteq> InterceptNone \<and> sn_mode s = Learning then xs else ys) = xs"
    "(if PerPacket \<noteq> InterceptNone then xs else ys) = xs"
    "(if PerPacket = PerPacket then xs else ys) = xs" for xs ys :: "nft_rule list"
    using mode by (simp_all add: nft_append_application_loopback_accept_def)
  have silent: "run_rules lim p (nft_append_direct_rules s Outbound [Drop, Reject] DroppedOut) m = (None, m)"
    using run_deny_rules [of s p lim DroppedOut m] assms(2) by simp
  have unqueued: "\<not> (in_direction CtOriginal p \<and> concerns_application s [Drop, Reject] p)"
    using assms(3) by (auto simp: guarded_def concerns_application_def)
  obtain m1 where reset: "run_rules lim p nft_append_application_non_tcp_connmark_reset m = (None, m1)"
    and "mk_packet m1 = mk_packet m"
    by (simp add: run_connmark_reset)
  then have marks: "domain_of m1 = 0" "domain_of (handed_off m) = APPLICATION_HANDOFF_DOMAIN"
    using assms(4) by (simp_all add: handed_off_domain)
  obtain C where queue: "run_rules lim p nft_append_learning_queue m1 =
      (if C then (Some (NftQueue APPLICATION_LEARNING_QUEUE_NUMBER True), m1) else (None, m1))"
    by (rule run_learning_queue)
  have "run_rules lim p (nft_outbound_rules s PerPacket) m
      \<in> {(Some NftAccept, handed_off m), (Some NftAccept, m1),
         (Some (NftQueue APPLICATION_LEARNING_QUEUE_NUMBER True), m1)}"
    using unqueued assms(3)
    unfolding nft_outbound_rules_def run_rules_append run_optional_reject_replies blocks
      run_application_queues run_candidate_guards run_learning_reverse [OF mode]
      run_outbound_flow [of PerPacket, simplified]
    by (simp add: silent reset queue handed_over_def counted_accept_def) blast
  then show thesis
    using that marks by (elim insertE emptyE) simp_all
qed

text \<open>C40: Learning blocks nothing that no deny rule names: when the packet is outside every network
  deny and every application deny, it passes the output hook, whether or not the observation
  queue has a consumer.\<close>

theorem nft_learning_admits:
  assumes "sn_mode s = Learning" "\<not> denies s p" "\<not> guarded s [Drop, Reject] p"
    and "\<And>m'. consume APPLICATION_LEARNING_QUEUE_NUMBER p m' \<in> {QueueAbsent, QueueAccept (mk_packet m')}"
    and "3 \<le> fuel"
  shows "fst (nft_hook_run fuel consume lim (nft_table_of s) HookOutput p m) = Passed"
proof -
  obtain n where fuel: "fuel = Suc (Suc (Suc n))" using assms(5) by (rule three_steps)
  have i: "snapshot_application_interception s = PerPacket"
    using assms(1) by (rule interception_by_mode)
  obtain v m' where run: "run_rules lim p (nft_outbound_rules s PerPacket) (sanitised m) = (Some v, m')"
    and v: "v = NftAccept \<or> v = NftQueue APPLICATION_LEARNING_QUEUE_NUMBER True"
    and "domain_of m' \<noteq> APPLICATION_REJECT_DOMAIN"
    using run_learning_rules [OF assms(1-3) domains(3)] .
  then obtain m'' where authorised:
    "run_chain lim p (nft_append_application_authorization_chain s PerPacket) m' = (NftAccept, m'')"
    using run_authorization [OF i [symmetric], of lim p m'] assms(1)
    by (cases "run_chain lim p (nft_append_application_authorization_chain s PerPacket) m'") auto
  have chain: "run_chain lim p (nft_append_chain s Outbound PerPacket) (sanitised m) = (v, m')"
    using assms(1) run by (simp add: run_chain_def nft_append_chain_def run_rules_append)
  have kept: "m'\<lparr>mk_packet := mk_packet m'\<rparr> = m'" by simp
  show ?thesis
    using v assms(4) [of m']
    by (auto simp: fuel nft_hook_run_def hook_chains_of run_sanitization i chain authorised kept
        simp del: marks.surjective)
qed

theorem nft_learning_admits_witness:
  "fst (nft_hook_run 3 (\<lambda>_ _ _. QueueAbsent) False
       (nft_table_of (sample_policy Learning [sample_web, sample_deny]))
       HookOutput (sample_packet CtNew CtOriginal (IpV4 9) (IpV4 0x01020304) (UdpDatagram 5000 53))
       \<lparr>mk_packet = 0x40000000, mk_connection = 0\<rparr>) = Passed"
  by (rule nft_learning_admits) (simp_all add: guarded_def policy_eval filter_sample_defs)

end
