(* ===== verification/Iptables_Properties.thy ===== *)
theory Iptables_Properties
  imports Iptables Nftables_Properties
begin

text \<open>
  What a restored iptables program does with a packet: the contents of each chain after the
  restore, running the blocks the \<open>append_*\<close> functions produce, and from them the verdict
  of each hook.
\<close>

unbundle bit_operations_syntax

text \<open>The addresses of a packet and of its connection belong to one family.\<close>

definition one_family :: "packet \<Rightarrow> bool" where
  "one_family p \<longleftrightarrow>
     family_of (pk_src p) = family_of (pk_dst p)
     \<and> is_none_or (pk_conntrack p) (\<lambda>c. family_of (pk_src p) = family_of (ck_original_dst c))"

section \<open>Chains after a restore\<close>

definition rules_of :: "ipt_chain \<Rightarrow> ipt_rule list \<Rightarrow> ipt_rule list" where
  "rules_of c = filter (\<lambda>r. ir_chain r = c)"

lemma rules_of_append [simp]: "rules_of c (xs @ ys) = rules_of c xs @ rules_of c ys"
  by (simp add: rules_of_def)

lemma rules_of_Cons [simp]:
  "rules_of c [] = []" "rules_of c (r # rs) = (if ir_chain r = c then r # rules_of c rs else rules_of c rs)"
  by (simp_all add: rules_of_def)

lemma rules_of_own: "\<forall>r \<in> set rs. ir_chain r = c \<Longrightarrow> rules_of c rs = rs"
  by (simp add: rules_of_def)

lemma rules_of_other: "\<forall>r \<in> set rs. ir_chain r \<noteq> c \<Longrightarrow> rules_of c rs = []"
  by (simp add: rules_of_def)

lemma restore_appends: "fold restore_line (map LAppend rs) cs c = cs c @ rules_of c rs"
  by (induction rs arbitrary: cs) auto

lemma restore_flushes: "fold restore_line (map LFlush owned) cs c = (if c \<in> set owned then [] else cs c)"
  by (induction owned arbitrary: cs) auto

lemma restore_program:
  "ipt_restore (ipt_program table owned rules) cs c =
     (if c \<in> set owned then [] else cs c) @ rules_of c rules"
  by (simp add: ipt_restore_def ipt_program_def restore_appends restore_flushes)

lemma ipt_restore_append: "ipt_restore (xs @ ys) cs = ipt_restore ys (ipt_restore xs cs)"
  by (simp add: ipt_restore_def)

lemma input_rules_chain: "\<forall>r \<in> set (ipt_append_input_chain s f i). ir_chain r = ChainIn"
  by (auto simp: ipt_append_input_chain_def ipt_append_dhcp_bootstrap_accepts_def
      ipt_append_invalid_drop_def ipt_append_ipv6_host_control_plane_accepts_def
      ipt_reject_replies_def ipt_append_generated_reject_reply_accept_def
      ipt_append_application_loopback_accept_def ipt_append_direct_rules_def
      ipt_append_direct_rules_for_actions_def ipt_append_reverse_rules_def ipt_append_rule_verdict_def
      ipt_append_application_reply_queues_def ipt_append_counted_verdict_def)

lemma output_rules_chain: "\<forall>r \<in> set (ipt_append_output_chain s f i). ir_chain r = ChainOut"
  by (auto simp: ipt_append_output_chain_def ipt_append_invalid_drop_def
      ipt_reject_replies_def ipt_append_generated_reject_reply_accept_def ipt_verdict_mark_rules_def
      ipt_outbound_flow_rules_def ipt_append_application_loopback_accept_def
      ipt_append_direct_rules_for_actions_def ipt_append_reverse_rules_def ipt_append_rule_verdict_def
      ipt_append_application_rule_queues_def ipt_append_application_candidate_guard_drops_def
      ipt_append_counted_verdict_def split: if_splits)

lemma mangle_rules_chain: "\<forall>r \<in> set (ipt_mangle_rules s f). ir_chain r \<in> {ChainMark, ChainObserve}"
  by (auto simp: ipt_mangle_rules_def ownership_rule_def ipt_append_reserved_mark_sanitizer_def
      ipt_append_learning_observer_kernel_guards_def ipt_learning_observer_def)

lemma application_rules_chain:
  "\<forall>r \<in> set (ipt_append_application_chains s i). ir_chain r \<in> {ChainAppTcp, ChainAppPacket}"
  by (auto simp: ipt_append_application_chains_def ipt_application_chain_def
      ipt_append_clear_reserved_mark_def ipt_append_application_accept_def
      ipt_append_counted_verdict_def split: if_splits)

lemma forward_rules_chain: "\<forall>r \<in> set (ipt_append_forward_chain md). ir_chain r = ChainForward"
  by (auto simp: ipt_append_forward_chain_def ipt_append_counted_verdict_def)

lemma rules_of_filter:
  "rules_of ChainIn (ipt_filter_rules s f i) = ownership_rule ChainIn # ipt_append_input_chain s f i"
  "rules_of ChainOut (ipt_filter_rules s f i) = ownership_rule ChainOut # ipt_append_output_chain s f i"
  "rules_of ChainForward (ipt_filter_rules s f i) =
     ownership_rule ChainForward # ipt_append_forward_chain (sn_mode s)"
  "rules_of ChainMark (ipt_filter_rules s f i) = []"
  "rules_of ChainObserve (ipt_filter_rules s f i) = []"
proof -
  note own = rules_of_own [OF input_rules_chain] rules_of_own [OF output_rules_chain]
    rules_of_own [OF forward_rules_chain]
  have other: "c \<noteq> ChainIn \<Longrightarrow> rules_of c (ipt_append_input_chain s f i) = []"
    "c \<noteq> ChainOut \<Longrightarrow> rules_of c (ipt_append_output_chain s f i) = []"
    "c \<noteq> ChainForward \<Longrightarrow> rules_of c (ipt_append_forward_chain (sn_mode s)) = []"
    "c \<notin> {ChainAppTcp, ChainAppPacket} \<Longrightarrow> rules_of c (ipt_append_application_chains s i) = []"
    for c
    using input_rules_chain output_rules_chain forward_rules_chain application_rules_chain
    by (fastforce intro!: rules_of_other)+
  show "rules_of ChainIn (ipt_filter_rules s f i) = ownership_rule ChainIn # ipt_append_input_chain s f i"
    "rules_of ChainOut (ipt_filter_rules s f i) = ownership_rule ChainOut # ipt_append_output_chain s f i"
    "rules_of ChainForward (ipt_filter_rules s f i) =
       ownership_rule ChainForward # ipt_append_forward_chain (sn_mode s)"
    "rules_of ChainMark (ipt_filter_rules s f i) = []"
    "rules_of ChainObserve (ipt_filter_rules s f i) = []"
    by (simp_all add: ipt_filter_rules_def own other owned_chains_def ownership_rule_def)
qed

lemma rules_of_mangle:
  "c \<notin> {ChainMark, ChainObserve} \<Longrightarrow> rules_of c (ipt_mangle_rules s f) = []"
  using mangle_rules_chain by (fastforce intro!: rules_of_other)

lemma chains_of:
  "ipt_chains_of s f cs c =
     (if c \<in> {ChainMark, ChainObserve} then rules_of c (ipt_mangle_rules s f)
      else rules_of c (ipt_filter_rules s f (snapshot_application_interception s)))"
proof -
  have "c \<in> {ChainMark, ChainObserve} \<or> c \<in> set owned_chains"
    by (cases c) (simp_all add: owned_chains_def)
  then show ?thesis
    using rules_of_filter(4,5) rules_of_mangle
    by (auto simp: ipt_chains_of_def compile_family_def Let_def ipt_restore_append restore_program
        owned_mangle_chains_def owned_chains_def)
qed

text \<open>The outcome of a restore does not depend on what the chains held before.\<close>

lemma restore_replaces: "ipt_chains_of s f cs = ipt_chains_of s f cs'"
  by (rule ext) (simp add: chains_of)

section \<open>Running blocks of rules\<close>

lemma ipt_holds_simps [simp]:
  "ipt_holds lim p m []"
  "ipt_holds lim p m (c # ms) \<longleftrightarrow> hold_all lim p m (match_criteria c) \<and> ipt_holds lim p m ms"
  "ipt_holds lim p m (ms @ ms') \<longleftrightarrow> ipt_holds lim p m ms \<and> ipt_holds lim p m ms'"
  by (simp_all add: ipt_holds_def)

lemma run_ipt_append:
  "run_ipt jump lim p (rs @ rs') m =
     (case run_ipt jump lim p rs m of
        (Some v, m') \<Rightarrow> (Some v, m')
      | (None, m') \<Rightarrow> run_ipt jump lim p rs' m')"
  by (induction rs arbitrary: m) (auto split: ipt_target.split prod.split)

fun target_outcome :: "ipt_target \<Rightarrow> ipt_outcome option" where
  "target_outcome TReturn = Some IptReturn"
| "target_outcome TDrop = Some IptDrop"
| "target_outcome TRejectTcpReset = Some IptReject"
| "target_outcome (TRejectUnreachable _) = Some IptReject"
| "target_outcome (TQueue n) = Some (IptQueue n False)"
| "target_outcome (TQueueBypass n) = Some (IptQueue n True)"
| "target_outcome _ = None"

lemma ipt_block:
  assumes "\<And>r. r \<in> set rs \<Longrightarrow> target_outcome (ir_target r) = Some v"
  shows "run_ipt jump lim p rs m =
      (if \<exists>r \<in> set rs. ipt_holds lim p m (ir_matches r) then (Some v, m) else (None, m))"
  using assms
proof (induction rs)
  case (Cons r rs)
  then have "target_outcome (ir_target r) = Some v" by simp
  then show ?case using Cons by (cases "ir_target r") auto
qed simp

lemma ownership_is_silent [simp]:
  "run_ipt jump lim p (ownership_rule c # rs) m = run_ipt jump lim p rs m"
  by (simp add: ownership_rule_def)

lemma run_owned_chain:
  assumes "cs c = ownership_rule c # rs"
  shows "run_ipt_chain (Suc depth) cs lim p c m =
     (case run_ipt (\<lambda>c' m'. run_ipt_chain depth cs lim p c' m') lim p rs m of
        (Some v, m') \<Rightarrow> (v, m')
      | (None, m') \<Rightarrow> (IptReturn, m'))"
  unfolding run_ipt_chain.simps assms ownership_is_silent ..

lemma counted_holds [simp]: "hold_all lim p m (match_criteria (counted c))"
  by (simp add: counted_def)

lemma ctmatch_holds [simp]:
  "hold_all lim p m (match_criteria (ctmatch states dir)) \<longleftrightarrow>
     (states \<noteq> [] \<longrightarrow> pk_ct_state p \<in> set states) \<and> in_direction dir p"
  by (auto simp: ctmatch_def in_direction_def)

lemma original_direction_holds [simp]:
  "hold_all lim p m (match_criteria in_original_direction) \<longleftrightarrow> in_direction CtOriginal p"
  by (simp add: in_original_direction_def)

lemma ipt_protocol_holds:
  assumes "family_of (pk_src p) = f" "supports_net k n f"
  shows "ipt_holds lim p m (ipt_protocol_match k) \<longleftrightarrow> protocol_selects k p"
  using assms by (cases k; cases f) (auto simp: ipt_protocol_match_def)

lemma ipt_port_holds:
  "holds lim p m (port_criterion (ipt_protocol k) SrcPort ports) \<longleftrightarrow> port_selects k True ports p"
  "holds lim p m (port_criterion (ipt_protocol k) DstPort ports) \<longleftrightarrow> port_selects k False ports p"
  by (cases k; auto simp: is_some_and_def split: option.splits)+

lemma rule_match_selects:
  assumes "family_of (pk_src p) = f" "supports_family r f"
  shows "ipt_holds lim p m (ipt_rule_match r dir is_reply) \<longleftrightarrow>
     rule_selects (rule_spec r) dir is_reply p"
proof -
  have protocol: "ipt_holds lim p m (ipt_protocol_match (spec_protocol (rule_spec r))) \<longleftrightarrow>
      protocol_selects (spec_protocol (rule_spec r)) p"
    using assms by (simp add: ipt_protocol_holds supports_family_def)
  show ?thesis
    by (cases dir; cases is_reply)
      (auto simp: ipt_rule_match_def protocol rule_selects_def reply_of_established_def peer_of_def
        device_of_def in_direction_def ipt_port_holds is_none_or_def split: option.splits)
qed

lemma selected_supported:
  assumes "family_of (pk_src p) = f" "one_family p" "rule_selects (rule_spec r) dir is_reply p"
  shows "supports_family r f"
proof -
  have "family_of (peer_of dir p) = f"
    using assms(1,2) by (cases dir) (simp_all add: peer_of_def one_family_def)
  moreover have "is_none_or (spec_peer_network (rule_spec r)) (\<lambda>n. net_member n (peer_of dir p))"
    "protocol_selects (spec_protocol (rule_spec r)) p"
    using assms(3) by (simp_all add: rule_selects_def)
  ultimately show ?thesis
    using assms(1) unfolding supports_family_def
    by (cases "spec_protocol (rule_spec r)"; cases "spec_peer_network (rule_spec r)"; cases f)
      (auto dest!: net_member_family simp: supports_net.simps elim: net_family.elims)
qed

lemma supported_selects:
  assumes "family_of (pk_src p) = f" "one_family p"
  shows "supports_family r f \<and> ipt_holds lim p m (ipt_rule_match r dir is_reply) \<longleftrightarrow>
     rule_selects (rule_spec r) dir is_reply p"
  using assms rule_match_selects selected_supported by blast

definition chosen :: "snapshot \<Rightarrow> direction \<Rightarrow> rule_action list \<Rightarrow> packet \<Rightarrow> bool" where
  "chosen s dir actions p \<longleftrightarrow>
     (\<exists>spec \<in> network_rules s dir actions. rule_selects spec dir False p)"

lemma chosen_meaning:
  "admits s dir p \<longleftrightarrow> chosen s dir [Accept] p"
  "denies s p \<longleftrightarrow> chosen s Outbound [Drop] p \<or> chosen s Outbound [Reject] p"
  by (auto simp: admits_def denies_def chosen_def network_rules_def)

lemma run_ipt_direct:
  assumes "family_of (pk_src p) = f" "one_family p" "action \<in> {Accept, Drop}"
  shows "run_ipt jump lim p (ipt_append_direct_rules_for_actions s f dir [action] False) m =
     (if chosen s dir [action] p
      then (Some (if action = Accept then IptReturn else IptDrop), m) else (None, m))"
proof -
  let ?rules = "ipt_append_direct_rules_for_actions s f dir [action] False"
  have "run_ipt jump lim p ?rules m =
      (if \<exists>r \<in> set ?rules. ipt_holds lim p m (ir_matches r)
       then (Some (if action = Accept then IptReturn else IptDrop), m) else (None, m))"
    by (rule ipt_block)
      (use assms(3) in \<open>auto simp: ipt_append_direct_rules_for_actions_def
        ipt_append_rule_verdict_def ipt_verdict_target_def\<close>)
  moreover have "(\<exists>r \<in> set ?rules. ipt_holds lim p m (ir_matches r)) \<longleftrightarrow> chosen s dir [action] p"
    using assms(3) unfolding chosen_def direct_rules_specs [symmetric]
    by (auto simp: ipt_append_direct_rules_for_actions_def ipt_append_rule_verdict_def
        direct_rules_def supported_selects [OF assms(1,2), of _ lim m dir False, symmetric])
  ultimately show ?thesis by simp
qed

lemma run_ipt_reverse:
  assumes "family_of (pk_src p) = f" "one_family p"
  shows "run_ipt jump lim p (ipt_append_reverse_rules s f dir) m =
     (if answers s dir p then (Some IptReturn, m) else (None, m))"
proof -
  let ?rules = "ipt_append_reverse_rules s f dir"
  have "run_ipt jump lim p ?rules m =
      (if \<exists>r \<in> set ?rules. ipt_holds lim p m (ir_matches r)
       then (Some IptReturn, m) else (None, m))"
    by (rule ipt_block)
      (auto simp: ipt_append_reverse_rules_def ipt_append_rule_verdict_def ipt_verdict_target_def)
  moreover have "(\<exists>r \<in> set ?rules. ipt_holds lim p m (ir_matches r)) \<longleftrightarrow> answers s dir p"
    unfolding answers_rules
    by (auto simp: ipt_append_reverse_rules_def ipt_append_rule_verdict_def reverse_rules_def
        supported_selects [OF assms, of _ lim m dir True, symmetric])
  ultimately show ?thesis by simp
qed

text \<open>A reject rule marks the connection and then refuses; what it matches does not depend on marks.\<close>

lemma rule_match_mark_free:
  assumes "family_of (pk_src p) = f" "supports_family r f"
  shows "ipt_holds lim p m (ipt_rule_match r dir is_reply) = ipt_holds lim p m' (ipt_rule_match r dir is_reply)"
  using rule_match_selects [OF assms] by simp

lemma run_ipt_reject:
  assumes "family_of (pk_src p) = f" "one_family p"
  shows "(\<not> chosen s Outbound [Reject] p \<longrightarrow>
      run_ipt jump lim p (ipt_append_direct_rules_for_actions s f Outbound [Reject] False) m = (None, m))
   \<and> (chosen s Outbound [Reject] p \<longrightarrow>
      fst (run_ipt jump lim p (ipt_append_direct_rules_for_actions s f Outbound [Reject] False) m)
        = Some IptReject)"
proof -
  have block: "(\<not> (\<exists>r \<in> set rs. ipt_holds lim p m (ipt_rule_match r Outbound False)) \<longrightarrow>
           run_ipt jump lim p (concat (map (\<lambda>r. ipt_append_rule_verdict r f Outbound False
             (spec_action (rule_spec r)) c) rs)) m = (None, m))
      \<and> ((\<exists>r \<in> set rs. ipt_holds lim p m (ipt_rule_match r Outbound False)) \<longrightarrow>
           fst (run_ipt jump lim p (concat (map (\<lambda>r. ipt_append_rule_verdict r f Outbound False
             (spec_action (rule_spec r)) c) rs)) m) = Some IptReject)"
    if "\<forall>r \<in> set rs. spec_action (rule_spec r) = Reject \<and> supports_family r f" for rs c
    using that
  proof (induction rs)
    case (Cons r rs)
    have "ipt_holds lim p (set_connection_mark p v m) (ipt_rule_match r Outbound False) =
        ipt_holds lim p m (ipt_rule_match r Outbound False)" for v
      using Cons.prems by (simp add: rule_match_mark_free [OF assms(1)])
    then show ?case
      using Cons by (auto simp: ipt_append_rule_verdict_def ipt_verdict_target_def reject_verdict_def)
  qed simp
  let ?rules = "sort_key ipt_order (filter (\<lambda>r. spec_enabled (rule_spec r)
      \<and> spec_direction (rule_spec r) = Outbound \<and> spec_application (rule_spec r) = None
      \<and> supports_family r f \<and> spec_action (rule_spec r) \<in> set [Reject]) (sn_rules s))"
  have "(\<exists>r \<in> set ?rules. ipt_holds lim p m (ipt_rule_match r Outbound False)) \<longleftrightarrow>
      chosen s Outbound [Reject] p"
    unfolding chosen_def direct_rules_specs [symmetric]
    by (auto simp: direct_rules_def supported_selects [OF assms, of _ lim m Outbound False, symmetric])
  then show ?thesis
    using block [of ?rules "application_reject_connmark (sn_flow_generation s)"]
    by (simp add: ipt_append_direct_rules_for_actions_def)
qed

lemma run_ipt_reject_replies:
  assumes "family_of (pk_src p) = f"
  shows "run_ipt jump lim p (ipt_reject_replies s f c counter) m =
     (if refusal_notice s p m then (Some IptReturn, m) else (None, m))"
proof -
  let ?rules = "ipt_append_generated_reject_reply_accept c f counter
      (application_reject_connmark (sn_flow_generation s))"
  have "run_ipt jump lim p ?rules m =
      (if \<exists>r \<in> set ?rules. ipt_holds lim p m (ir_matches r) then (Some IptReturn, m) else (None, m))"
    by (rule ipt_block) (auto simp: ipt_append_generated_reject_reply_accept_def)
  moreover have "(\<exists>r \<in> set ?rules. ipt_holds lim p m (ir_matches r)) \<longleftrightarrow>
      pk_ct_state p = CtRelated \<and> in_direction CtReply p \<and> refusal_payload f (pk_payload p)
      \<and> mk_connection m AND APPLICATION_CONNMARK_MASK
        = application_reject_connmark (sn_flow_generation s)"
    by (cases "pk_payload p"; cases f)
      (auto simp: ipt_append_generated_reject_reply_accept_def in_direction_def is_some_and_def
        split: option.splits)
  ultimately show ?thesis by (simp add: ipt_reject_replies_def refusal_notice_def assms)
qed

lemma run_ipt_dhcp:
  assumes "family_of (pk_src p) = f"
  shows "run_ipt jump lim p (ipt_append_dhcp_bootstrap_accepts f) m =
     (if dhcp_offer p then (Some IptReturn, m) else (None, m))"
proof -
  have "(\<exists>r \<in> set (ipt_append_dhcp_bootstrap_accepts f). ipt_holds lim p m (ir_matches r)) \<longleftrightarrow>
      dhcp_offer p"
    using assms by (cases "pk_payload p"; cases f)
      (auto simp: ipt_append_dhcp_bootstrap_accepts_def dhcp_offer_def)
  moreover have "target_outcome (ir_target r) = Some IptReturn"
    if "r \<in> set (ipt_append_dhcp_bootstrap_accepts f)" for r
    using that by (simp add: ipt_append_dhcp_bootstrap_accepts_def)
  ultimately show ?thesis using ipt_block [of "ipt_append_dhcp_bootstrap_accepts f"] by simp
qed

lemma icmp_holds:
  "hold_all lim p m (match_criteria (MIcmp ProtoIcmpV6 t code)) \<longleftrightarrow> control_message p t code"
  by (cases "pk_payload p"; cases code) (auto simp: control_message_def)

lemma source_type_holds:
  "hold_all lim p m (match_criteria (MSourceTypeNot scs)) \<longleftrightarrow>
     list_all (\<lambda>sc. holds lim p m (SrcNotScope sc)) scs"
  by (simp add: list_all_iff)

lemma ipt_control_plane_holds:
  assumes "family_of (pk_src p) = Ipv6"
  shows "(\<exists>sel \<in> set ipt_control_plane_selectors. ipt_holds lim p m sel) \<longleftrightarrow> control_plane p"
proof (cases "pk_payload p")
  case (IcmpV6Message t c)
  then have message: "control_message p t' code \<longleftrightarrow> t = t' \<and> is_none_or code (\<lambda>c'. c = c')" for t' code
    by (simp add: control_message_def)
  have criteria: "hold_all lim p m (match_criteria (MProtocol ProtoIcmpV6))"
    "hold_all lim p m (match_criteria (MHopLimit h)) \<longleftrightarrow> pk_hop_limit p = h"
    "hold_all lim p m (match_criteria (MConntrack [CtRelated] None None None)) \<longleftrightarrow> pk_ct_state p = CtRelated"
    "hold_all lim p m (match_criteria (MSourceScope sc)) \<longleftrightarrow> ipv6_source_is sc p"
    "hold_all lim p m (match_criteria (MDestinationScope sc)) \<longleftrightarrow> net_member (scope_net sc) (pk_dst p)"
    for h sc
    using assms IcmpV6Message by (simp_all add: ipv6_source_is_def)
  show ?thesis
    unfolding ipt_control_plane_selectors_def control_plane_def control_plane_message_def Let_def
    by (simp add: IcmpV6Message ipt_related_error_def criteria icmp_holds source_type_holds
        source_scope_holds message assms del: holds.simps match_criteria.simps scope_net.simps)
      argo
qed (simp_all add: ipt_control_plane_selectors_def ipt_related_error_def control_plane_def)

lemma run_ipt_control_plane:
  assumes "family_of (pk_src p) = f"
  shows "run_ipt jump lim p (ipt_append_ipv6_host_control_plane_accepts f) m =
     (if control_plane p then (Some IptReturn, m) else (None, m))"
proof (cases f)
  case Ipv4
  then show ?thesis
    using assms by (simp add: ipt_append_ipv6_host_control_plane_accepts_def control_plane_def)
next
  case Ipv6
  let ?rules = "map (\<lambda>sel. rule_in ChainIn (sel @ [counted CAcceptedIn]) TReturn) ipt_control_plane_selectors"
  have "run_ipt jump lim p ?rules m =
      (if \<exists>r \<in> set ?rules. ipt_holds lim p m (ir_matches r) then (Some IptReturn, m) else (None, m))"
    by (rule ipt_block) auto
  then show ?thesis
    using Ipv6 assms ipt_control_plane_holds [of p lim m]
    by (simp add: ipt_append_ipv6_host_control_plane_accepts_def)
qed

section \<open>Inbound traffic\<close>

lemma ipt_intercepted_holds:
  assumes "family_of (pk_src p) = f"
  shows "(\<exists>k \<in> set (ipt_intercepted f i). payload_protocol (pk_payload p) = Some k) \<longleftrightarrow> intercepted i p"
  using assms by (cases i; cases f)
    (auto simp: ipt_intercepted_def application_reply_protocols_def intercepted_def)

lemma ipt_flow_match_holds [simp]:
  "hold_all lim p m (match_criteria (ipt_flow_match s)) \<longleftrightarrow> flow_marked s p m"
  by (simp add: ipt_flow_match_def flow_marked_def)

lemma run_ipt_loopback:
  assumes "family_of (pk_src p) = f" "sn_mode s = Enforcing"
  shows "run_ipt jump lim p (ipt_append_application_loopback_accept s f dir i) m =
     (if intercepted i p \<and> flow_marked s p m
         \<and> (case dir of
              Inbound \<Rightarrow> pk_iif p = ascii ''lo'' \<and> in_direction CtOriginal p
                         \<and> pk_ct_state p \<in> {CtNew, CtEstablished}
            | Outbound \<Rightarrow> pk_oif p = ascii ''lo'' \<and> reply_of_established p)
      then (Some IptReturn, m) else (None, m))"
proof -
  let ?rules = "ipt_append_application_loopback_accept s f dir i"
  have "run_ipt jump lim p ?rules m =
      (if \<exists>r \<in> set ?rules. ipt_holds lim p m (ir_matches r) then (Some IptReturn, m) else (None, m))"
    by (rule ipt_block)
      (auto simp: ipt_append_application_loopback_accept_def split: if_splits direction.splits)
  moreover have "(\<exists>r \<in> set ?rules. ipt_holds lim p m (ir_matches r)) \<longleftrightarrow>
      (\<exists>k \<in> set (ipt_intercepted f i). payload_protocol (pk_payload p) = Some k)
      \<and> flow_marked s p m
      \<and> (case dir of
           Inbound \<Rightarrow> pk_iif p = ascii ''lo'' \<and> in_direction CtOriginal p
                      \<and> pk_ct_state p \<in> {CtNew, CtEstablished}
         | Outbound \<Rightarrow> pk_oif p = ascii ''lo'' \<and> reply_of_established p)"
    using assms(2) by (cases dir)
      (auto simp: ipt_append_application_loopback_accept_def reply_of_established_def in_direction_def)
  ultimately show ?thesis by (simp add: ipt_intercepted_holds [OF assms(1)])
qed

lemma run_ipt_inbound_flow:
  assumes "family_of (pk_src p) = f" "sn_mode s = Enforcing"
    and i: "i = snapshot_application_interception s"
  shows "run_ipt jump lim p (if i \<noteq> InterceptNone
      then ipt_append_application_loopback_accept s f Inbound i
           @ map (\<lambda>protocol. rule_in ChainIn
                    [MProtocol protocol, ctmatch [CtEstablished] CtReply, ipt_flow_match s,
                     counted CAcceptedIn] TReturn) (ipt_intercepted f i)
      else []) m =
     (if flow_reply s p m then (Some IptReturn, m) else (None, m))"
proof -
  let ?rules = "map (\<lambda>protocol. rule_in ChainIn
      [MProtocol protocol, ctmatch [CtEstablished] CtReply, ipt_flow_match s,
       counted CAcceptedIn] TReturn) (ipt_intercepted f i)"
  have "run_ipt jump lim p ?rules m =
      (if \<exists>r \<in> set ?rules. ipt_holds lim p m (ir_matches r) then (Some IptReturn, m) else (None, m))"
    by (rule ipt_block) auto
  moreover have "(\<exists>r \<in> set ?rules. ipt_holds lim p m (ir_matches r)) \<longleftrightarrow>
      (\<exists>k \<in> set (ipt_intercepted f i). payload_protocol (pk_payload p) = Some k)
      \<and> flow_marked s p m \<and> reply_of_established p"
    by (auto simp: reply_of_established_def in_direction_def)
  ultimately have "run_ipt jump lim p ?rules m =
      (if intercepted i p \<and> flow_marked s p m \<and> reply_of_established p
       then (Some IptReturn, m) else (None, m))"
    by (simp add: ipt_intercepted_holds [OF assms(1)])
  then show ?thesis
    unfolding flow_reply_def i [symmetric]
    by (simp add: run_ipt_append run_ipt_loopback [OF assms(1,2)]) (auto simp: intercepted_def)
qed

lemma run_ipt_reply_queues:
  assumes "family_of (pk_src p) = f" "one_family p"
  shows "run_ipt jump lim p (ipt_append_application_reply_queues s f) m =
     (if mk_packet m AND 0xc0000000 \<noteq> 0xc0000000
         \<and> (\<exists>r \<in> set (application_reply_candidates s).
              rule_selects (rule_spec r) Inbound True p
              \<and> hold_all True p m (echo_reply_selector (spec_protocol (rule_spec r))))
      then (Some (IptQueue APPLICATION_REPLY_QUEUE_NUMBER False), m) else (None, m))"
proof -
  let ?rules = "ipt_append_application_reply_queues s f"
  have "run_ipt jump lim p ?rules m =
      (if \<exists>r \<in> set ?rules. ipt_holds lim p m (ir_matches r)
       then (Some (IptQueue APPLICATION_REPLY_QUEUE_NUMBER False), m) else (None, m))"
    by (rule ipt_block) (auto simp: ipt_append_application_reply_queues_def)
  moreover have echo: "ipt_holds lim p m (ipt_echo_reply k) = hold_all True p m (echo_reply_selector k)" for k
    by (cases k) auto
  have "(\<exists>r \<in> set ?rules. ipt_holds lim p m (ir_matches r)) \<longleftrightarrow>
      mk_packet m AND 0xc0000000 \<noteq> 0xc0000000
      \<and> (\<exists>r \<in> set (application_reply_candidates s).
           rule_selects (rule_spec r) Inbound True p
           \<and> hold_all True p m (echo_reply_selector (spec_protocol (rule_spec r))))"
    by (auto simp: ipt_append_application_reply_queues_def echo APPLICATION_HANDOFF_DOMAIN_def
        APPLICATION_MARK_DOMAIN_MASK_def
        supported_selects [OF assms, of _ lim m Inbound True, symmetric])
  ultimately show ?thesis by simp
qed

lemma run_ipt_input_chain:
  assumes f: "family_of (pk_src p) = f" "one_family p" and mode: "sn_mode s = Enforcing"
    and i: "i = snapshot_application_interception s"
  shows "run_ipt jump lim p (ipt_append_input_chain s f i) m =
     (if inbound_allowed s p m \<or> flow_reply s p m then (Some IptReturn, m)
      else if pk_ct_state p \<noteq> CtInvalid \<and> reply_awaited s p m
      then (Some (IptQueue APPLICATION_REPLY_QUEUE_NUMBER False), m)
      else (Some IptDrop, m))"
proof -
  have active: "(if sn_mode s \<noteq> BlockAll then xs else ys) = xs"
    "(if sn_mode s = Learning then xs else ys) = ys" for xs ys :: "ipt_rule list"
    using mode by simp_all
  have queues: "run_ipt jump lim p (if sn_mode s = Enforcing \<and> i = PerPacket
        then ipt_append_application_reply_queues s f else []) m =
      (if reply_awaited s p m then (Some (IptQueue APPLICATION_REPLY_QUEUE_NUMBER False), m)
       else (None, m))" for m
    using mode i by (auto simp: run_ipt_reply_queues [OF f] reply_awaited_def)
  have invalid: "run_ipt jump lim p (ipt_append_invalid_drop c counter) m =
      (if pk_ct_state p = CtInvalid then (Some IptDrop, m) else (None, m))" for c counter m
    by (simp add: ipt_append_invalid_drop_def)
  have "flow_reply s p m \<longrightarrow> pk_ct_state p \<noteq> CtInvalid" "refusal_notice s p m \<longrightarrow> pk_ct_state p = CtRelated"
    by (auto simp: flow_reply_def reply_of_established_def refusal_notice_def)
  then show ?thesis
    unfolding ipt_append_input_chain_def active ipt_append_direct_rules_def run_ipt_append
      run_ipt_dhcp [OF f(1)] run_ipt_control_plane [OF f(1)] run_ipt_reject_replies [OF f(1)]
      run_ipt_inbound_flow [OF f(1) mode i] run_ipt_direct [OF f, of Accept, simplified]
      run_ipt_reverse [OF f] queues invalid chosen_meaning(1) [symmetric]
    by (auto simp: ipt_append_counted_verdict_def inbound_allowed_def)
qed

lemma ipt_inbound_step:
  assumes "family_of (pk_src p) = f" "one_family p" "sn_mode s = Enforcing"
  shows "fst (ipt_hook_run (Suc fuel) consume lim (ipt_chains_of s f cs) HookInput p m) =
     (if inbound_allowed s p m \<or> flow_reply s p m then Passed
      else if pk_ct_state p \<noteq> CtInvalid \<and> reply_awaited s p m
      then (case consume APPLICATION_REPLY_QUEUE_NUMBER p m of
              QueueAccept v \<Rightarrow> Passed
            | QueueRepeat v \<Rightarrow>
                fst (ipt_hook_run fuel consume lim (ipt_chains_of s f cs) HookInput p (m\<lparr>mk_packet := v\<rparr>))
            | _ \<Rightarrow> Discarded)
      else Discarded)"
proof -
  have "ipt_chains_of s f cs ChainIn = ownership_rule ChainIn
      # ipt_append_input_chain s f (snapshot_application_interception s)"
    by (simp add: chains_of rules_of_filter)
  note chain = run_owned_chain [of "ipt_chains_of s f cs", OF this, of 1]
  show ?thesis
    by (simp add: ipt_hook_run_def chain [unfolded Suc_1] run_ipt_input_chain [OF assms refl]
        split: queue_verdict.split)
qed

lemma ipt_inbound_verdict:
  assumes "family_of (pk_src p) = f" "one_family p" "sn_mode s = Enforcing"
    and "\<And>m' v. consume APPLICATION_REPLY_QUEUE_NUMBER p m' \<noteq> QueueAccept v"
  shows "fst (ipt_hook_run (Suc fuel) consume lim (ipt_chains_of s f cs) HookInput p m) = Passed \<longleftrightarrow>
     inbound_allowed s p m \<or> flow_reply s p m"
proof (induction fuel arbitrary: m)
  case 0
  have "fst (ipt_hook_run 0 consume lim (ipt_chains_of s f cs) HookInput p m') = Unfinished" for m'
    by (simp add: ipt_hook_run_def)
  then show ?case
    using assms(4) by (simp add: ipt_inbound_step [OF assms(1-3)] split: queue_verdict.split)
next
  case (Suc fuel)
  show ?case
    using assms(4)
    by (subst ipt_inbound_step [OF assms(1-3)])
      (simp add: Suc.IH inbound_ignores_packet_mark split: queue_verdict.split)
qed

section \<open>Marks\<close>

lemma set_xmark_domain:
  assumes "d AND APPLICATION_MARK_DOMAIN_MASK = d"
  shows "set_xmark d APPLICATION_MARK_DOMAIN_MASK x = (x AND APPLICATION_MARK_PAYLOAD_MASK) OR d"
proof -
  have "NOT APPLICATION_MARK_DOMAIN_MASK = APPLICATION_MARK_PAYLOAD_MASK" by code_simp
  moreover have "(x AND APPLICATION_MARK_PAYLOAD_MASK) AND d = 0"
    using mask_disjoint [of x] assms by (metis and.left_commute and_zero_eq)
  ultimately show ?thesis by (simp add: set_xmark_def disjunctive_xor_eq_or)
qed

lemma set_xmark_connection:
  "set_xmark 0 APPLICATION_CONNMARK_MASK x = x AND APPLICATION_CONNMARK_FOREIGN_MASK"
proof -
  have "NOT APPLICATION_CONNMARK_MASK = APPLICATION_CONNMARK_FOREIGN_MASK" by code_simp
  then show ?thesis by (simp add: set_xmark_def)
qed

lemma clears_domain [simp]:
  "m\<lparr>mk_packet := set_xmark 0 APPLICATION_MARK_DOMAIN_MASK (mk_packet m)\<rparr> = sanitised m"
  by (simp add: set_xmark_domain sanitised_def)

lemma run_sanitizer:
  "run_ipt jump lim p (ipt_append_reserved_mark_sanitizer c @ rs) m = run_ipt jump lim p rs (sanitised m)"
  using mask_split [of "mk_packet m"]
  by (auto simp: ipt_append_reserved_mark_sanitizer_def sanitised_def set_xmark_domain)

lemma sanitised_twice [simp]: "sanitised (sanitised m) = sanitised m"
  by (simp add: sanitised_def and.assoc)

lemma mangle_chains:
  assumes "sn_mode s \<noteq> Learning"
  shows "ipt_chains_of s f cs ChainMark = ownership_rule ChainMark
      # ipt_append_reserved_mark_sanitizer ChainMark @ [rule_in ChainMark [] TReturn]"
    "ipt_chains_of s f cs ChainObserve = ownership_rule ChainObserve
      # ipt_append_reserved_mark_sanitizer ChainObserve @ [rule_in ChainObserve [] TReturn]"
  using assms by (simp_all add: chains_of ipt_mangle_rules_def ownership_rule_def
      ipt_append_reserved_mark_sanitizer_def)

lemma run_mangle:
  assumes "sn_mode s \<noteq> Learning"
  shows "run_ipt_table (ipt_chains_of s f cs) lim p [ChainMark, ChainObserve] m = (IptReturn, sanitised m)"
proof -
  have "run_ipt_chain 2 (ipt_chains_of s f cs) lim p c m' = (IptReturn, sanitised m')"
    if "c \<in> {ChainMark, ChainObserve}" for c m'
    using run_owned_chain [of "ipt_chains_of s f cs", OF mangle_chains(1) [OF assms], of 1 lim p m']
      run_owned_chain [of "ipt_chains_of s f cs", OF mangle_chains(2) [OF assms], of 1 lim p m'] that
    by (auto simp: run_sanitizer numeral_2_eq_2 simp del: run_ipt_chain.simps)
  then show ?thesis by simp
qed

section \<open>Outbound traffic\<close>

lemma ipt_block_skipped:
  "\<forall>r \<in> set rs. \<not> ipt_holds lim p m (ir_matches r) \<Longrightarrow> run_ipt jump lim p rs m = (None, m)"
  by (induction rs) auto

lemma ipt_holds_member:
  "ipt_holds lim p m ms \<Longrightarrow> c \<in> set ms \<Longrightarrow> hold_all lim p m (match_criteria c)"
  by (auto simp: ipt_holds_def list_all_iff)

lemma non_tcp_of_family:
  assumes "family_of (pk_src p) = f"
  shows "(\<exists>k \<in> set (application_non_tcp_protocols f). payload_protocol (pk_payload p) = Some k) \<longleftrightarrow>
     attributed_per_packet p"
  using assms by (cases f) (auto simp: application_non_tcp_protocols_def attributed_per_packet_def)

lemma verdict_marks_silent:
  assumes "domain_of m \<notin> {APPLICATION_REJECT_DOMAIN, APPLICATION_HANDOFF_DOMAIN}"
  shows "run_ipt jump lim p (ipt_verdict_mark_rules s f i) m = (None, m)"
proof (rule ipt_block_skipped, rule ballI)
  fix r assume "r \<in> set (ipt_verdict_mark_rules s f i)"
  then have "reject_marked \<in> set (ir_matches r) \<or> handoff_marked \<in> set (ir_matches r)"
    by (auto simp: ipt_verdict_mark_rules_def split: if_splits)
  then show "\<not> ipt_holds lim p m (ir_matches r)"
    using assms ipt_holds_member [of lim p m "ir_matches r" reject_marked]
      ipt_holds_member [of lim p m "ir_matches r" handoff_marked]
    by (auto simp: reject_marked_def handoff_marked_def)
qed

lemma verdict_marks_reject:
  assumes "domain_of m = APPLICATION_REJECT_DOMAIN"
  shows "fst (run_ipt jump lim p (ipt_verdict_mark_rules s f i @ rs) m) = Some IptReject"
proof -
  have "mk_packet (set_connection_mark p v m) = mk_packet m" for v
    by (simp add: set_connection_mark_def)
  then show ?thesis
    using assms by (simp add: ipt_verdict_mark_rules_def reject_marked_def reject_verdict_def)
qed

lemma verdict_marks_handoff:
  assumes "family_of (pk_src p) = f" "domain_of m = APPLICATION_HANDOFF_DOMAIN" "intercepted i p"
  obtains c where "c \<in> {ChainAppTcp, ChainAppPacket}" "c = ChainAppPacket \<longrightarrow> i = PerPacket"
    and "run_ipt jump lim p (ipt_verdict_mark_rules s f i @ rs) m =
           (Some (fst (jump c m)), snd (jump c m))"
proof (cases "payload_protocol (pk_payload p) = Some ProtoTcp")
  case True
  then show thesis
    using that [of ChainAppTcp] assms(2)
    by (simp add: ipt_verdict_mark_rules_def reject_marked_def handoff_marked_def split: prod.split)
next
  case False
  then have "i = PerPacket" "attributed_per_packet p"
    using assms(3) by (cases i; auto simp: intercepted_def attributed_per_packet_def)+
  moreover then have "payload_protocol (pk_payload p) \<in> Some ` set (application_non_tcp_protocols f)"
    using non_tcp_of_family [OF assms(1)] by auto
  ultimately show thesis
    using that [of ChainAppPacket] assms(2) False
    by (cases f) (auto simp: ipt_verdict_mark_rules_def reject_marked_def handoff_marked_def
        application_non_tcp_protocols_def split: prod.split)
qed

lemma application_chain_returns:
  assumes "c \<in> {ChainAppTcp, ChainAppPacket}" "c = ChainAppPacket \<longrightarrow> i = PerPacket"
    and i: "i = snapshot_application_interception s" "i \<noteq> InterceptNone"
  shows "fst (run_ipt_chain (Suc depth) (ipt_chains_of s f cs) lim p c m) = IptReturn"
proof -
  have other: "rules_of c (ipt_append_input_chain s f i) = []"
    "rules_of c (ipt_append_output_chain s f i) = []"
    "rules_of c (ipt_append_forward_chain (sn_mode s)) = []"
    using assms(1) input_rules_chain [of s f i] output_rules_chain [of s f i]
      forward_rules_chain [of "sn_mode s"]
    by (auto intro!: rules_of_other)
  have "ipt_chains_of s f cs c =
      ownership_rule c # ipt_application_chain s c @ ipt_append_counted_verdict c CDroppedOut"
    using assms(1,2) i other
    by (auto simp: chains_of ipt_filter_rules_def owned_chains_def ownership_rule_def
        ipt_append_application_chains_def ipt_application_chain_def
        ipt_append_clear_reserved_mark_def ipt_append_application_accept_def
        ipt_append_counted_verdict_def)
  from run_owned_chain [of "ipt_chains_of s f cs", OF this, of depth lim p m] show ?thesis
    by (simp add: ipt_application_chain_def ipt_append_clear_reserved_mark_def
        ipt_append_application_accept_def del: run_ipt_chain.simps)
qed

lemma run_ipt_connmark_reset:
  assumes "family_of (pk_src p) = f"
  shows "run_ipt jump lim p
      (map (\<lambda>protocol. rule_in ChainOut [MProtocol protocol, in_original_direction]
              (TConnmark 0 APPLICATION_CONNMARK_MASK)) (application_non_tcp_protocols f)) m =
     (None, if in_direction CtOriginal p \<and> attributed_per_packet p
            then m\<lparr>mk_connection := mk_connection m AND APPLICATION_CONNMARK_FOREIGN_MASK\<rparr> else m)"
proof -
  have reset: "set_connection_mark p (set_xmark 0 APPLICATION_CONNMARK_MASK (mk_connection m)) m =
      m\<lparr>mk_connection := mk_connection m AND APPLICATION_CONNMARK_FOREIGN_MASK\<rparr>"
    if "in_direction CtOriginal p"
    using that by (auto simp: set_connection_mark_def set_xmark_connection in_direction_def)
  show ?thesis
    using assms by (cases f; cases "pk_payload p")
      (auto simp: application_non_tcp_protocols_def attributed_per_packet_def reset)
qed

lemma run_ipt_outbound_flow:
  assumes f: "family_of (pk_src p) = f" and mode: "sn_mode s = Enforcing"
    and i: "i = snapshot_application_interception s"
  shows "run_ipt jump lim p
      (if i \<noteq> InterceptNone then ipt_outbound_flow_rules s f i else []) m =
     (if flow_continues s p m then (Some IptReturn, m) else (None, forget_flow s p m))"
  by (cases "i = InterceptNone"; cases "i = PerPacket")
    (auto simp: ipt_outbound_flow_rules_def run_ipt_append run_ipt_loopback [OF f mode]
      run_ipt_connmark_reset [OF f] flow_continues_def forget_flow_def i [symmetric]
      reply_of_established_def in_direction_def)

lemma ipt_application_selects:
  assumes "family_of (pk_src p) = f" "one_family p"
  shows "(\<exists>r \<in> set (ipt_application_rules s f actions).
       ipt_holds lim p m (ipt_rule_match r Outbound False)) \<longleftrightarrow> concerns_application s actions p"
  by (auto simp: ipt_application_rules_def concerns_application_def application_specs_def
      application_rules_def supported_selects [OF assms, of _ lim m Outbound False, symmetric])

lemma pending_mark:
  "m\<lparr>mk_packet := set_xmark APPLICATION_PENDING_DOMAIN APPLICATION_MARK_DOMAIN_MASK (mk_packet m)\<rparr>
   = in_domain APPLICATION_PENDING_DOMAIN m"
proof -
  have "APPLICATION_PENDING_DOMAIN AND APPLICATION_MARK_DOMAIN_MASK = APPLICATION_PENDING_DOMAIN"
    by (simp add: domain_defs)
  then show ?thesis by (simp add: in_domain_def set_xmark_domain)
qed

lemma run_ipt_application_queues:
  assumes f: "family_of (pk_src p) = f" "one_family p"
  shows "run_ipt jump lim p (ipt_append_application_rule_queues s f actions) m =
     (if in_direction CtOriginal p \<and> concerns_application s actions p
      then (Some (IptQueue APPLICATION_QUEUE_NUMBER False), in_domain APPLICATION_PENDING_DOMAIN m)
      else (None, m))"
proof -
  let ?pair = "\<lambda>r.
      [rule_in ChainOut (ipt_rule_match r Outbound False @ [in_original_direction])
         (TMark APPLICATION_PENDING_DOMAIN APPLICATION_MARK_DOMAIN_MASK),
       rule_in ChainOut (ipt_rule_match r Outbound False @ [in_original_direction])
         (TQueue APPLICATION_QUEUE_NUMBER)]"
  have block: "run_ipt jump lim p (concat (map ?pair rs)) m =
      (if in_direction CtOriginal p
          \<and> (\<exists>r \<in> set rs. ipt_holds lim p m (ipt_rule_match r Outbound False))
       then (Some (IptQueue APPLICATION_QUEUE_NUMBER False), in_domain APPLICATION_PENDING_DOMAIN m)
       else (None, m))"
    if "\<forall>r \<in> set rs. supports_family r f" for rs
    using that
  proof (induction rs)
    case (Cons r rs)
    have "ipt_holds lim p (in_domain d m) (ipt_rule_match r Outbound False) =
        ipt_holds lim p m (ipt_rule_match r Outbound False)" for d
      using Cons.prems by (intro rule_match_mark_free [OF f(1)]) simp
    moreover have "run_ipt jump lim p (concat (map ?pair rs)) m =
        (if in_direction CtOriginal p
            \<and> (\<exists>r \<in> set rs. ipt_holds lim p m (ipt_rule_match r Outbound False))
         then (Some (IptQueue APPLICATION_QUEUE_NUMBER False), in_domain APPLICATION_PENDING_DOMAIN m)
         else (None, m))"
      using Cons by simp
    ultimately show ?case
      by (cases "in_direction CtOriginal p"; cases "ipt_holds lim p m (ipt_rule_match r Outbound False)")
        (simp_all add: pending_mark)
  qed simp
  have "\<forall>r \<in> set (ipt_application_rules s f actions). supports_family r f"
    by (simp add: ipt_application_rules_def)
  from block [OF this] show ?thesis
    by (simp only: ipt_append_application_rule_queues_def ipt_application_selects [OF f])
qed

definition ipt_guarded :: "snapshot \<Rightarrow> rule_action list \<Rightarrow> packet \<Rightarrow> bool" where
  "ipt_guarded s actions p \<longleftrightarrow>
     (\<exists>spec \<in> application_specs s actions.
        (pk_ct_state p = CtUntracked \<and> rule_selects spec Outbound False p)
        \<or> (in_direction CtOriginal p \<and> originally_selects spec p))"

lemma originally_supported:
  assumes "family_of (pk_src p) = f" "one_family p" "originally_selects (rule_spec r) p"
  shows "supports_family r f"
proof -
  have "is_none_or (spec_peer_network (rule_spec r)) (\<lambda>n. net_family n = f)"
    "protocol_selects (spec_protocol (rule_spec r)) p"
    using assms net_member_family
    by (auto simp: originally_selects_def one_family_def is_none_or_def is_some_and_def
        split: option.splits)
  then show ?thesis
    using assms(1) unfolding supports_family_def
    by (cases "spec_protocol (rule_spec r)"; cases "spec_peer_network (rule_spec r)"; cases f)
      (auto elim: net_family.elims)
qed

lemma original_match_holds:
  assumes "family_of (pk_src p) = f" "supports_family r f"
  shows "\<not> (spec_peer_network (rule_spec r) = None \<and> spec_port (rule_spec r) = None)
       \<and> ipt_holds lim p m (ipt_original_match r) \<longleftrightarrow>
     in_direction CtOriginal p \<and> originally_selects (rule_spec r) p"
proof -
  have "ipt_holds lim p m (ipt_protocol_match (spec_protocol (rule_spec r))) \<longleftrightarrow>
      protocol_selects (spec_protocol (rule_spec r)) p"
    using assms by (simp add: ipt_protocol_holds supports_family_def)
  then show ?thesis
    by (auto simp: ipt_original_match_def originally_selects_def in_direction_def is_none_or_def
        split: option.splits)
qed

lemma run_ipt_guards:
  assumes f: "family_of (pk_src p) = f" "one_family p"
  shows "run_ipt jump lim p (ipt_append_application_candidate_guard_drops s f actions) m =
     (if ipt_guarded s actions p then (Some IptDrop, m) else (None, m))"
proof -
  let ?rules = "ipt_append_application_candidate_guard_drops s f actions"
  have "run_ipt jump lim p ?rules m =
      (if \<exists>r \<in> set ?rules. ipt_holds lim p m (ir_matches r) then (Some IptDrop, m) else (None, m))"
    by (rule ipt_block) (auto simp: ipt_append_application_candidate_guard_drops_def split: if_splits)
  moreover have "(\<exists>r \<in> set ?rules. ipt_holds lim p m (ir_matches r)) \<longleftrightarrow>
      (\<exists>r \<in> set (ipt_application_rules s f actions).
         (pk_ct_state p = CtUntracked \<and> ipt_holds lim p m (ipt_rule_match r Outbound False))
         \<or> (\<not> (spec_peer_network (rule_spec r) = None \<and> spec_port (rule_spec r) = None)
            \<and> ipt_holds lim p m (ipt_original_match r)))"
    unfolding ipt_append_application_candidate_guard_drops_def
    by (simp add: bex_Un) (rule bex_cong [OF refl], auto)
  moreover have "\<dots> \<longleftrightarrow> ipt_guarded s actions p"
    unfolding ipt_guarded_def application_specs_def
    using supported_selects [OF f, of _ lim m Outbound False] original_match_holds [OF f(1), of _ lim m]
      originally_supported [OF f]
    by (auto simp: ipt_application_rules_def application_rules_def)
  ultimately show ?thesis by simp
qed

text \<open>The part of the output chain behind the network denies.\<close>

definition ipt_outbound_tail ::
    "snapshot \<Rightarrow> ip_family \<Rightarrow> application_interception \<Rightarrow> ipt_rule list" where
  "ipt_outbound_tail s f i =
     (if i \<noteq> InterceptNone then ipt_outbound_flow_rules s f i else [])
     @ ipt_append_reverse_rules s f Outbound
     @ ipt_append_application_rule_queues s f [Drop, Reject, Accept]
     @ ipt_append_application_candidate_guard_drops s f [Drop, Reject, Accept]
     @ ipt_append_direct_rules_for_actions s f Outbound [Accept] False
     @ ipt_append_counted_verdict ChainOut CDroppedOut"

lemma output_chain_parts:
  assumes "sn_mode s = Enforcing"
  shows "ipt_append_output_chain s f i =
     ipt_append_invalid_drop ChainOut CDroppedOut @ ipt_reject_replies s f ChainOut CAcceptedOut
     @ ipt_append_direct_rules_for_actions s f Outbound [Drop] False
     @ ipt_append_direct_rules_for_actions s f Outbound [Reject] False
     @ (if i \<noteq> InterceptNone then ipt_verdict_mark_rules s f i else []) @ ipt_outbound_tail s f i"
  using assms by (simp add: ipt_append_output_chain_def ipt_outbound_tail_def)

lemma run_ipt_head:
  assumes f: "family_of (pk_src p) = f" "one_family p" and "sn_mode s = Enforcing"
  shows "refusal_notice s p m \<Longrightarrow>
      run_ipt jump lim p (ipt_append_output_chain s f i) m = (Some IptReturn, m)"
    "\<not> refusal_notice s p m \<Longrightarrow> pk_ct_state p = CtInvalid \<or> denies s p \<Longrightarrow>
      fst (run_ipt jump lim p (ipt_append_output_chain s f i) m) \<in> {Some IptDrop, Some IptReject}"
    "\<not> refusal_notice s p m \<Longrightarrow> pk_ct_state p \<noteq> CtInvalid \<Longrightarrow> \<not> denies s p \<Longrightarrow>
      run_ipt jump lim p (ipt_append_output_chain s f i) m =
      run_ipt jump lim p
        ((if i \<noteq> InterceptNone then ipt_verdict_mark_rules s f i else []) @ ipt_outbound_tail s f i) m"
proof -
  have invalid: "run_ipt jump lim p (ipt_append_invalid_drop ChainOut CDroppedOut) m =
      (if pk_ct_state p = CtInvalid then (Some IptDrop, m) else (None, m))" for m
    by (simp add: ipt_append_invalid_drop_def)
  have related: "refusal_notice s p m \<Longrightarrow> pk_ct_state p = CtRelated"
    by (simp add: refusal_notice_def)
  note head = output_chain_parts [OF assms(3)] run_ipt_append invalid run_ipt_reject_replies [OF f(1)]
    run_ipt_direct [OF f, of Drop, simplified]
  note reject = run_ipt_reject [OF f, of s jump lim m]
  show "run_ipt jump lim p (ipt_append_output_chain s f i) m = (Some IptReturn, m)"
    if "refusal_notice s p m"
    using that related by (simp add: head)
  show "fst (run_ipt jump lim p (ipt_append_output_chain s f i) m) \<in> {Some IptDrop, Some IptReject}"
    if "\<not> refusal_notice s p m" "pk_ct_state p = CtInvalid \<or> denies s p"
    using that reject chosen_meaning(2) [of s p]
    by (cases "run_ipt jump lim p (ipt_append_direct_rules_for_actions s f Outbound [Reject] False) m")
      (auto simp: head)
  show "run_ipt jump lim p (ipt_append_output_chain s f i) m =
      run_ipt jump lim p
        ((if i \<noteq> InterceptNone then ipt_verdict_mark_rules s f i else []) @ ipt_outbound_tail s f i) m"
    if "\<not> refusal_notice s p m" "pk_ct_state p \<noteq> CtInvalid" "\<not> denies s p"
    using that reject chosen_meaning(2) [of s p] by (simp add: head)
qed

lemma run_ipt_tail:
  assumes f: "family_of (pk_src p) = f" "one_family p" and "sn_mode s = Enforcing"
    and i: "i = snapshot_application_interception s"
  shows "run_ipt jump lim p (ipt_outbound_tail s f i) m =
     (if flow_continues s p m then (Some IptReturn, m)
      else if answers s Outbound p then (Some IptReturn, forget_flow s p m)
      else if in_direction CtOriginal p \<and> concerns_application s [Drop, Reject, Accept] p
      then (Some (IptQueue APPLICATION_QUEUE_NUMBER False),
            in_domain APPLICATION_PENDING_DOMAIN (forget_flow s p m))
      else if ipt_guarded s [Drop, Reject, Accept] p then (Some IptDrop, forget_flow s p m)
      else if admits s Outbound p then (Some IptReturn, forget_flow s p m)
      else (Some IptDrop, forget_flow s p m))"
  unfolding ipt_outbound_tail_def run_ipt_append run_ipt_outbound_flow [OF f(1) assms(3) i]
    run_ipt_reverse [OF f] run_ipt_application_queues [OF f] run_ipt_guards [OF f]
    run_ipt_direct [OF f, of Accept, simplified] chosen_meaning(1) [symmetric]
  by (simp add: ipt_append_counted_verdict_def)

definition ipt_lets_pass :: "queue_consumer \<Rightarrow> snapshot \<Rightarrow> packet \<Rightarrow> marks \<Rightarrow> bool" where
  "ipt_lets_pass consume s p m \<longleftrightarrow>
     (case consume APPLICATION_QUEUE_NUMBER p
             (in_domain APPLICATION_PENDING_DOMAIN (forget_flow s p m)) of
        QueueAccept v \<Rightarrow> True
      | QueueRepeat v \<Rightarrow> v AND APPLICATION_MARK_DOMAIN_MASK = APPLICATION_HANDOFF_DOMAIN
      | _ \<Rightarrow> False)"

definition ipt_outbound_passes :: "queue_consumer \<Rightarrow> snapshot \<Rightarrow> packet \<Rightarrow> marks \<Rightarrow> bool" where
  "ipt_outbound_passes consume s p m \<longleftrightarrow>
     refusal_notice s p m
     \<or> (pk_ct_state p \<noteq> CtInvalid \<and> \<not> denies s p
        \<and> (flow_continues s p m \<or> answers s Outbound p
           \<or> (if in_direction CtOriginal p \<and> concerns_application s [Drop, Reject, Accept] p
              then ipt_lets_pass consume s p m
              else \<not> ipt_guarded s [Drop, Reject, Accept] p \<and> admits s Outbound p)))"

lemma output_chain_of:
  "run_ipt_table (ipt_chains_of s f cs) lim p [ChainOut] m =
     (case run_ipt (run_ipt_chain 1 (ipt_chains_of s f cs) lim p) lim p
             (ipt_append_output_chain s f (snapshot_application_interception s)) m of
        (Some v, m') \<Rightarrow> (v, m')
      | (None, m') \<Rightarrow> (IptReturn, m'))"
proof -
  have "ipt_chains_of s f cs ChainOut = ownership_rule ChainOut
      # ipt_append_output_chain s f (snapshot_application_interception s)"
    by (simp add: chains_of rules_of_filter)
  from run_owned_chain [of "ipt_chains_of s f cs", OF this, of 1 lim p m] show ?thesis
    by (cases "run_ipt_chain 2 (ipt_chains_of s f cs) lim p ChainOut m")
      (auto simp: numeral_2_eq_2 split: ipt_outcome.split simp del: run_ipt_chain.simps)
qed

lemma fresh_pass:
  assumes f: "family_of (pk_src p) = f" "one_family p" and mode: "sn_mode s = Enforcing"
    and "domain_of m = 0" "\<not> refusal_notice s p m" "pk_ct_state p \<noteq> CtInvalid" "\<not> denies s p"
  shows "run_ipt jump lim p (ipt_append_output_chain s f (snapshot_application_interception s)) m =
     run_ipt jump lim p (ipt_outbound_tail s f (snapshot_application_interception s)) m"
proof -
  have "domain_of m \<notin> {APPLICATION_REJECT_DOMAIN, APPLICATION_HANDOFF_DOMAIN}"
    using assms(4) domains(7,9) by auto
  then show ?thesis
    by (simp add: run_ipt_head(3) [OF f mode assms(5-7)] run_ipt_append verdict_marks_silent)
qed

lemma repeated_pass:
  assumes f: "family_of (pk_src p) = f" "one_family p" and mode: "sn_mode s = Enforcing"
    and i: "i = snapshot_application_interception s" "i \<noteq> InterceptNone"
    and "\<not> refusal_notice s p m" "pk_ct_state p \<noteq> CtInvalid" "\<not> denies s p"
    and verdict: "domain_of m = APPLICATION_REJECT_DOMAIN
      \<or> domain_of m = APPLICATION_HANDOFF_DOMAIN \<and> intercepted i p"
  shows "fst (run_ipt_table (ipt_chains_of s f cs) lim p [ChainOut] m) =
     (if domain_of m = APPLICATION_HANDOFF_DOMAIN then IptReturn else IptReject)"
proof (cases "domain_of m = APPLICATION_HANDOFF_DOMAIN")
  case True
  then have "intercepted i p" using verdict by auto
  then obtain c where c: "c \<in> {ChainAppTcp, ChainAppPacket}" "c = ChainAppPacket \<longrightarrow> i = PerPacket"
    and run: "run_ipt (run_ipt_chain 1 (ipt_chains_of s f cs) lim p) lim p
        (ipt_verdict_mark_rules s f i @ ipt_outbound_tail s f i) m =
      (Some (fst (run_ipt_chain 1 (ipt_chains_of s f cs) lim p c m)),
       snd (run_ipt_chain 1 (ipt_chains_of s f cs) lim p c m))"
    by (rule verdict_marks_handoff [OF f(1) True])
  then show ?thesis
    using True i application_chain_returns [OF c i, of 0 f cs lim p m]
    by (simp add: output_chain_of run_ipt_head(3) [OF f mode assms(6-8)]
          del: run_ipt_chain.simps run_ipt_table.simps)
next
  case False
  then have "domain_of m = APPLICATION_REJECT_DOMAIN" using verdict by auto
  from verdict_marks_reject [OF this, of "run_ipt_chain 1 (ipt_chains_of s f cs) lim p" lim p s f i
      "ipt_outbound_tail s f i"]
  show ?thesis
    using False i
    by (cases "run_ipt (run_ipt_chain 1 (ipt_chains_of s f cs) lim p) lim p
          (ipt_verdict_mark_rules s f i @ ipt_outbound_tail s f i) m")
      (simp add: output_chain_of run_ipt_head(3) [OF f mode assms(6-8)]
          del: run_ipt_chain.simps run_ipt_table.simps)
qed

lemma concerned_intercepts:
  assumes "concerns_application s actions p" "sn_mode s = Enforcing"
  shows "snapshot_application_interception s \<noteq> InterceptNone"
  using assms no_interception [of s actions]
  by (auto simp: concerns_application_def application_specs_def)

lemma one_direction: "in_direction CtOriginal p \<Longrightarrow> \<not> in_direction CtReply p"
  by (auto simp: in_direction_def is_some_and_def split: option.splits)

lemma ipt_outbound_verdict:
  assumes f: "family_of (pk_src p) = f" "one_family p" and mode: "sn_mode s = Enforcing"
    and verdicts: "\<And>m' v. consume APPLICATION_QUEUE_NUMBER p m' = QueueRepeat v \<Longrightarrow>
      v AND APPLICATION_MARK_DOMAIN_MASK = APPLICATION_REJECT_DOMAIN
      \<or> v AND APPLICATION_MARK_DOMAIN_MASK = APPLICATION_HANDOFF_DOMAIN
        \<and> intercepted (snapshot_application_interception s) p"
    and "3 \<le> fuel"
  shows "fst (ipt_hook_run fuel consume lim (ipt_chains_of s f cs) HookOutput p m) = Passed \<longleftrightarrow>
     ipt_outbound_passes consume s p m"
proof -
  obtain n where fuel: "fuel = Suc (Suc (Suc n))" using assms(5) by (rule three_steps)
  let ?cs = "ipt_chains_of s f cs" and ?i = "snapshot_application_interception s"
  let ?m = "sanitised m" and ?q = "in_domain APPLICATION_PENDING_DOMAIN (forget_flow s p m)"
  have run: "ipt_hook_run fuel consume lim ?cs HookOutput p m =
      ipt_traverse (Suc (Suc n)) consume ?cs lim p [[ChainOut]] ?m"
    using mode by (simp add: fuel ipt_hook_run_def run_mangle del: run_ipt_table.simps)
  note step = ipt_traverse.simps(3) [of "Suc n" consume ?cs lim p "[ChainOut]" "[]" ?m]
  show ?thesis
  proof (cases "refusal_notice s p m \<or> pk_ct_state p = CtInvalid \<or> denies s p")
    case True
    then show ?thesis
      using run_ipt_head(1,2) [OF f mode, of ?m "run_ipt_chain 1 ?cs lim p" lim ?i]
      by (cases "run_ipt (run_ipt_chain 1 ?cs lim p) lim p (ipt_append_output_chain s f ?i) ?m")
        (auto simp: run step output_chain_of sanitised_marks ipt_outbound_passes_def
          simp del: ipt_traverse.simps(3) run_ipt_chain.simps run_ipt_table.simps)
  next
    case False
    then have tail: "run_ipt (run_ipt_chain 1 ?cs lim p) lim p (ipt_append_output_chain s f ?i) ?m =
        run_ipt (run_ipt_chain 1 ?cs lim p) lim p (ipt_outbound_tail s f ?i) ?m"
      by (intro fresh_pass [OF f mode]) (simp_all add: sanitised_marks)
    have repeat: "fst (ipt_traverse (Suc n) consume ?cs lim p [[ChainOut]] (?q\<lparr>mk_packet := v\<rparr>)) = Passed
        \<longleftrightarrow> v AND APPLICATION_MARK_DOMAIN_MASK = APPLICATION_HANDOFF_DOMAIN"
      if "consume APPLICATION_QUEUE_NUMBER p ?q = QueueRepeat v" "in_direction CtOriginal p"
        "concerns_application s [Drop, Reject, Accept] p" for v
    proof -
      have "\<not> refusal_notice s p (?q\<lparr>mk_packet := v\<rparr>)"
        using that(2) one_direction by (auto simp: refusal_notice_def)
      then show ?thesis
        using repeated_pass [OF f mode refl concerned_intercepts [OF that(3) mode], of "?q\<lparr>mk_packet := v\<rparr>" cs lim]
          verdicts [OF that(1)] False
        by (cases "run_ipt_table ?cs lim p [ChainOut] (?q\<lparr>mk_packet := v\<rparr>)")
          (auto simp del: run_ipt_table.simps)
    qed
    show ?thesis
      using False repeat
      by (simp add: run step output_chain_of tail run_ipt_tail [OF f mode refl] sanitised_marks
          ipt_outbound_passes_def ipt_lets_pass_def split: queue_verdict.split
          del: ipt_traverse.simps(3) run_ipt_chain.simps run_ipt_table.simps One_nat_def)
  qed
qed

section \<open>The other modes\<close>

lemma run_single_chain:
  assumes "ipt_chains_of s f cs c = ownership_rule c # rs"
    and "run_ipt (run_ipt_chain 1 (ipt_chains_of s f cs) lim p) lim p rs m = (Some v, m')"
  shows "run_ipt_table (ipt_chains_of s f cs) lim p [c] m = (v, m')"
  using run_owned_chain [of "ipt_chains_of s f cs", OF assms(1), of 1 lim p m] assms(2)
  by (cases v) (simp_all add: numeral_2_eq_2 del: run_ipt_chain.simps)

lemma ipt_block_all:
  assumes "sn_mode s = BlockAll" "3 \<le> fuel"
  shows "fst (ipt_hook_run fuel consume lim (ipt_chains_of s f cs) h p m) = Discarded"
proof -
  obtain n where fuel: "fuel = Suc (Suc (Suc n))" using assms(2) by (rule three_steps)
  have drops: "run_ipt_table (ipt_chains_of s f cs) lim p [c] m' = (IptDrop, m')"
    if "c \<in> {ChainIn, ChainOut, ChainForward}" for c m'
  proof (rule run_single_chain)
    show "ipt_chains_of s f cs c = ownership_rule c # ipt_append_counted_verdict c
        (if c = ChainIn then CDroppedIn else CDroppedOut)"
      using that assms(1)
      by (auto simp: chains_of rules_of_filter ipt_append_input_chain_def
          ipt_append_output_chain_def ipt_append_forward_chain_def)
  qed (simp add: ipt_append_counted_verdict_def)
  have "sn_mode s \<noteq> Learning" using assms(1) by simp
  then show ?thesis
    by (cases h) (simp_all add: fuel ipt_hook_run_def drops run_mangle del: run_ipt_table.simps)
qed

lemma ipt_forward_open:
  assumes "sn_mode s \<noteq> BlockAll"
  shows "fst (ipt_hook_run (Suc fuel) consume lim (ipt_chains_of s f cs) HookForward p m) = Passed"
proof -
  have "run_ipt_table (ipt_chains_of s f cs) lim p [ChainForward] m = (IptReturn, m)"
    by (rule run_single_chain [where rs = "ipt_append_forward_chain (sn_mode s)"])
      (use assms in \<open>simp_all add: chains_of rules_of_filter ipt_append_forward_chain_def\<close>)
  then show ?thesis by (simp add: ipt_hook_run_def del: run_ipt_table.simps)
qed

section \<open>Verdicts\<close>

text \<open>C7: The restored iptables chains of a family treat every packet of that family as the policy
  says: in Enforcing an inbound packet passes exactly when the network policy allows it or it belongs
  to an authorised application flow, and an outbound packet exactly when no network deny
  matches and it is answered, admitted, authorised earlier or let pass by the queue
  consumer, whatever the chains held before the restore. The consumers answer as the daemon does:
  a reply is repeated or dropped, and a repeated packet carries the reject domain or, for a
  protocol that is intercepted, the handoff domain.\<close>

theorem ipt_verdicts_exact:
  assumes "family_of (pk_src p) = f" "one_family p" "sn_mode s = Enforcing"
    and "\<And>m' v. consume APPLICATION_REPLY_QUEUE_NUMBER p m' \<noteq> QueueAccept v"
    and "\<And>m' v. consume APPLICATION_QUEUE_NUMBER p m' = QueueRepeat v \<Longrightarrow>
      v AND APPLICATION_MARK_DOMAIN_MASK = APPLICATION_REJECT_DOMAIN
      \<or> v AND APPLICATION_MARK_DOMAIN_MASK = APPLICATION_HANDOFF_DOMAIN
        \<and> intercepted (snapshot_application_interception s) p"
    and "3 \<le> fuel"
  shows "(fst (ipt_hook_run fuel consume lim (ipt_chains_of s f cs) HookInput p m) = Passed \<longleftrightarrow>
      inbound_allowed s p m \<or> flow_reply s p m)
    \<and> (fst (ipt_hook_run fuel consume lim (ipt_chains_of s f cs) HookOutput p m) = Passed \<longleftrightarrow>
      ipt_outbound_passes consume s p m)"
proof -
  obtain n where fuel: "fuel = Suc (Suc (Suc n))" using assms(6) by (rule three_steps)
  show ?thesis
    using ipt_inbound_verdict [OF assms(1-3), of consume "Suc (Suc n)" lim cs m]
      ipt_outbound_verdict [OF assms(1-3), of consume fuel lim cs m] assms(4-6)
    unfolding fuel by blast
qed

theorem ipt_verdicts_exact_witness:
  "fst (ipt_hook_run 3 (\<lambda>_ _ _. QueueDrop) True
       (ipt_chains_of (sample_policy Enforcing [sample_web, sample_deny]) Ipv4 (\<lambda>_. []))
       HookOutput (sample_packet CtNew CtOriginal (IpV4 9) (IpV4 0x01020304) (TcpSegment 5000 443 [FlagSyn]))
       \<lparr>mk_packet = 0x40000000, mk_connection = 0\<rparr>) = Passed
   \<and> fst (ipt_hook_run 3 (\<lambda>_ _ _. QueueDrop) True
       (ipt_chains_of (sample_policy Enforcing [sample_web, sample_deny]) Ipv4 (\<lambda>_. []))
       HookOutput (sample_packet CtNew CtOriginal (IpV4 9) (IpV4 0x0a020304) (TcpSegment 5000 443 [FlagSyn]))
       \<lparr>mk_packet = 0x40000000, mk_connection = 0\<rparr>) \<noteq> Passed"
proof -
  let ?s = "sample_policy Enforcing [sample_web, sample_deny]"
  let ?p = "\<lambda>a. sample_packet CtNew CtOriginal (IpV4 9) (IpV4 a) (TcpSegment 5000 443 [FlagSyn])"
  let ?m = "\<lparr>mk_packet = 0x40000000, mk_connection = 0\<rparr>"
  have "ipt_outbound_passes (\<lambda>_ _ _. QueueDrop) ?s (?p 0x01020304) ?m"
    "\<not> ipt_outbound_passes (\<lambda>_ _ _. QueueDrop) ?s (?p 0x0a020304) ?m"
    by (simp_all add: ipt_outbound_passes_def ipt_guarded_def policy_eval filter_sample_defs)
  moreover have "family_of (pk_src (?p a)) = Ipv4" "one_family (?p a)" for a
    by (simp_all add: sample_packet_def one_family_def)
  moreover have "sn_mode ?s = Enforcing" by (simp add: sample_policy_def)
  ultimately show ?thesis
    using ipt_verdicts_exact [of "?p a" Ipv4 ?s "\<lambda>_ _ _. QueueDrop" 3 True "\<lambda>_. []" ?m for a] by simp
qed

end
