(* ===== verification/Filter_Backends.thy ===== *)
theory Filter_Backends
  imports Iptables_Properties Decision_Properties
begin

text \<open>
  The contract both firewall back ends fulfil towards the daemon, what follows from it, and that the
  two compilers and the decision code of the daemon agree on which packets a rule concerns.
\<close>

unbundle bit_operations_syntax

section \<open>The contract\<close>

text \<open>
  A back end gives a verdict for a policy, a hook, a packet and its marks, for the packets
  it is meant for (\<open>fits\<close>).
\<close>

locale filter_backend =
  fixes verdict :: "snapshot \<Rightarrow> nft_hook \<Rightarrow> packet \<Rightarrow> marks \<Rightarrow> hook_verdict"
    and fits :: "packet \<Rightarrow> bool"
  assumes closed: "sn_mode s = BlockAll \<Longrightarrow> fits p \<Longrightarrow> verdict s h p m = Discarded"
    and outbound: "sn_mode s = Enforcing \<Longrightarrow> snapshot_application_interception s = InterceptNone \<Longrightarrow>
      fits p \<Longrightarrow> verdict s HookOutput p m = Passed \<longleftrightarrow> outbound_allowed s p m"
    and inbound: "sn_mode s = Enforcing \<Longrightarrow> snapshot_application_interception s = InterceptNone \<Longrightarrow>
      fits p \<Longrightarrow> verdict s HookInput p m = Passed \<longleftrightarrow> inbound_allowed s p m"
    and forward: "sn_mode s \<noteq> BlockAll \<Longrightarrow> fits p \<Longrightarrow> verdict s HookForward p m = Passed"
begin

lemma deny_is_final:
  assumes "sn_mode s = Enforcing" "snapshot_application_interception s = InterceptNone" "fits p"
    and "denies s p" "\<not> refusal_notice s p m"
  shows "verdict s HookOutput p m \<noteq> Passed"
  using assms by (simp add: outbound outbound_allowed_def)

text \<open>The order in which the rules are listed does not matter.\<close>

lemma order_irrelevant:
  assumes "sn_mode s = Enforcing" "snapshot_application_interception s = InterceptNone" "fits p"
    and "set rules = set (sn_rules s)"
  shows "verdict (s\<lparr>sn_rules := rules\<rparr>) HookOutput p m = Passed \<longleftrightarrow> verdict s HookOutput p m = Passed"
proof -
  have "snapshot_application_interception (s\<lparr>sn_rules := rules\<rparr>) = InterceptNone"
    using assms by (simp add: snapshot_application_interception_def
        classify_application_interception_def enforcing_application)
  then show ?thesis
    using assms
    by (simp add: outbound outbound_allowed_def refusal_notice_def has_enabled_outbound_reject_def
        denies_def admits_def answers_def network_rules_def list_ex_iff)
qed

end

text \<open>Two back ends with the same contract are interchangeable.\<close>

locale interchangeable_backends =
  one: filter_backend verdict fits + other: filter_backend verdict' fits'
  for verdict fits verdict' fits'
begin

lemma same_verdict:
  assumes "sn_mode s \<noteq> Learning" "snapshot_application_interception s = InterceptNone"
    and "fits p" "fits' p"
  shows "verdict s h p m = Passed \<longleftrightarrow> verdict' s h p m = Passed"
proof (cases "sn_mode s = BlockAll")
  case True
  then show ?thesis using assms by (simp add: one.closed other.closed)
next
  case False
  then have "sn_mode s = Enforcing" using assms(1) by (cases "sn_mode s") simp_all
  then show ?thesis
    using assms False
    by (cases h) (simp_all add: one.outbound other.outbound one.inbound other.inbound
        one.forward other.forward)
qed

end

section \<open>The nftables back end\<close>

definition nft_verdict ::
    "queue_consumer \<Rightarrow> bool \<Rightarrow> snapshot \<Rightarrow> nft_hook \<Rightarrow> packet \<Rightarrow> marks \<Rightarrow> hook_verdict" where
  "nft_verdict consume lim s h p m = fst (nft_hook_run 3 consume lim (nft_table_of s) h p m)"

lemma no_application_rules:
  assumes "sn_mode s = Enforcing" "snapshot_application_interception s = InterceptNone"
  shows "\<not> concerns_application s actions p" "\<not> guarded s actions p" "\<not> ipt_guarded s actions p"
    "\<not> flow_continues s p m" "\<not> flow_reply s p m" "\<not> reply_awaited s p m"
  using no_interception [OF assms(2,1), of actions] assms(2)
  by (simp_all add: concerns_application_def guarded_def ipt_guarded_def application_specs_def
      flow_continues_def flow_reply_def intercepted_def reply_awaited_def)

interpretation nft: filter_backend "nft_verdict consume lim" "\<lambda>_. True"
proof
  fix s :: snapshot and p :: packet and h m
  show "nft_verdict consume lim s h p m = Discarded" if "sn_mode s = BlockAll"
    unfolding nft_verdict_def using that by (rule nft_block_all) simp
  assume network: "sn_mode s = Enforcing" "snapshot_application_interception s = InterceptNone"
  show "nft_verdict consume lim s HookOutput p m = Passed \<longleftrightarrow> outbound_allowed s p m"
  proof -
    have "nft_hook_run 3 consume lim (nft_table_of s) HookOutput p m =
        traverse (Suc (Suc 0)) consume lim p
          [nft_append_chain s Outbound InterceptNone,
           nft_append_application_authorization_chain s InterceptNone] (sanitised m)"
      by (simp add: nft_hook_run_def hook_chains_of network(2) numeral_3_eq_3 run_sanitization)
    then show ?thesis
      using run_outbound_chain [OF network(1) network(2) [symmetric], of 0 consume lim p "sanitised m"]
        no_application_rules [OF network]
      by (simp add: nft_verdict_def outbound_allowed_def sanitised_marks del: traverse.simps)
  qed
  show "nft_verdict consume lim s HookInput p m = Passed \<longleftrightarrow> inbound_allowed s p m"
    unfolding nft_verdict_def numeral_3_eq_3
    using no_application_rules [OF network] by (simp add: inbound_step [OF network(1)])
next
  show "nft_verdict consume lim s HookForward p m = Passed" if "sn_mode s \<noteq> BlockAll" for s p m
    using that by (simp add: nft_verdict_def nft_hook_run_def hook_chains_of numeral_3_eq_3
        nft_append_forward_chain_def run_chain_def)
qed

section \<open>The iptables back end\<close>

text \<open>Each family has its own program; a packet meets the chains of its family.\<close>

definition ipt_verdict ::
    "queue_consumer \<Rightarrow> bool \<Rightarrow> ipt_chains \<Rightarrow> snapshot \<Rightarrow> nft_hook \<Rightarrow> packet \<Rightarrow> marks
     \<Rightarrow> hook_verdict" where
  "ipt_verdict consume lim cs s h p m =
     fst (ipt_hook_run 3 consume lim (ipt_chains_of s (family_of (pk_src p)) cs) h p m)"

lemma ipt_network_outbound:
  assumes "sn_mode s = Enforcing" "snapshot_application_interception s = InterceptNone" "one_family p"
  shows "ipt_verdict consume lim cs s HookOutput p m = Passed \<longleftrightarrow> outbound_allowed s p m"
proof -
  let ?f = "family_of (pk_src p)"
  let ?cs = "ipt_chains_of s ?f cs" and ?m = "sanitised m"
  have "ipt_hook_run 3 consume lim ?cs HookOutput p m =
      ipt_traverse (Suc (Suc 0)) consume ?cs lim p [[ChainOut]] ?m"
    using assms(1) by (simp add: numeral_3_eq_3 ipt_hook_run_def run_mangle del: run_ipt_table.simps)
  moreover have "ipt_traverse (Suc (Suc 0)) consume ?cs lim p [[ChainOut]] ?m = (Passed, m')"
    if "run_ipt_table ?cs lim p [ChainOut] ?m = (IptReturn, m')" for m'
    using that by (simp del: run_ipt_table.simps)
  moreover have "fst (ipt_traverse (Suc (Suc 0)) consume ?cs lim p [[ChainOut]] ?m) \<noteq> Passed"
    if "fst (run_ipt_table ?cs lim p [ChainOut] ?m) \<in> {IptDrop, IptReject}"
    using that by (cases "run_ipt_table ?cs lim p [ChainOut] ?m") (auto simp del: run_ipt_table.simps)
  moreover have "run_ipt_table ?cs lim p [ChainOut] ?m = (IptReturn, snd (run_ipt_table ?cs lim p [ChainOut] ?m))"
    if "outbound_allowed s p m"
    using that no_application_rules [OF assms(1,2)] run_ipt_head(1,3) [OF refl assms(3,1), of ?m]
      run_ipt_tail [OF refl assms(3,1) assms(2) [symmetric], of "run_ipt_chain 1 ?cs lim p" lim ?m]
    by (cases "refusal_notice s p m")
      (auto simp: output_chain_of assms(2) sanitised_marks outbound_allowed_def
        simp del: run_ipt_table.simps run_ipt_chain.simps One_nat_def)
  moreover have "fst (run_ipt_table ?cs lim p [ChainOut] ?m) \<in> {IptDrop, IptReject}"
    if "\<not> outbound_allowed s p m"
  proof (cases "pk_ct_state p = CtInvalid \<or> denies s p")
    case True
    then have "fst (run_ipt (run_ipt_chain 1 ?cs lim p) lim p
        (ipt_append_output_chain s ?f InterceptNone) ?m) \<in> {Some IptDrop, Some IptReject}"
      using that by (intro run_ipt_head(2) [OF refl assms(3,1)])
        (simp_all add: sanitised_marks outbound_allowed_def)
    then show ?thesis
      by (cases "run_ipt (run_ipt_chain 1 ?cs lim p) lim p (ipt_append_output_chain s ?f InterceptNone) ?m")
        (auto simp: output_chain_of assms(2)
          simp del: run_ipt_table.simps run_ipt_chain.simps One_nat_def)
  next
    case False
    then show ?thesis
      using that no_application_rules [OF assms(1,2)] run_ipt_head(3) [OF refl assms(3,1), of ?m]
        run_ipt_tail [OF refl assms(3,1) assms(2) [symmetric], of "run_ipt_chain 1 ?cs lim p" lim ?m]
      by (auto simp: output_chain_of assms(2) sanitised_marks outbound_allowed_def
          simp del: run_ipt_table.simps run_ipt_chain.simps One_nat_def)
  qed
  ultimately show ?thesis unfolding ipt_verdict_def by (metis fst_conv)
qed

interpretation ipt: filter_backend "ipt_verdict consume lim cs" one_family
proof
  fix s :: snapshot and p :: packet and h m
  show "ipt_verdict consume lim cs s h p m = Discarded" if "sn_mode s = BlockAll"
    unfolding ipt_verdict_def using that by (rule ipt_block_all) simp
  show "ipt_verdict consume lim cs s HookForward p m = Passed" if "sn_mode s \<noteq> BlockAll"
    unfolding ipt_verdict_def numeral_3_eq_3 using that by (rule ipt_forward_open)
  assume network: "sn_mode s = Enforcing" "snapshot_application_interception s = InterceptNone"
    and family: "one_family p"
  show "ipt_verdict consume lim cs s HookOutput p m = Passed \<longleftrightarrow> outbound_allowed s p m"
    using network family by (rule ipt_network_outbound)
  show "ipt_verdict consume lim cs s HookInput p m = Passed \<longleftrightarrow> inbound_allowed s p m"
    unfolding ipt_verdict_def numeral_3_eq_3
    using no_application_rules [OF network] by (simp add: ipt_inbound_step [OF refl family network(1)])
qed

interpretation backends: interchangeable_backends "nft_verdict consume lim" "\<lambda>_. True"
  "ipt_verdict consume lim cs" one_family
  by unfold_locales

text \<open>C8: The two back ends are interchangeable: for a policy without application rules, in
  BlockAll and in Enforcing, a packet passes a hook of the nftables table exactly when it
  passes that hook of the iptables chains, whatever those chains held before.\<close>

theorem backends_agree:
  assumes "sn_mode s \<noteq> Learning" "snapshot_application_interception s = InterceptNone" "one_family p"
  shows "fst (nft_hook_run 3 consume lim (nft_table_of s) h p m) = Passed \<longleftrightarrow>
     fst (ipt_hook_run 3 consume lim (ipt_chains_of s (family_of (pk_src p)) cs) h p m) = Passed"
  using backends.same_verdict [OF assms(1,2) TrueI assms(3), of consume lim h m cs]
  by (simp add: nft_verdict_def ipt_verdict_def)

theorem backends_agree_witness:
  "fst (nft_hook_run 3 (\<lambda>_ _ _. QueueAbsent) True
       (nft_table_of (sample_policy Enforcing [sample_web, sample_deny])) HookOutput
       (sample_packet CtNew CtOriginal (IpV4 9) (IpV4 0x0a020304) (TcpSegment 5000 443 [FlagSyn]))
       \<lparr>mk_packet = 0, mk_connection = 0\<rparr>) = Passed \<longleftrightarrow>
   fst (ipt_hook_run 3 (\<lambda>_ _ _. QueueAbsent) True
       (ipt_chains_of (sample_policy Enforcing [sample_web, sample_deny]) Ipv4 (\<lambda>_. [])) HookOutput
       (sample_packet CtNew CtOriginal (IpV4 9) (IpV4 0x0a020304) (TcpSegment 5000 443 [FlagSyn]))
       \<lparr>mk_packet = 0, mk_connection = 0\<rparr>) = Passed"
proof -
  let ?s = "sample_policy Enforcing [sample_web, sample_deny]"
  let ?p = "sample_packet CtNew CtOriginal (IpV4 9) (IpV4 0x0a020304) (TcpSegment 5000 443 [FlagSyn])"
  have "snapshot_application_interception ?s = InterceptNone"
    by (simp add: snapshot_application_interception_def classify_application_interception_def
        sample_policy_def sample_web_def sample_deny_def network_sample_rule_def)
  moreover have "sn_mode ?s \<noteq> Learning" by (simp add: sample_policy_def)
  moreover have "one_family ?p" "family_of (pk_src ?p) = Ipv4"
    by (simp_all add: one_family_def sample_packet_def)
  ultimately show ?thesis using backends_agree [of ?s ?p] by simp
qed

section \<open>The kernel and the daemon\<close>

text \<open>
  What the daemon's parser makes of an outbound packet it can attribute: the same addresses,
  the port of a TCP or UDP packet, and ICMP only in its own family.
\<close>

fun packet_protocol :: "ip_family \<Rightarrow> payload \<Rightarrow> (transport_protocol \<times> u16 option) option" where
  "packet_protocol _ (TcpSegment _ d _) = Some (Tcp, Some d)"
| "packet_protocol _ (UdpDatagram _ d) = Some (Udp, Some d)"
| "packet_protocol Ipv4 (IcmpMessage _ _) = Some (Icmp, None)"
| "packet_protocol Ipv6 (IcmpV6Message _ _) = Some (IcmpV6, None)"
| "packet_protocol _ _ = None"

definition describes :: "outbound_connection \<Rightarrow> packet \<Rightarrow> bool" where
  "describes c p \<longleftrightarrow>
     oc_destination_address c = pk_dst p
     \<and> interface_str (oc_output_interface c) = pk_oif p
     \<and> packet_protocol (family_of (pk_src p)) (pk_payload p)
       = Some (oc_protocol c, oc_destination_port c)"

lemma valid_port_protocol:
  assumes "rule_spec_validate spec = Inr ()" "spec_port spec \<noteq> None"
  shows "spec_protocol spec = Tcp \<or> spec_protocol spec = Udp"
  using assms by (auto simp: rule_spec_validate_def res_simps)

lemma described_protocol:
  assumes "describes c p"
  shows "protocol_selects k p \<longleftrightarrow> k = Any \<or> k = oc_protocol c"
  using assms unfolding describes_def
  by (cases "pk_payload p"; cases "family_of (pk_src p)"; cases k) auto

lemma described_port:
  assumes "describes c p" "k = Tcp \<or> k = Udp"
  shows "port_selects k False r p \<longleftrightarrow>
     k = oc_protocol c \<and> is_some_and (oc_destination_port c) (\<lambda>q. pr_start r \<le> q \<and> q \<le> pr_end r)"
  using assms unfolding describes_def
  by (cases "pk_payload p"; cases "family_of (pk_src p)")
    (auto simp: in_range_def is_some_and_def split: option.splits)

lemma described_selects:
  assumes "describes c p" "rule_spec_validate (rule_spec r) = Inr ()"
  shows "spec_enabled (rule_spec r) \<and> spec_direction (rule_spec r) = Outbound
       \<and> rule_selects (rule_spec r) Outbound False p \<longleftrightarrow>
     outbound_network_selectors_match net_member r c"
proof -
  have interface: "is_none_or (spec_interface (rule_spec r)) (\<lambda>i. device_of Outbound p = interface_str i)
      \<longleftrightarrow> is_none_or (spec_interface (rule_spec r)) (\<lambda>i. i = oc_output_interface c)"
    using assms(1) interface_name.expand
    by (auto simp: describes_def device_of_def is_none_or_def split: option.splits)
  have peer: "peer_of Outbound p = oc_destination_address c"
    using assms(1) by (simp add: describes_def peer_of_def)
  show ?thesis
  proof (cases "spec_port (rule_spec r)")
    case None
    then show ?thesis
      by (auto simp: rule_selects_def outbound_network_selectors_match_def interface peer
          described_protocol [OF assms(1)])
  next
    case (Some ports)
    then have "spec_protocol (rule_spec r) = Tcp \<or> spec_protocol (rule_spec r) = Udp"
      using valid_port_protocol [OF assms(2)] by simp
    moreover from described_port [OF assms(1) this]
    have "port_selects (spec_protocol (rule_spec r)) False ports p \<longleftrightarrow>
        spec_protocol (rule_spec r) = oc_protocol c
        \<and> is_some_and (oc_destination_port c) (\<lambda>q. pr_start ports \<le> q \<and> q \<le> pr_end ports)" .
    ultimately show ?thesis
      using Some by (auto simp: rule_selects_def outbound_network_selectors_match_def interface peer
          described_protocol [OF assms(1)])
  qed
qed



end
