(* ===== verification/Spec2Isabelle.thy ===== *)
theory Spec2Isabelle
  imports Snapshot_Properties Learning_Admission Template_Migration Fair_Queue Reply_Properties
    Decision_Properties Protocol_Properties Engine_Properties Filter_Backends
begin

text \<open>
  \<^bold>\<open>OpenShield\<close> is a host firewall: a privileged daemon owns a policy, compiles it into
  kernel rules, attributes outbound packets to applications and serves a terminal client.
  This library models the policy core and its clients and proves what they promise.

  The header is completed as the components are added.
\<close>

end
